theory Spec2Isabelle
  imports Complex_Main
begin

section \<open>Conventions of the embedding\<close>

text \<open>
  The gating core of MOOSE is C++ over \<^verbatim>\<open>double\<close>. A \<^verbatim>\<open>double\<close> is modelled by a
  \<^typ>\<open>real\<close>: rounding, infinities and NaN are outside the model, and a
  division by zero (which C++ answers with an infinity or a NaN) is \<open>0\<close> here.
  A \<^verbatim>\<open>vector<double>\<close> is a \<^typ>\<open>real list\<close>, an \<^verbatim>\<open>unsigned int\<close> a \<^typ>\<open>nat\<close>
  below \<open>2 ^ 32\<close>, a pointer that may be null an \<open>option\<close>. A member \<^verbatim>\<open>name_\<close> of
  the source is the record field \<open>name\<close> (the tables \<^verbatim>\<open>A_\<close>, \<^verbatim>\<open>B_\<close> are
  \<open>tableA\<close>, \<open>tableB\<close>, the names of their fields in the class info).

  A failed \<^verbatim>\<open>assert\<close>, a read or write outside a vector and a conversion that C++ leaves
  undefined are values of \<open>error\<close>. What is written to \<^verbatim>\<open>cout\<close>/\<^verbatim>\<open>cerr\<close> and what is
  sent to the compartment is returned as a list of \<open>event\<close>s.
\<close>

datatype error = AssertionFailed | OutOfBounds | UndefinedCast | NullGate

datatype event = Warning string | ErrorMsg string | ChannelOut real real | IkOut real

text \<open>\<^verbatim>\<open>static_cast<unsigned int>(x)\<close> drops the fraction; it is defined only when the
  truncated value fits the type.\<close>

definition to_uint :: "real \<Rightarrow> error + nat" where
  "to_uint x = (if - 1 < x \<and> x < 2 ^ 32 then Inr (nat \<lfloor>x\<rfloor>) else Inl UndefinedCast)"

text \<open>\<^verbatim>\<open>tab[i]\<close> and \<^verbatim>\<open>tab.back()\<close> on a \<^verbatim>\<open>vector\<close>.\<close>

definition vec_at :: "real list \<Rightarrow> nat \<Rightarrow> error + real" where
  "vec_at tab i = (if i < length tab then Inr (tab ! i) else Inl OutOfBounds)"

definition vec_back :: "real list \<Rightarrow> error + real" where
  "vec_back tab = (if tab = [] then Inl OutOfBounds else Inr (last tab))"

text \<open>\<^verbatim>\<open>vector::resize(n)\<close>: cut, or fill with \<open>0.0\<close>.\<close>

definition resize :: "nat \<Rightarrow> real list \<Rightarrow> real list" where
  "resize n tab = take n tab @ replicate (n - length tab) 0"

definition SINGULARITY :: real where
  "SINGULARITY = 1 / 10 ^ 6"

text \<open>Modelled from the spec: \<^verbatim>\<open>EPSILON\<close>, which \<^verbatim>\<open>HHChannelF2D::vReinit\<close> compares \<open>B\<close> with,
  is defined in no header among the sources. The specification gives the threshold of
  reinit as \<open>1e-15\<close>.\<close>

definition EPSILON :: real where
  "EPSILON = 1 / 10 ^ 15"

section \<open>HHGate: the table-backed one-dimensional gate\<close>

record HHGate =
  originalChanId :: nat
  originalGateId :: nat
  tableA :: "real list"
  tableB :: "real list"
  xmin :: real
  xmax :: real
  invDx :: real
  form :: int
  alphaExpr :: string
  betaExpr :: string
  lookupByInterpolation :: bool
  isDirectTable :: bool
  alpha :: "real list"
  beta :: "real list"

text \<open>The constructor \<^verbatim>\<open>HHGate(Id originalChanId, Id originalGateId)\<close>.\<close>

definition HHGate_new :: "nat \<Rightarrow> nat \<Rightarrow> HHGate" where
  "HHGate_new chanId gateId =
     \<lparr>originalChanId = chanId, originalGateId = gateId,
      tableA = [0], tableB = [0], xmin = 0, xmax = 1, invDx = 1, form = 0,
      alphaExpr = [], betaExpr = [], lookupByInterpolation = False,
      isDirectTable = False, alpha = [], beta = []\<rparr>"

subsection \<open>Lookup\<close>

definition HHGate_lookupTable :: "HHGate \<Rightarrow> real list \<Rightarrow> real \<Rightarrow> error + real" where
  "HHGate_lookupTable g tab v =
     (if v \<le> xmin g then vec_at tab 0
      else if v \<ge> xmax g then vec_back tab
      else if lookupByInterpolation g then
        (case to_uint ((v - xmin g) * invDx g) of
           Inl e \<Rightarrow> Inl e
         | Inr index \<Rightarrow>
             if \<not> length tab > index then Inl AssertionFailed
             else
               let frac = (v - xmin g - real index / invDx g) * invDx g in
               (case vec_at tab (index + 1) of
                  Inl e \<Rightarrow> Inl e
                | Inr nxt \<Rightarrow> Inr (tab ! index * (1 - frac) + nxt * frac)))
      else
        (case to_uint ((v - xmin g) * invDx g) of
           Inl e \<Rightarrow> Inl e
         | Inr index \<Rightarrow> vec_at tab index))"

definition HHGate_lookupA :: "HHGate \<Rightarrow> real \<Rightarrow> error + real" where
  "HHGate_lookupA g v = HHGate_lookupTable g (tableA g) v"

definition HHGate_lookupB :: "HHGate \<Rightarrow> real \<Rightarrow> error + real" where
  "HHGate_lookupB g v = HHGate_lookupTable g (tableB g) v"

text \<open>\<^verbatim>\<open>lookupBoth\<close>. Between the ends of the range the index is the product
  \<^verbatim>\<open>(v - xmin_) * invDx_\<close> cut to an \<^verbatim>\<open>unsigned int\<close>, with the \<^verbatim>\<open>invDx_\<close> that the gate has
  stored. The assertion bounds the index by the sizes of the tables; with interpolation the
  entries at \<^verbatim>\<open>index + 1\<close> are read as well, which the assertion does not cover. The product
  is exact here and rounded in \<^verbatim>\<open>double\<close>: there the index of a \<open>v\<close> just below \<^verbatim>\<open>xmax_\<close> can
  be one more than the index of the exact product.\<close>

definition HHGate_lookupBoth :: "HHGate \<Rightarrow> real \<Rightarrow> error + (real \<times> real)" where
  "HHGate_lookupBoth g v =
     (if v \<le> xmin g then
        (case (vec_at (tableA g) 0, vec_at (tableB g) 0) of
           (Inr a, Inr b) \<Rightarrow> Inr (a, b)
         | _ \<Rightarrow> Inl OutOfBounds)
      else if v \<ge> xmax g then
        (case (vec_back (tableA g), vec_back (tableB g)) of
           (Inr a, Inr b) \<Rightarrow> Inr (a, b)
         | _ \<Rightarrow> Inl OutOfBounds)
      else
        (case to_uint ((v - xmin g) * invDx g) of
           Inl e \<Rightarrow> Inl e
         | Inr index \<Rightarrow>
             if \<not> (length (tableA g) > index \<and> length (tableB g) > index)
             then Inl AssertionFailed
             else if lookupByInterpolation g then
               let frac = (v - xmin g - real index / invDx g) * invDx g in
               (case (vec_at (tableA g) (index + 1), vec_at (tableB g) (index + 1)) of
                  (Inr a1, Inr b1) \<Rightarrow>
                    Inr (tableA g ! index * (1 - frac) + a1 * frac,
                         tableB g ! index * (1 - frac) + b1 * frac)
                | _ \<Rightarrow> Inl OutOfBounds)
             else Inr (tableA g ! index, tableB g ! index)))"

subsection \<open>The guard of the mutating entry points\<close>

text \<open>Modelled from the spec: \<^verbatim>\<open>HHGateBase::checkOriginal\<close> is declared in
  \<^verbatim>\<open>HHGateBase.h\<close>, which is not among the sources. A mutating entry point takes the
  identifier of the element the call came through and rejects a mismatch with the gate's
  original, with a warning that names the field.\<close>

definition checkOriginal :: "HHGate \<Rightarrow> nat \<Rightarrow> string \<Rightarrow> bool \<times> event list" where
  "checkOriginal g eid field =
     (if eid = originalGateId g then (True, []) else (False, [Warning field]))"

text \<open>\<^verbatim>\<open>A_.size() - 1\<close> stored in an \<^verbatim>\<open>unsigned int\<close>, and \<^verbatim>\<open>val + 1\<close> on one.\<close>

definition size_minus_1 :: "real list \<Rightarrow> nat" where
  "size_minus_1 tab = (if tab = [] then 2 ^ 32 - 1 else length tab - 1)"

definition uint_succ :: "nat \<Rightarrow> nat" where
  "uint_succ n = (n + 1) mod 2 ^ 32"

text \<open>\<^verbatim>\<open>getDivs\<close> returns \<^verbatim>\<open>A_.size() - 1\<close>.\<close>

definition HHGate_getDivs :: "HHGate \<Rightarrow> nat" where
  "HHGate_getDivs g = size_minus_1 (tableA g)"

text \<open>What the specification's table lookup rule returns. In its data model \<open>invDx\<close> is
  not stored: it is the derived \<open>divs / (max - min)\<close>.\<close>

definition spec_invDx :: "HHGate \<Rightarrow> real" where
  "spec_invDx g = real (HHGate_getDivs g) / (xmax g - xmin g)"

definition spec_lookup :: "HHGate \<Rightarrow> real \<Rightarrow> real \<times> real" where
  "spec_lookup g v =
     (if v \<le> xmin g then (tableA g ! 0, tableB g ! 0)
      else if v \<ge> xmax g then (last (tableA g), last (tableB g))
      else
        let i = nat \<lfloor>(v - xmin g) * spec_invDx g\<rfloor> in
        if lookupByInterpolation g then
          let frac = (v - xmin g - real i / spec_invDx g) * spec_invDx g in
          (tableA g ! i * (1 - frac) + tableA g ! (i + 1) * frac,
           tableB g ! i * (1 - frac) + tableB g ! (i + 1) * frac)
        else (tableA g ! i, tableB g ! i))"

subsection \<open>The parametric fill: \<^verbatim>\<open>setupTables\<close>\<close>

text \<open>The tables under construction and the locals of \<^verbatim>\<open>setupTables\<close> that live across
  iterations.\<close>

record setup_loop =
  loopA :: "real list"
  loopB :: "real list"
  loop_x :: real
  loop_temp :: real
  loop_temp2 :: real
  prevAentry :: real
  prevBentry :: real

text \<open>The first half of the body of the first loop: the entry \<^verbatim>\<open>A_[i]\<close>.\<close>

definition setupTables_entryA :: "real list \<Rightarrow> real \<Rightarrow> nat \<Rightarrow> setup_loop \<Rightarrow> setup_loop" where
  "setupTables_entryA parms dx i s =
     (if \<bar>parms ! 4\<bar> < SINGULARITY then
        s\<lparr>loop_temp := 0, loopA := (loopA s)[i := 0]\<rparr>
      else
        let x = loop_x s;
            temp2 = parms ! 2 + exp ((x + parms ! 3) / parms ! 4)
        in
        if \<bar>temp2\<bar> < SINGULARITY then
          let temp2a = parms ! 2 + exp ((x + dx / 10 + parms ! 3) / parms ! 4);
              tempa = (parms ! 0 + parms ! 1 * (x + dx / 10)) / temp2a;
              temp2b = parms ! 2 + exp ((x - dx / 10 + parms ! 3) / parms ! 4);
              tempb = (tempa + (parms ! 0 + parms ! 1 * (x - dx / 10)) / temp2b) / 2
          in s\<lparr>loop_temp := tempb, loop_temp2 := temp2b, loopA := (loopA s)[i := tempb]\<rparr>
        else
          let temp = (parms ! 0 + parms ! 1 * x) / temp2 in
          s\<lparr>loop_temp := temp, loop_temp2 := temp2, loopA := (loopA s)[i := temp]\<rparr>)"

text \<open>The second half: the entry \<^verbatim>\<open>B_[i]\<close>. Its singular branch reuses \<^verbatim>\<open>temp\<close>.\<close>

definition setupTables_entryB :: "real list \<Rightarrow> real \<Rightarrow> nat \<Rightarrow> setup_loop \<Rightarrow> setup_loop" where
  "setupTables_entryB parms dx i s =
     (if \<bar>parms ! 9\<bar> < SINGULARITY then
        s\<lparr>loopB := (loopB s)[i := 0]\<rparr>
      else
        let x = loop_x s;
            temp2 = parms ! 7 + exp ((x + parms ! 8) / parms ! 9)
        in
        if \<bar>temp2\<bar> < SINGULARITY then
          let temp2a = parms ! 7 + exp ((x + dx / 10 + parms ! 8) / parms ! 9);
              tempa = (parms ! 5 + parms ! 6 * (x + dx / 10)) / temp2a;
              temp2b = parms ! 7 + exp ((x - dx / 10 + parms ! 8) / parms ! 9);
              tempb = (tempa + (parms ! 5 + parms ! 6 * (x - dx / 10)) / temp2b) / 2
          in s\<lparr>loop_temp := tempb, loop_temp2 := temp2b, loopB := (loopB s)[i := tempb]\<rparr>
        else
          s\<lparr>loop_temp2 := temp2, loopB := (loopB s)[i := (parms ! 5 + parms ! 6 * x) / temp2]\<rparr>)"

text \<open>One iteration of the first loop: both entries, \<^verbatim>\<open>B_[i] += temp\<close> in alpha/beta mode,
  and \<^verbatim>\<open>x += dx\<close>.\<close>

definition setupTables_step :: "real list \<Rightarrow> bool \<Rightarrow> real \<Rightarrow> nat \<Rightarrow> setup_loop \<Rightarrow> setup_loop" where
  "setupTables_step parms doTau dx i s =
     (let s1 = setupTables_entryB parms dx i (setupTables_entryA parms dx i s);
          s2 = (if \<not> doTau \<and> \<bar>loop_temp2 s1\<bar> > SINGULARITY
                then s1\<lparr>loopB := (loopB s1)[i := loopB s1 ! i + loop_temp s1]\<rparr>
                else s1)
      in s2\<lparr>prevAentry := loopA s2 ! i, prevBentry := loopB s2 ! i,
             loop_x := loop_x s2 + dx\<rparr>)"

text \<open>\<^verbatim>\<open>for(i = 0; i <= xdivs; i++)\<close>: the first argument counts the iterations left,
  the second is \<open>i\<close>.\<close>

fun setupTables_fill ::
  "real list \<Rightarrow> bool \<Rightarrow> real \<Rightarrow> nat \<Rightarrow> nat \<Rightarrow> setup_loop \<Rightarrow> setup_loop" where
  "setupTables_fill parms doTau dx 0 i s = s"
| "setupTables_fill parms doTau dx (Suc n) i s =
     setupTables_fill parms doTau dx n (Suc i) (setupTables_step parms doTau dx i s)"

text \<open>One iteration of the second loop, which runs in tau/inf mode only.\<close>

definition setupTables_tauStep :: "nat \<Rightarrow> setup_loop \<Rightarrow> setup_loop" where
  "setupTables_tauStep i s =
     (let temp = loopA s ! i;
          temp2 = loopB s ! i;
          s1 = (if \<bar>temp\<bar> < SINGULARITY
                then s\<lparr>loopA := (loopA s)[i := prevAentry s],
                       loopB := (loopB s)[i := prevBentry s]\<rparr>
                else s\<lparr>loopA := (loopA s)[i := temp2 / temp],
                       loopB := (loopB s)[i := 1 / temp]\<rparr>)
      in s1\<lparr>prevAentry := loopA s1 ! i, prevBentry := loopB s1 ! i\<rparr>)"

fun setupTables_tau :: "nat \<Rightarrow> nat \<Rightarrow> setup_loop \<Rightarrow> setup_loop" where
  "setupTables_tau 0 i s = s"
| "setupTables_tau (Suc n) i s = setupTables_tau n (Suc i) (setupTables_tauStep i s)"

text \<open>The state in which the first loop starts, once the tables are resized and the
  range is stored. The source leaves \<^verbatim>\<open>temp\<close> uninitialised; every iteration assigns it
  before it is read.\<close>

definition setupTables_init :: "HHGate \<Rightarrow> setup_loop" where
  "setupTables_init g =
     \<lparr>loopA = tableA g, loopB = tableB g, loop_x = xmin g, loop_temp = 0,
      loop_temp2 = 0, prevAentry = 0, prevBentry = 0\<rparr>"

text \<open>The gate after \<^verbatim>\<open>A_.resize\<close>, \<^verbatim>\<open>B_.resize\<close> and the assignments of the range.\<close>

definition setupTables_resized :: "HHGate \<Rightarrow> real list \<Rightarrow> nat \<Rightarrow> HHGate" where
  "setupTables_resized g parms xdivs =
     g\<lparr>tableA := resize (xdivs + 1) (tableA g),
       tableB := resize (xdivs + 1) (tableB g),
       xmin := parms ! 11, xmax := parms ! 12\<rparr>"

text \<open>The tables and locals after the first loop has run on such a gate.\<close>

definition setupTables_filled :: "HHGate \<Rightarrow> real list \<Rightarrow> bool \<Rightarrow> nat \<Rightarrow> setup_loop" where
  "setupTables_filled g1 parms doTau xdivs =
     setupTables_fill parms doTau ((xmax g1 - xmin g1) / real xdivs) (xdivs + 1) 0
       (setupTables_init g1)"

definition HHGate_setupTables :: "HHGate \<Rightarrow> real list \<Rightarrow> bool \<Rightarrow> error + HHGate" where
  "HHGate_setupTables g parms doTau =
     (if length parms \<noteq> 13 then Inl AssertionFailed
      else if parms ! 10 < 1 then Inr g
      else
        (case to_uint (parms ! 10) of
           Inl e \<Rightarrow> Inl e
         | Inr xdivs \<Rightarrow>
             if uint_succ xdivs = 0 then Inl OutOfBounds
             else
               let g1 = setupTables_resized g parms xdivs in
               if \<not> xmax g1 > xmin g1 then Inl AssertionFailed
               else
                 let g2 = g1\<lparr>invDx := real xdivs / (xmax g1 - xmin g1)\<rparr>;
                     s1 = setupTables_filled g2 parms doTau xdivs;
                     s2 = (if doTau
                           then setupTables_tau (xdivs + 1) 0
                                  (s1\<lparr>prevAentry := 0, prevBentry := 0\<rparr>)
                           else s1)
                 in Inr (g2\<lparr>tableA := loopA s2, tableB := loopB s2, form := 0\<rparr>)))"

definition HHGate_updateTables :: "HHGate \<Rightarrow> error + HHGate" where
  "HHGate_updateTables g =
     (if alpha g = [] \<or> beta g = [] then Inr g
      else
        HHGate_setupTables g
          (alpha g @ beta g @ [real (length (tableA g)), xmin g, xmax g]) False)"

subsection \<open>Parametric setup and its read-back\<close>

definition HHGate_setupAlpha ::
  "HHGate \<Rightarrow> nat \<Rightarrow> real list \<Rightarrow> error + (HHGate \<times> event list)" where
  "HHGate_setupAlpha g eid parms =
     (case checkOriginal g eid ''setupAlpha'' of
        (False, w) \<Rightarrow> Inr (g, w)
      | (True, w) \<Rightarrow>
          if length parms \<noteq> 13
          then Inr (g, w @ [ErrorMsg ''HHGate::setupAlpha: Error: parms.size() != 13''])
          else
            (case HHGate_setupTables g parms False of
               Inl e \<Rightarrow> Inl e
             | Inr g1 \<Rightarrow>
                 Inr (g1\<lparr>alpha := [parms ! 0, parms ! 1, parms ! 2, parms ! 3, parms ! 4],
                         beta := [parms ! 5, parms ! 6, parms ! 7, parms ! 8, parms ! 9],
                         form := 0\<rparr>, w)))"

definition HHGate_getAlphaParms :: "HHGate \<Rightarrow> real list" where
  "HHGate_getAlphaParms g =
     alpha g @ beta g @ [real (length (tableA g)), xmin g, xmax g]"

definition HHGate_setupTau ::
  "HHGate \<Rightarrow> nat \<Rightarrow> real list \<Rightarrow> error + (HHGate \<times> event list)" where
  "HHGate_setupTau g eid parms =
     (case checkOriginal g eid ''setupTau'' of
        (False, w) \<Rightarrow> Inr (g, w)
      | (True, w) \<Rightarrow>
          if length parms \<noteq> 13
          then Inr (g, w @ [ErrorMsg ''HHGate::setupTau: Error: parms.size() != 13''])
          else
            (case HHGate_setupTables g parms True of
               Inl e \<Rightarrow> Inl e
             | Inr g1 \<Rightarrow> Inr (g1\<lparr>form := 0\<rparr>, w)))"

subsection \<open>Range resizing: \<^verbatim>\<open>tabFill\<close> and the range fields\<close>

text \<open>\<^verbatim>\<open>for(i = 0; i <= newXdivs; ++i) table[i] = lookupTable(table, newXmin + i * newDx)\<close>:
  the table that is read is the one being written.\<close>

fun tabFill_loop ::
  "HHGate \<Rightarrow> real \<Rightarrow> real \<Rightarrow> nat \<Rightarrow> nat \<Rightarrow> real list \<Rightarrow> error + real list" where
  "tabFill_loop g newXmin newDx 0 i table = Inr table"
| "tabFill_loop g newXmin newDx (Suc n) i table =
     (case HHGate_lookupTable g table (newXmin + real i * newDx) of
        Inl e \<Rightarrow> Inl e
      | Inr y \<Rightarrow> tabFill_loop g newXmin newDx n (Suc i) (table[i := y]))"

text \<open>The gate is passed for its range and \<open>invDx\<close>, which \<^verbatim>\<open>lookupTable\<close> reads, with the
  interpolation flag set for the duration of the call. The copy \<^verbatim>\<open>old\<close> that the source
  takes of the table is read nowhere.\<close>

definition HHGate_tabFill ::
  "HHGate \<Rightarrow> real list \<Rightarrow> nat \<Rightarrow> real \<Rightarrow> real \<Rightarrow> error + (real list \<times> event list)" where
  "HHGate_tabFill g table newXdivs newXmin newXmax =
     (if newXdivs < 3
      then Inr (table, [ErrorMsg ''Error: tabFill: # divs must be >= 3. Not filling table.''])
      else if uint_succ newXdivs = 0 then Inl OutOfBounds
      else
        let newDx = (newXmax - newXmin) / real newXdivs;
            table1 = resize (newXdivs + 1) table
        in
        (case tabFill_loop (g\<lparr>lookupByInterpolation := True\<rparr>) newXmin newDx
                (newXdivs + 1) 0 table1 of
           Inl e \<Rightarrow> Inl e
         | Inr table2 \<Rightarrow> Inr (table2, [])))"

text \<open>\<^verbatim>\<open>tabFill(A_, ...); tabFill(B_, ...)\<close> on the members of the gate.\<close>

definition tabFill_both ::
  "HHGate \<Rightarrow> nat \<Rightarrow> real \<Rightarrow> real \<Rightarrow> error + (HHGate \<times> event list)" where
  "tabFill_both g newXdivs newXmin newXmax =
     (case HHGate_tabFill g (tableA g) newXdivs newXmin newXmax of
        Inl e \<Rightarrow> Inl e
      | Inr (ta, w1) \<Rightarrow>
          (case HHGate_tabFill (g\<lparr>tableA := ta\<rparr>) (tableB g) newXdivs newXmin newXmax of
             Inl e \<Rightarrow> Inl e
           | Inr (tb, w2) \<Rightarrow> Inr (g\<lparr>tableA := ta, tableB := tb\<rparr>, w1 @ w2)))"

definition HHGate_setMin :: "HHGate \<Rightarrow> nat \<Rightarrow> real \<Rightarrow> error + (HHGate \<times> event list)" where
  "HHGate_setMin g eid val =
     (case checkOriginal g eid ''min'' of
        (False, w) \<Rightarrow> Inr (g, w)
      | (True, w) \<Rightarrow>
          let g1 = g\<lparr>xmin := val\<rparr>;
              xdivs = size_minus_1 (tableA g1)
          in
          if isDirectTable g1 \<and> xdivs > 0 then
            (case tabFill_both (g1\<lparr>invDx := real xdivs / (xmax g1 - val)\<rparr>)
                    xdivs val (xmax g1) of
               Inl e \<Rightarrow> Inl e
             | Inr (g2, w1) \<Rightarrow> Inr (g2, w @ w1))
          else
            (case HHGate_updateTables g1 of
               Inl e \<Rightarrow> Inl e
             | Inr g2 \<Rightarrow> Inr (g2, w)))"

definition HHGate_setMax :: "HHGate \<Rightarrow> nat \<Rightarrow> real \<Rightarrow> error + (HHGate \<times> event list)" where
  "HHGate_setMax g eid val =
     (case checkOriginal g eid ''max'' of
        (False, w) \<Rightarrow> Inr (g, w)
      | (True, w) \<Rightarrow>
          let g1 = g\<lparr>xmax := val\<rparr>;
              xdivs = size_minus_1 (tableA g1)
          in
          if isDirectTable g1 \<and> xdivs > 0 then
            (case tabFill_both (g1\<lparr>invDx := real xdivs / (val - xmin g1)\<rparr>)
                    xdivs (xmin g1) val of
               Inl e \<Rightarrow> Inl e
             | Inr (g2, w1) \<Rightarrow> Inr (g2, w @ w1))
          else
            (case HHGate_updateTables g1 of
               Inl e \<Rightarrow> Inl e
             | Inr g2 \<Rightarrow> Inr (g2, w)))"

definition HHGate_setDivs :: "HHGate \<Rightarrow> nat \<Rightarrow> nat \<Rightarrow> error + (HHGate \<times> event list)" where
  "HHGate_setDivs g eid val =
     (case checkOriginal g eid ''divs'' of
        (False, w) \<Rightarrow> Inr (g, w)
      | (True, w) \<Rightarrow>
          if isDirectTable g then
            (case tabFill_both (g\<lparr>invDx := real val / (xmax g - xmin g)\<rparr>)
                    val (xmin g) (xmax g) of
               Inl e \<Rightarrow> Inl e
             | Inr (g2, w1) \<Rightarrow> Inr (g2, w @ w1))
          else
            (case HHGate_updateTables
                    (g\<lparr>tableA := resize (uint_succ val) (tableA g),
                       tableB := resize (uint_succ val) (tableB g),
                       invDx := real val / (xmax g - xmin g)\<rparr>) of
               Inl e \<Rightarrow> Inl e
             | Inr g2 \<Rightarrow> Inr (g2, w)))"

subsection \<open>Tables and expressions\<close>

definition HHGate_setTableA :: "HHGate \<Rightarrow> nat \<Rightarrow> real list \<Rightarrow> HHGate \<times> event list" where
  "HHGate_setTableA g eid v =
     (if length v < 2
      then (g, [Warning ''HHGate::setTableA: size must be >= 2 entries''])
      else
        (case checkOriginal g eid ''tableA'' of
           (False, w) \<Rightarrow> (g, w)
         | (True, w) \<Rightarrow>
             (g\<lparr>isDirectTable := True, tableA := v,
                invDx := real (size_minus_1 v) / (xmax g - xmin g), form := 0\<rparr>, w)))"

definition HHGate_setTableB :: "HHGate \<Rightarrow> nat \<Rightarrow> real list \<Rightarrow> HHGate \<times> event list" where
  "HHGate_setTableB g eid v =
     (case checkOriginal g eid ''tableB'' of
        (False, w) \<Rightarrow> (g, w)
      | (True, w) \<Rightarrow>
          if length (tableA g) \<noteq> length v
          then (g\<lparr>isDirectTable := True\<rparr>,
                w @ [Warning ''HHGate::setTableB: size should be same as table A''])
          else (g\<lparr>isDirectTable := True, tableB := v, form := 0\<rparr>, w))"

definition HHGate_setAlphaExpr :: "HHGate \<Rightarrow> nat \<Rightarrow> string \<Rightarrow> HHGate \<times> event list" where
  "HHGate_setAlphaExpr g eid expr =
     (case checkOriginal g eid ''alphaExpr'' of
        (False, w) \<Rightarrow> (g, w)
      | (True, w) \<Rightarrow> (g\<lparr>form := 1, alphaExpr := expr\<rparr>, w))"

definition HHGate_setBetaExpr :: "HHGate \<Rightarrow> nat \<Rightarrow> string \<Rightarrow> HHGate \<times> event list" where
  "HHGate_setBetaExpr g eid expr =
     (case checkOriginal g eid ''betaExpr'' of
        (False, w) \<Rightarrow> (g, w)
      | (True, w) \<Rightarrow> (g\<lparr>form := 1, betaExpr := expr\<rparr>, w))"

definition HHGate_setTauExpr :: "HHGate \<Rightarrow> nat \<Rightarrow> string \<Rightarrow> HHGate \<times> event list" where
  "HHGate_setTauExpr g eid expr =
     (case checkOriginal g eid ''tauExpr'' of
        (False, w) \<Rightarrow> (g, w)
      | (True, w) \<Rightarrow> (g\<lparr>form := 2, alphaExpr := expr\<rparr>, w))"

definition HHGate_setInfExpr :: "HHGate \<Rightarrow> nat \<Rightarrow> string \<Rightarrow> HHGate \<times> event list" where
  "HHGate_setInfExpr g eid expr =
     (case checkOriginal g eid ''infExpr'' of
        (False, w) \<Rightarrow> (g, w)
      | (True, w) \<Rightarrow> (g\<lparr>form := 2, betaExpr := expr\<rparr>, w))"

definition HHGate_setUseInterpolation :: "HHGate \<Rightarrow> nat \<Rightarrow> bool \<Rightarrow> HHGate \<times> event list" where
  "HHGate_setUseInterpolation g eid val =
     (case checkOriginal g eid ''useInterpolation'' of
        (False, w) \<Rightarrow> (g, w)
      | (True, w) \<Rightarrow> (g\<lparr>lookupByInterpolation := val\<rparr>, w))"

subsection \<open>Filling the tables from the expressions: \<^verbatim>\<open>tabFillExpr\<close>\<close>

text \<open>\<^verbatim>\<open>fixSingularities\<close> replaces each run of entries that are NaN, infinite or smaller in
  magnitude than \<^verbatim>\<open>SINGULARITY\<close> by a straight line. NaN and the infinities have no
  counterpart among the reals, so an entry is singular here when it is small.\<close>

definition singular :: "real \<Rightarrow> bool" where
  "singular x \<longleftrightarrow> \<bar>x\<bar> < SINGULARITY"

text \<open>\<^verbatim>\<open>while(next < tab.size() && singular(tab[next])) ++next\<close>; the first argument
  counts the entries that are left.\<close>

fun fixSingularities_next :: "real list \<Rightarrow> nat \<Rightarrow> nat \<Rightarrow> nat" where
  "fixSingularities_next tab 0 nxt = nxt"
| "fixSingularities_next tab (Suc n) nxt =
     (if nxt < length tab \<and> singular (tab ! nxt)
      then fixSingularities_next tab n (Suc nxt) else nxt)"

text \<open>\<^verbatim>\<open>for(jj = prev + 1; jj < next; ++jj) tab[jj] = tab[jj - 1] + dy\<close>, with the number of
  its rounds.\<close>

fun fixSingularities_patch :: "real \<Rightarrow> nat \<Rightarrow> nat \<Rightarrow> real list \<Rightarrow> real list" where
  "fixSingularities_patch dy 0 jj tab = tab"
| "fixSingularities_patch dy (Suc n) jj tab =
     fixSingularities_patch dy n (Suc jj) (tab[jj := tab ! (jj - 1) + dy])"

text \<open>The outer loop over \<^verbatim>\<open>ii\<close>, where \<^verbatim>\<open>prev = ii - 1\<close>. When the run reaches the end of the
  table the source asserts \<^verbatim>\<open>prev >= 1\<close> and extrapolates; otherwise it reads \<^verbatim>\<open>tab[prev]\<close>,
  which is outside the table for a run that starts at the first entry. After a run the
  loop goes on behind \<^verbatim>\<open>next\<close>.\<close>

function fixSingularities_loop :: "real list \<Rightarrow> nat \<Rightarrow> error + real list" where
  "fixSingularities_loop tab ii =
     (if ii < length tab then
        if singular (tab ! ii) then
          let nxt = fixSingularities_next tab (length tab - (ii + 1)) (ii + 1) in
          if nxt \<ge> length tab then
            if \<not> 2 \<le> ii then Inl AssertionFailed
            else
              fixSingularities_loop
                (fixSingularities_patch (tab ! (ii - 1) - tab ! (ii - 2)) (nxt - ii) ii tab)
                (nxt + 1)
          else
            if ii = 0 then Inl OutOfBounds
            else
              fixSingularities_loop
                (fixSingularities_patch
                   ((tab ! nxt - tab ! (ii - 1)) / real (nxt - (ii - 1))) (nxt - ii) ii tab)
                (nxt + 1)
        else fixSingularities_loop tab (ii + 1)
      else Inr tab)"
  by pat_completeness auto

termination
proof -
  have len: "length (fixSingularities_patch dy n jj tab) = length tab" for dy n jj tab
    by (induction n arbitrary: jj tab) simp_all
  have up: "nxt \<le> fixSingularities_next tab n nxt" for tab n nxt
  proof (induction n arbitrary: nxt)
    case 0
    show ?case by simp
  next
    case (Suc n)
    from Suc [of "Suc nxt"] show ?case by simp
  qed
  have dec: "length tab - Suc (fixSingularities_next tab n (Suc ii)) < length tab - ii"
    if "ii < length tab" for tab n ii
    using that up [of "Suc ii" tab n] by simp
  show ?thesis
    apply (relation "measure (\<lambda>(tab, ii). length tab - ii)")
    apply (simp_all add: len dec)
    done
qed

declare fixSingularities_loop.simps [simp del]

definition fixSingularities :: "real list \<Rightarrow> error + real list" where
  "fixSingularities tab = fixSingularities_loop tab 0"

text \<open>The loop of \<^verbatim>\<open>tabFillExpr\<close> over the grid: \<^verbatim>\<open>v_ = xmin_ + ii * dv\<close>, both expressions
  are evaluated, and entry \<^verbatim>\<open>ii\<close> of both tables is written: \<open>alpha\<close> and \<open>alpha + beta\<close>
  when \<^verbatim>\<open>form_ == 1\<close>, else \<open>inf / tau\<close> and \<open>1 / tau\<close>. A compiled expression is modelled by
  the function of \<^verbatim>\<open>v\<close> that it computes.\<close>

fun tabFillExpr_loop ::
  "(real \<Rightarrow> real) \<Rightarrow> (real \<Rightarrow> real) \<Rightarrow> int \<Rightarrow> real \<Rightarrow> real \<Rightarrow> nat \<Rightarrow> nat
     \<Rightarrow> real list \<times> real list \<Rightarrow> real list \<times> real list" where
  "tabFillExpr_loop a b fm x0 dv 0 ii (ta, tb) = (ta, tb)"
| "tabFillExpr_loop a b fm x0 dv (Suc n) ii (ta, tb) =
     (let v = x0 + real ii * dv; a_val = a v; b_val = b v in
      tabFillExpr_loop a b fm x0 dv n (Suc ii)
        (if fm = 1 then (ta[ii := a_val], tb[ii := b_val + a_val])
         else (ta[ii := b_val / a_val], tb[ii := 1 / a_val])))"

text \<open>\<^verbatim>\<open>tabFillExpr\<close> is a destination function of the class info, like \<^verbatim>\<open>setupAlpha\<close>. It
  takes the element the call came through, uses it in its messages only, and does not call
  \<^verbatim>\<open>checkOriginal\<close>. The string functions and the parser of expressions are libraries
  outside the sources and are parameters here: \<open>trim\<close> for \<^verbatim>\<open>moose::trim\<close>, and \<open>compile\<close>
  for \<^verbatim>\<open>parser_.compile\<close>, which is \<open>None\<close> where the parser rejects the string. The second
  test for an empty expression reads \<^verbatim>\<open>alphaExpr_\<close> again, as the source does. The loop
  runs over \<^verbatim>\<open>ii <= xdivs\<close> with \<^verbatim>\<open>xdivs = A_.size() - 1\<close>, so it writes outside an empty
  table.\<close>

definition HHGate_tabFillExpr ::
  "(string \<Rightarrow> string) \<Rightarrow> (string \<Rightarrow> (real \<Rightarrow> real) option) \<Rightarrow> HHGate \<Rightarrow> nat
     \<Rightarrow> error + (HHGate \<times> event list)" where
  "HHGate_tabFillExpr trim compile g eid =
     (if form g = 0 then Inr (g, [])
      else if trim (alphaExpr g) = []
      then Inr (g, [ErrorMsg ''HHGate::tabFillExpr: empty expression for A''])
      else
        (case compile (alphaExpr g) of
           None \<Rightarrow> Inr (g, [ErrorMsg ''HHGate::tabFillExpr: cannot compile expression!''])
         | Some a \<Rightarrow>
             if trim (alphaExpr g) = []
             then Inr (g, [ErrorMsg ''HHGate::tabFillExpr: empty expression for B''])
             else
               (case compile (betaExpr g) of
                  None \<Rightarrow>
                    Inr (g, [ErrorMsg ''HHGate::tabFillExpr: cannot compile expression!''])
                | Some b \<Rightarrow>
                    let w = (if xmax g = 1 \<and> xmin g = 0
                             then [Warning ''HHGate::tabFillExpr: `min` and `max` have default values.'']
                             else []);
                        xdivs = size_minus_1 (tableA g)
                    in
                    if length (tableA g) \<noteq> length (tableB g) then Inl AssertionFailed
                    else if tableA g = [] then Inl OutOfBounds
                    else
                      let (ta, tb) =
                            tabFillExpr_loop a b (form g) (xmin g)
                              ((xmax g - xmin g) / real xdivs) (length (tableA g)) 0
                              (tableA g, tableB g)
                      in
                      (case fixSingularities ta of
                         Inl e \<Rightarrow> Inl e
                       | Inr ta1 \<Rightarrow>
                           (case fixSingularities tb of
                              Inl e \<Rightarrow> Inl e
                            | Inr tb1 \<Rightarrow>
                                Inr (g\<lparr>invDx := real xdivs / (xmax g - xmin g),
                                       tableA := ta1, tableB := tb1\<rparr>, w))))))"

section \<open>HHGateF2D: the formula-backed two-dimensional gate\<close>

text \<open>
  A compiled expression (\<^verbatim>\<open>alpha_\<close>, \<^verbatim>\<open>beta_\<close>) is modelled by the function it computes
  of the two variables it is bound to; \<^verbatim>\<open>alpha_.value()\<close> applies it to the members
  \<^verbatim>\<open>v_\<close> and \<^verbatim>\<open>conc_\<close> of the gate, which the symbol table holds by reference. The helper
  variables \<^verbatim>\<open>alpha\<close>, \<^verbatim>\<open>beta\<close>, \<^verbatim>\<open>tau\<close>, \<^verbatim>\<open>inf\<close> are scratch space of one evaluation.
  The lookups are \<^verbatim>\<open>const\<close> but write the \<^verbatim>\<open>mutable\<close> members, so they return the gate.
\<close>

record HHGateF2D =
  gate_v :: real
  gate_conc :: real
  alpha_expr :: "real \<Rightarrow> real \<Rightarrow> real"
  beta_expr :: "real \<Rightarrow> real \<Rightarrow> real"
  tauInf :: bool

definition alpha_value :: "HHGateF2D \<Rightarrow> real" where
  "alpha_value g = alpha_expr g (gate_v g) (gate_conc g)"

definition beta_value :: "HHGateF2D \<Rightarrow> real" where
  "beta_value g = beta_expr g (gate_v g) (gate_conc g)"

definition HHGateF2D_lookupA :: "HHGateF2D \<Rightarrow> real list \<Rightarrow> real \<times> HHGateF2D \<times> event list" where
  "HHGateF2D_lookupA g v =
     (if length v < 2
      then (0, g, [ErrorMsg ''HHGateF2D::lookupA: 2 real numbers needed to lookup 2D table.''])
      else
        let w = (if length v > 2
                 then [ErrorMsg ''HHGateF2D::getAValue: Only 2 real numbers needed. Using only first 2.'']
                 else []);
            g1 = g\<lparr>gate_v := v ! 0, gate_conc := v ! 1\<rparr>
        in (if tauInf g1 then beta_value g1 / alpha_value g1 else alpha_value g1, g1, w))"

definition HHGateF2D_lookupB :: "HHGateF2D \<Rightarrow> real list \<Rightarrow> real \<times> HHGateF2D \<times> event list" where
  "HHGateF2D_lookupB g v =
     (if length v < 2
      then (0, g, [ErrorMsg ''HHGateF2D::lookupB: 2 real numbers needed to lookup 2D table.''])
      else
        let w = (if length v > 2
                 then [ErrorMsg ''HHGateF2D::getAValue: Only 2 real numbers needed. Using only first 2.'']
                 else [])
        in (if tauInf g then 1 / alpha_value g else alpha_value g + beta_value g, g, w))"

definition HHGateF2D_lookupBoth ::
  "HHGateF2D \<Rightarrow> real \<Rightarrow> real \<Rightarrow> (real \<times> real) \<times> HHGateF2D \<times> event list" where
  "HHGateF2D_lookupBoth g v c =
     (case HHGateF2D_lookupA g [v, c] of
        (a, g1, w1) \<Rightarrow>
          (case HHGateF2D_lookupB g1 [v, c] of
             (b, g2, w2) \<Rightarrow> ((a, b), g2, w1 @ w2)))"

text \<open>What the specification says a lookup of B returns for the inputs of the call.\<close>

definition spec_B :: "HHGateF2D \<Rightarrow> real \<Rightarrow> real \<Rightarrow> real" where
  "spec_B g v c =
     (if tauInf g then 1 / alpha_expr g v c else alpha_expr g v c + beta_expr g v c)"

section \<open>HHChannelF2D: the channel\<close>

text \<open>
  The members inherited from \<^verbatim>\<open>ChanBase\<close> and \<^verbatim>\<open>HHChannelBase\<close> are fields of the same
  record. The accumulator \<^verbatim>\<open>g_\<close> is \<open>g_acc\<close>, the gate states \<^verbatim>\<open>X_\<close>, \<^verbatim>\<open>Y_\<close>, \<^verbatim>\<open>Z_\<close> are
  \<open>stateX\<close>, \<open>stateY\<close>, \<open>stateZ\<close>.
\<close>

record HHChannelF2D =
  Vm :: real
  conc1 :: real
  conc2 :: real
  Gbar :: real
  Ek :: real
  Gk :: real
  Ik :: real
  modulation :: real
  g_acc :: real
  Xpower :: int
  Ypower :: int
  Zpower :: int
  stateX :: real
  stateY :: real
  stateZ :: real
  xInited :: bool
  yInited :: bool
  zInited :: bool
  instant :: int
  Xindex :: string
  Yindex :: string
  Zindex :: string
  Xdep0 :: int
  Xdep1 :: int
  Ydep0 :: int
  Ydep1 :: int
  Zdep0 :: int
  Zdep1 :: int
  xGate :: "HHGateF2D option"
  yGate :: "HHGateF2D option"
  zGate :: "HHGateF2D option"

text \<open>The constructor \<^verbatim>\<open>HHChannelF2D()\<close>. The members of the base classes, whose
  constructors are not among the sources, start at zero and the modulation at one.\<close>

definition HHChannelF2D_new :: HHChannelF2D where
  "HHChannelF2D_new =
     \<lparr>Vm = 0, conc1 = 0, conc2 = 0, Gbar = 0, Ek = 0, Gk = 0, Ik = 0, modulation = 1,
      g_acc = 0, Xpower = 0, Ypower = 0, Zpower = 0, stateX = 0, stateY = 0, stateZ = 0,
      xInited = False, yInited = False, zInited = False, instant = 0,
      Xindex = [], Yindex = [], Zindex = [],
      Xdep0 = - 1, Xdep1 = - 1, Ydep0 = - 1, Ydep1 = - 1, Zdep0 = - 1, Zdep1 = - 1,
      xGate = None, yGate = None, zGate = None\<rparr>"

subsection \<open>Input routing\<close>

definition depValue :: "HHChannelF2D \<Rightarrow> int \<Rightarrow> error + real" where
  "depValue ch dep =
     (if dep = 0 then Inr (Vm ch)
      else if dep = 1 then Inr (conc1 ch)
      else if dep = 2 then Inr (conc2 ch)
      else Inl AssertionFailed)"

text \<open>The static table \<^verbatim>\<open>dep\<close> of \<^verbatim>\<open>dependency\<close>, one map for each dimension.\<close>

definition dep :: "nat \<Rightarrow> (string \<times> int) list" where
  "dep dm =
     (if dm = 0 then
        [(''VOLT_INDEX'', 0), (''C1_INDEX'', 1), (''C2_INDEX'', 2),
         (''VOLT_C1_INDEX'', 0), (''VOLT_C2_INDEX'', 0), (''C1_C2_INDEX'', 1)]
      else
        [(''VOLT_INDEX'', - 1), (''C1_INDEX'', - 1), (''C2_INDEX'', - 1),
         (''VOLT_C1_INDEX'', 1), (''VOLT_C2_INDEX'', 2), (''C1_C2_INDEX'', 2)])"

definition dependency :: "string \<Rightarrow> nat \<Rightarrow> error + int" where
  "dependency index dm =
     (if dm \<ge> 2 then Inl OutOfBounds
      else
        (case map_of (dep dm) index of
           None \<Rightarrow> Inr (- 1)
         | Some d \<Rightarrow>
             if d = 0 then Inr 0
             else if d = 1 then Inr 1
             else if d = 2 then Inr 2
             else Inr (- 1)))"

text \<open>The setters return the channel as the assignments leave it, and the assertion that
  failed after them, if one did.\<close>

definition HHChannelF2D_setXindex :: "HHChannelF2D \<Rightarrow> string \<Rightarrow> HHChannelF2D \<times> error option" where
  "HHChannelF2D_setXindex ch idx =
     (if idx = Xindex ch then (ch, None)
      else
        (case (dependency idx 0, dependency idx 1) of
           (Inr d0, Inr d1) \<Rightarrow>
             let ch1 = ch\<lparr>Xindex := idx, Xdep0 := d0, Xdep1 := d1\<rparr> in
             (ch1, if Xdep0 ch1 \<ge> 0 then None else Some AssertionFailed)
         | _ \<Rightarrow> (ch\<lparr>Xindex := idx\<rparr>, Some OutOfBounds)))"

definition HHChannelF2D_setYindex :: "HHChannelF2D \<Rightarrow> string \<Rightarrow> HHChannelF2D \<times> error option" where
  "HHChannelF2D_setYindex ch idx =
     (if idx = Yindex ch then (ch, None)
      else
        (case (dependency idx 0, dependency idx 1) of
           (Inr d0, Inr d1) \<Rightarrow>
             let ch1 = ch\<lparr>Yindex := idx, Ydep0 := d0, Ydep1 := d1\<rparr> in
             (ch1, if Ydep0 ch1 \<ge> 0 then None else Some AssertionFailed)
         | _ \<Rightarrow> (ch\<lparr>Yindex := idx\<rparr>, Some OutOfBounds)))"

definition HHChannelF2D_setZindex :: "HHChannelF2D \<Rightarrow> string \<Rightarrow> HHChannelF2D \<times> error option" where
  "HHChannelF2D_setZindex ch idx =
     (if idx = Zindex ch then (ch, None)
      else
        (case (dependency idx 0, dependency idx 1) of
           (Inr d0, Inr d1) \<Rightarrow>
             let ch1 = ch\<lparr>Zindex := idx, Zdep0 := d0, Zdep1 := d1\<rparr> in
             (ch1, if Zdep0 ch1 \<ge> 0 then None else Some AssertionFailed)
         | _ \<Rightarrow> (ch\<lparr>Zindex := idx\<rparr>, Some OutOfBounds)))"

text \<open>The fixed policy table of the specification, with the codes the channel stores:
  \<open>VOLT\<close> is 0, \<open>C1\<close> is 1, \<open>C2\<close> is 2 and \<open>NONE\<close> is -1.\<close>

datatype input = VOLT | C1 | C2 | NONE

definition input_code :: "input \<Rightarrow> int" where
  "input_code d = (case d of VOLT \<Rightarrow> 0 | C1 \<Rightarrow> 1 | C2 \<Rightarrow> 2 | NONE \<Rightarrow> - 1)"

definition policy :: "string \<Rightarrow> (input \<times> input) option" where
  "policy s =
     (if s = ''VOLT_INDEX'' then Some (VOLT, NONE)
      else if s = ''C1_INDEX'' then Some (C1, NONE)
      else if s = ''C2_INDEX'' then Some (C2, NONE)
      else if s = ''VOLT_C1_INDEX'' then Some (VOLT, C1)
      else if s = ''VOLT_C2_INDEX'' then Some (VOLT, C2)
      else if s = ''C1_C2_INDEX'' then Some (C1, C2)
      else None)"

text \<open>The bindings a channel stores for an index string, recognised or not.\<close>

definition stored_binding :: "string \<Rightarrow> int \<times> int" where
  "stored_binding s =
     (case policy s of
        Some (d0, d1) \<Rightarrow> (input_code d0, input_code d1)
      | None \<Rightarrow> (- 1, - 1))"

text \<open>The routing state of a channel is consistent when the stored bindings are those of
  the stored index strings, as they are in a new channel and after every setter.\<close>

definition routing_consistent :: "HHChannelF2D \<Rightarrow> bool" where
  "routing_consistent ch \<longleftrightarrow>
     (Xdep0 ch, Xdep1 ch) = stored_binding (Xindex ch) \<and>
     (Ydep0 ch, Ydep1 ch) = stored_binding (Yindex ch) \<and>
     (Zdep0 ch, Zdep1 ch) = stored_binding (Zindex ch)"

subsection \<open>What the base classes supply\<close>

text \<open>Modelled from the spec: \<^verbatim>\<open>HHChannelBase::integrate\<close> is declared in
  \<^verbatim>\<open>HHChannelBase.h\<close>, which is not among the sources. The specification gives the
  update \<open>g_new = (g * (2/dt - B) + 2 * A) / (2/dt + B)\<close>.\<close>

definition integrate :: "real \<Rightarrow> real \<Rightarrow> real \<Rightarrow> real \<Rightarrow> real" where
  "integrate state dt A B = (state * (2 / dt - B) + 2 * A) / (2 / dt + B)"

text \<open>Modelled from the spec: the power functions \<^verbatim>\<open>takeXpower_\<close>, \<^verbatim>\<open>takeYpower_\<close>,
  \<^verbatim>\<open>takeZpower_\<close> are members of \<^verbatim>\<open>HHChannelBase\<close>. The specification has the gate
  state raised to the integer power of the gate.\<close>

definition takePower :: "real \<Rightarrow> int \<Rightarrow> real" where
  "takePower x p = x ^ nat p"

text \<open>Modelled from the spec: the masks \<^verbatim>\<open>INSTANT_X\<close>, \<^verbatim>\<open>INSTANT_Y\<close>, \<^verbatim>\<open>INSTANT_Z\<close> are
  defined in \<^verbatim>\<open>HHChannelBase.h\<close>. Each gate has a bit of its own in the bitmask.\<close>

definition INSTANT_X :: int where "INSTANT_X = 1"
definition INSTANT_Y :: int where "INSTANT_Y = 2"
definition INSTANT_Z :: int where "INSTANT_Z = 4"

definition instant_bit :: "HHChannelF2D \<Rightarrow> int \<Rightarrow> bool" where
  "instant_bit ch msk \<longleftrightarrow> and (instant ch) msk \<noteq> 0"

text \<open>Modelled from the spec: \<^verbatim>\<open>ChanBase::setGk\<close>, \<^verbatim>\<open>updateIk\<close> and the senders of the
  outgoing messages are members of \<^verbatim>\<open>ChanBase\<close>. The specification has
  \<open>Ik = (Ek - Vm) * Gk\<close> and the messages \<open>channelOut (Gk, Ek)\<close> and \<open>IkOut (Ik)\<close>.\<close>

definition setGk :: "HHChannelF2D \<Rightarrow> real \<Rightarrow> HHChannelF2D" where
  "setGk ch x = ch\<lparr>Gk := x\<rparr>"

definition updateIk :: "HHChannelF2D \<Rightarrow> HHChannelF2D" where
  "updateIk ch = ch\<lparr>Ik := (Ek ch - Vm ch) * Gk ch\<rparr>"

definition sendMsgs :: "HHChannelF2D \<Rightarrow> event list" where
  "sendMsgs ch = [ChannelOut (Gk ch) (Ek ch), IkOut (Ik ch)]"

subsection \<open>Process and reinit\<close>

text \<open>\<^verbatim>\<open>gate->lookupBoth(depValue(dep0), depValue(dep1), &A, &B)\<close> through a gate pointer.\<close>

definition gate_query ::
  "HHChannelF2D \<Rightarrow> HHGateF2D option \<Rightarrow> int \<Rightarrow> int
     \<Rightarrow> error + ((real \<times> real) \<times> HHGateF2D \<times> event list)" where
  "gate_query ch gate dep0 dep1 =
     (case depValue ch dep0 of
        Inl e \<Rightarrow> Inl e
      | Inr d0 \<Rightarrow>
          (case depValue ch dep1 of
             Inl e \<Rightarrow> Inl e
           | Inr d1 \<Rightarrow>
               (case gate of
                  None \<Rightarrow> Inl NullGate
                | Some gt \<Rightarrow> Inr (HHGateF2D_lookupBoth gt d0 d1))))"

definition vProcess_X :: "real \<Rightarrow> HHChannelF2D \<Rightarrow> error + (HHChannelF2D \<times> event list)" where
  "vProcess_X dt ch =
     (if Xpower ch > 0 then
        (case gate_query ch (xGate ch) (Xdep0 ch) (Xdep1 ch) of
           Inl e \<Rightarrow> Inl e
         | Inr ((A, B), gt, w) \<Rightarrow>
             let x = (if instant_bit ch INSTANT_X then A / B
                      else integrate (stateX ch) dt A B)
             in Inr (ch\<lparr>xGate := Some gt, stateX := x,
                        g_acc := g_acc ch * takePower x (Xpower ch)\<rparr>, w))
      else Inr (ch, []))"

definition vProcess_Y :: "real \<Rightarrow> HHChannelF2D \<Rightarrow> error + (HHChannelF2D \<times> event list)" where
  "vProcess_Y dt ch =
     (if Ypower ch > 0 then
        (case gate_query ch (yGate ch) (Ydep0 ch) (Ydep1 ch) of
           Inl e \<Rightarrow> Inl e
         | Inr ((A, B), gt, w) \<Rightarrow>
             let y = (if instant_bit ch INSTANT_Y then A / B
                      else integrate (stateY ch) dt A B)
             in Inr (ch\<lparr>yGate := Some gt, stateY := y,
                        g_acc := g_acc ch * takePower y (Ypower ch)\<rparr>, w))
      else Inr (ch, []))"

definition vProcess_Z :: "real \<Rightarrow> HHChannelF2D \<Rightarrow> error + (HHChannelF2D \<times> event list)" where
  "vProcess_Z dt ch =
     (if Zpower ch > 0 then
        (case gate_query ch (zGate ch) (Zdep0 ch) (Zdep1 ch) of
           Inl e \<Rightarrow> Inl e
         | Inr ((A, B), gt, w) \<Rightarrow>
             let z = (if instant_bit ch INSTANT_Z then A / B
                      else integrate (stateZ ch) dt A B)
             in Inr (ch\<lparr>zGate := Some gt, stateZ := z,
                        g_acc := g_acc ch * takePower z (Zpower ch)\<rparr>, w))
      else Inr (ch, []))"

definition HHChannelF2D_vProcess ::
  "HHChannelF2D \<Rightarrow> real \<Rightarrow> error + (HHChannelF2D \<times> event list)" where
  "HHChannelF2D_vProcess ch0 dt =
     (case vProcess_X dt (ch0\<lparr>g_acc := g_acc ch0 + Gbar ch0\<rparr>) of
        Inl e \<Rightarrow> Inl e
      | Inr (ch1, w1) \<Rightarrow>
          (case vProcess_Y dt ch1 of
             Inl e \<Rightarrow> Inl e
           | Inr (ch2, w2) \<Rightarrow>
               (case vProcess_Z dt ch2 of
                  Inl e \<Rightarrow> Inl e
                | Inr (ch3, w3) \<Rightarrow>
                    let ch4 = updateIk (setGk ch3 (g_acc ch3 * modulation ch3)) in
                    Inr (ch4\<lparr>g_acc := 0\<rparr>, w1 @ w2 @ w3 @ sendMsgs ch4))))"

text \<open>The blocks of \<^verbatim>\<open>vReinit\<close> also say whether they returned from the function.\<close>

definition vReinit_X :: "HHChannelF2D \<Rightarrow> error + (bool \<times> HHChannelF2D \<times> event list)" where
  "vReinit_X ch =
     (if Xpower ch > 0 then
        (case gate_query ch (xGate ch) (Xdep0 ch) (Xdep1 ch) of
           Inl e \<Rightarrow> Inl e
         | Inr ((A, B), gt, w) \<Rightarrow>
             if B < EPSILON
             then Inr (True, ch\<lparr>xGate := Some gt\<rparr>,
                       w @ [Warning ''B_ value is ~0. Check X table''])
             else
               let x = (if \<not> xInited ch then A / B else stateX ch) in
               Inr (False, ch\<lparr>xGate := Some gt, stateX := x,
                              g_acc := g_acc ch * takePower x (Xpower ch)\<rparr>, w))
      else Inr (False, ch, []))"

definition vReinit_Y :: "HHChannelF2D \<Rightarrow> error + (bool \<times> HHChannelF2D \<times> event list)" where
  "vReinit_Y ch =
     (if Ypower ch > 0 then
        (case gate_query ch (yGate ch) (Ydep0 ch) (Ydep1 ch) of
           Inl e \<Rightarrow> Inl e
         | Inr ((A, B), gt, w) \<Rightarrow>
             if B < EPSILON
             then Inr (True, ch\<lparr>yGate := Some gt\<rparr>,
                       w @ [Warning ''B value is ~0. Check Y table''])
             else
               let y = (if \<not> yInited ch then A / B else stateY ch) in
               Inr (False, ch\<lparr>yGate := Some gt, stateY := y,
                              g_acc := g_acc ch * takePower y (Ypower ch)\<rparr>, w))
      else Inr (False, ch, []))"

definition vReinit_Z :: "HHChannelF2D \<Rightarrow> error + (bool \<times> HHChannelF2D \<times> event list)" where
  "vReinit_Z ch =
     (if Zpower ch > 0 then
        (case gate_query ch (zGate ch) (Zdep0 ch) (Zdep1 ch) of
           Inl e \<Rightarrow> Inl e
         | Inr ((A, B), gt, w) \<Rightarrow>
             if B < EPSILON
             then Inr (True, ch\<lparr>zGate := Some gt\<rparr>,
                       w @ [Warning ''B value is ~0. Check Z table''])
             else
               let z = (if \<not> zInited ch then A / B else stateZ ch) in
               Inr (False, ch\<lparr>zGate := Some gt, stateZ := z,
                              g_acc := g_acc ch * takePower z (Zpower ch)\<rparr>, w))
      else Inr (False, ch, []))"

definition HHChannelF2D_vReinit :: "HHChannelF2D \<Rightarrow> error + (HHChannelF2D \<times> event list)" where
  "HHChannelF2D_vReinit ch0 =
     (case vReinit_X (ch0\<lparr>g_acc := Gbar ch0\<rparr>) of
        Inl e \<Rightarrow> Inl e
      | Inr (True, ch1, w1) \<Rightarrow> Inr (ch1, w1)
      | Inr (False, ch1, w1) \<Rightarrow>
          (case vReinit_Y ch1 of
             Inl e \<Rightarrow> Inl e
           | Inr (True, ch2, w2) \<Rightarrow> Inr (ch2, w1 @ w2)
           | Inr (False, ch2, w2) \<Rightarrow>
               (case vReinit_Z ch2 of
                  Inl e \<Rightarrow> Inl e
                | Inr (True, ch3, w3) \<Rightarrow> Inr (ch3, w1 @ w2 @ w3)
                | Inr (False, ch3, w3) \<Rightarrow>
                    let ch4 = updateIk (setGk ch3 (g_acc ch3 * modulation ch3)) in
                    Inr (ch4\<lparr>g_acc := 0\<rparr>, w1 @ w2 @ w3 @ sendMsgs ch4))))"

subsection \<open>Channels that can be stepped\<close>

text \<open>A gate slot is ready when a positive power comes with a gate and with bindings
  that \<^verbatim>\<open>depValue\<close> accepts.\<close>

definition gate_ready :: "int \<Rightarrow> HHGateF2D option \<Rightarrow> int \<Rightarrow> int \<Rightarrow> bool" where
  "gate_ready p gate d0 d1 \<longleftrightarrow>
     (p > 0 \<longrightarrow> gate \<noteq> None \<and> d0 \<in> {0, 1, 2} \<and> d1 \<in> {0, 1, 2})"

definition channel_ready :: "HHChannelF2D \<Rightarrow> bool" where
  "channel_ready ch \<longleftrightarrow>
     gate_ready (Xpower ch) (xGate ch) (Xdep0 ch) (Xdep1 ch) \<and>
     gate_ready (Ypower ch) (yGate ch) (Ydep0 ch) (Ydep1 ch) \<and>
     gate_ready (Zpower ch) (zGate ch) (Zdep0 ch) (Zdep1 ch)"

text \<open>The pair \<open>(A, B)\<close> that the query of a gate at the current inputs of the channel
  returns.\<close>

definition rates :: "HHChannelF2D \<Rightarrow> HHGateF2D option \<Rightarrow> int \<Rightarrow> int \<Rightarrow> real \<times> real" where
  "rates ch gate d0 d1 =
     (case gate_query ch gate d0 d1 of Inr (ab, gt, w) \<Rightarrow> ab | Inl e \<Rightarrow> (0, 0))"

text \<open>The per-step update of one gate state as the specification words it.\<close>

definition spec_step :: "bool \<Rightarrow> real \<Rightarrow> real \<Rightarrow> real \<times> real \<Rightarrow> real" where
  "spec_step inst dt gs ab =
     (case ab of (A, B) \<Rightarrow>
        if inst then A / B else (gs * (2 / dt - B) + 2 * A) / (2 / dt + B))"

text \<open>A gate stops the reinit when it is active and the \<open>B\<close> it returns is below
  \<^verbatim>\<open>EPSILON\<close>.\<close>

definition small_B :: "HHChannelF2D \<Rightarrow> int \<Rightarrow> HHGateF2D option \<Rightarrow> int \<Rightarrow> int \<Rightarrow> bool" where
  "small_B ch p gate d0 d1 \<longleftrightarrow> p > 0 \<and> snd (rates ch gate d0 d1) < EPSILON"

text \<open>The initial state of a gate as the specification words it: the steady state
  \<open>A / B\<close> unless the caller has seeded the gate.\<close>

definition spec_init :: "bool \<Rightarrow> real \<Rightarrow> real \<times> real \<Rightarrow> real" where
  "spec_init inited gs ab = (case ab of (A, B) \<Rightarrow> if inited then gs else A / B)"

definition bad_X :: "HHChannelF2D \<Rightarrow> bool" where
  "bad_X ch = small_B ch (Xpower ch) (xGate ch) (Xdep0 ch) (Xdep1 ch)"

definition bad_Y :: "HHChannelF2D \<Rightarrow> bool" where
  "bad_Y ch = small_B ch (Ypower ch) (yGate ch) (Ydep0 ch) (Ydep1 ch)"

definition bad_Z :: "HHChannelF2D \<Rightarrow> bool" where
  "bad_Z ch = small_B ch (Zpower ch) (zGate ch) (Zdep0 ch) (Zdep1 ch)"

subsection \<open>Auxiliary notions for the parametric fill\<close>

text \<open>The invariant of the second loop of \<^verbatim>\<open>setupTables\<close> at entry \<open>j\<close>, when the loop
  started at index \<open>i\<close> with the previous entries \<open>pa\<close> and \<open>pb\<close>.\<close>

definition tau_entry_ok :: "real list \<Rightarrow> real list \<Rightarrow> real list \<Rightarrow> real list \<Rightarrow> real \<Rightarrow> real \<Rightarrow> nat \<Rightarrow> nat \<Rightarrow> bool" where
  "tau_entry_ok taus infs A B pa pb i j \<longleftrightarrow>
     (if \<bar>taus ! j\<bar> < SINGULARITY
      then A ! j = (if j = i then pa else A ! (j - 1)) \<and> B ! j = (if j = i then pb else B ! (j - 1))
      else A ! j = infs ! j / taus ! j \<and> B ! j = 1 / taus ! j)"

text \<open>The tau/inf transform as the specification words it: entry \<open>i\<close> is
  \<open>(inf / tau, 1 / tau)\<close>, and where \<open>tau\<close> is zero within \<open>1e-6\<close> it is the entry before it
  (\<open>0\<close> at index \<open>0\<close>).\<close>

definition tau_inf_entry :: "real list \<Rightarrow> real list \<Rightarrow> real list \<Rightarrow> real list \<Rightarrow> nat \<Rightarrow> bool" where
  "tau_inf_entry taus infs A B i \<longleftrightarrow>
     (if \<bar>taus ! i\<bar> < SINGULARITY
      then A ! i = (if i = 0 then 0 else A ! (i - 1)) \<and> B ! i = (if i = 0 then 0 else B ! (i - 1))
      else A ! i = infs ! i / taus ! i \<and> B ! i = 1 / taus ! i)"

text \<open>The curves \<open>tau\<close> and \<open>inf\<close> as the first loop leaves them in the tables.\<close>

definition filled_tau :: "HHGate \<Rightarrow> real list \<Rightarrow> real list" where
  "filled_tau g parms =
     loopA (setupTables_filled (setupTables_resized g parms (nat \<lfloor>parms ! 10\<rfloor>)) parms True
              (nat \<lfloor>parms ! 10\<rfloor>))"

definition filled_inf :: "HHGate \<Rightarrow> real list \<Rightarrow> real list" where
  "filled_inf g parms =
     loopB (setupTables_filled (setupTables_resized g parms (nat \<lfloor>parms ! 10\<rfloor>)) parms True
              (nat \<lfloor>parms ! 10\<rfloor>))"

text \<open>A valid 13-scalar setup: \<open>divs \<ge> 1\<close> with \<open>divs + 1\<close> an \<^verbatim>\<open>unsigned int\<close>, and
  \<open>min < max\<close>.\<close>

definition valid_parms :: "real list \<Rightarrow> bool" where
  "valid_parms parms \<longleftrightarrow>
     length parms = 13 \<and> 1 \<le> parms ! 10 \<and> parms ! 10 < 2 ^ 32 - 1 \<and> parms ! 11 < parms ! 12"

text \<open>The gate that \<^verbatim>\<open>setupTables\<close> leaves when it runs through.\<close>

definition setupTables_result :: "HHGate \<Rightarrow> real list \<Rightarrow> bool \<Rightarrow> HHGate" where
  "setupTables_result g parms doTau =
     (let xdivs = nat \<lfloor>parms ! 10\<rfloor>;
          g1 = setupTables_resized g parms xdivs;
          s1 = setupTables_filled g1 parms doTau xdivs;
          s2 = (if doTau
                then setupTables_tau (xdivs + 1) 0 (s1\<lparr>prevAentry := 0, prevBentry := 0\<rparr>)
                else s1)
      in g1\<lparr>invDx := real xdivs / (parms ! 12 - parms ! 11),
             tableA := loopA s2, tableB := loopB s2, form := 0\<rparr>)"

text \<open>Parametric setup, then a read of \<^verbatim>\<open>alphaParms\<close>.\<close>

definition setup_then_read :: "HHGate \<Rightarrow> nat \<Rightarrow> real list \<Rightarrow> error + real list" where
  "setup_then_read g eid parms =
     (case HHGate_setupAlpha g eid parms of
        Inl e \<Rightarrow> Inl e
      | Inr (g', w) \<Rightarrow> Inr (HHGate_getAlphaParms g'))"

subsection \<open>Auxiliary notion for the range fields\<close>

text \<open>The stored \<open>invDx\<close> of a gate is the one derived from its range and \<open>n\<close>
  divisions.\<close>

definition grid_consistent :: "HHGate \<Rightarrow> nat \<Rightarrow> bool" where
  "grid_consistent g n \<longleftrightarrow>
     xmin g < xmax g \<and> 0 < n \<and> n < 2 ^ 32 \<and> invDx g = real n / (xmax g - xmin g)"

text \<open>Parametric setup, then a read of \<^verbatim>\<open>divs\<close>.\<close>

definition setup_then_getDivs :: "HHGate \<Rightarrow> nat \<Rightarrow> real list \<Rightarrow> error + nat" where
  "setup_then_getDivs g eid parms =
     (case HHGate_setupAlpha g eid parms of
        Inl e \<Rightarrow> Inl e
      | Inr (g', w) \<Rightarrow> Inr (HHGate_getDivs g'))"

section \<open>Example inputs\<close>

text \<open>A direct-table gate over \<open>[0, 1]\<close> with four divisions.\<close>

definition example_gate :: HHGate where
  "example_gate =
     (HHGate_new 1 2)\<lparr>tableA := [0, 10, 20, 30, 40], tableB := [100, 200, 300, 400, 500],
       invDx := 4, lookupByInterpolation := True, isDirectTable := True\<rparr>"

text \<open>The gate that a new gate becomes by setting \<open>divs\<close> to \<open>4\<close>, \<open>max\<close> to \<open>2\<close> and
  then table B alone: the stored \<open>invDx\<close> is still that of the range \<open>[0, 1]\<close>.\<close>

definition stale_gate :: HHGate where
  "stale_gate =
     (HHGate_new 1 2)\<lparr>tableA := [0, 0, 0, 0, 0], tableB := [1, 2, 3, 4, 5],
       xmax := 2, invDx := 4, isDirectTable := True\<rparr>"

text \<open>The gate that a new gate becomes by setting \<open>divs\<close> to \<open>4\<close>, \<open>max\<close> to \<open>2\<close> and the
  two expressions \<open>alpha = v + 1\<close> and \<open>beta = 1\<close>, all through its original, which is element
  \<open>2\<close>; and a parser that knows these two expressions.\<close>

definition expr_gate :: HHGate where
  "expr_gate =
     (HHGate_new 1 2)\<lparr>tableA := [0, 0, 0, 0, 0], tableB := [0, 0, 0, 0, 0],
       xmax := 2, invDx := 4, form := 1, alphaExpr := ''v + 1'', betaExpr := ''1''\<rparr>"

definition example_trim :: "string \<Rightarrow> string" where
  "example_trim s = filter (\<lambda>c. c \<noteq> CHR '' '') s"

definition example_compile :: "string \<Rightarrow> (real \<Rightarrow> real) option" where
  "example_compile s =
     (if s = ''v + 1'' then Some (\<lambda>v. v + 1)
      else if s = ''1'' then Some (\<lambda>v. 1)
      else None)"

text \<open>A two-dimensional gate in alpha/beta form with \<open>alpha (v, c) = v\<close> and
  \<open>beta (v, c) = c\<close>.\<close>

definition example_gate2D :: HHGateF2D where
  "example_gate2D =
     \<lparr>gate_v = 0, gate_conc = 0, alpha_expr = (\<lambda>v c. v), beta_expr = (\<lambda>v c. c),
      tauInf = False\<rparr>"

text \<open>A new channel whose X gate has been bound to voltage and the first
  concentration.\<close>

definition example_channel :: HHChannelF2D where
  "example_channel = fst (HHChannelF2D_setXindex HHChannelF2D_new ''VOLT_C1_INDEX'')"

text \<open>A two-dimensional gate with constant rates, and a channel with an integrated X
  gate and an instant Y gate.\<close>

definition const_gate :: "real \<Rightarrow> real \<Rightarrow> HHGateF2D" where
  "const_gate a b =
     \<lparr>gate_v = 0, gate_conc = 0, alpha_expr = (\<lambda>v c. a), beta_expr = (\<lambda>v c. b),
      tauInf = False\<rparr>"

definition process_channel :: HHChannelF2D where
  "process_channel =
     HHChannelF2D_new\<lparr>Gbar := 1, Xpower := 1, Ypower := 1, instant := 2,
       Xindex := ''VOLT_C1_INDEX'', Yindex := ''VOLT_C2_INDEX'',
       Xdep0 := 0, Xdep1 := 1, Ydep0 := 0, Ydep1 := 2,
       xGate := Some (const_gate 1 1), yGate := Some (const_gate 1 3)\<rparr>"

text \<open>A channel whose X gate returns \<open>B = 0\<close> and whose Y gate returns
  \<open>(A, B) = (1, 2)\<close>.\<close>

definition reinit_channel :: HHChannelF2D where
  "reinit_channel =
     HHChannelF2D_new\<lparr>Gbar := 1, Xpower := 1, Ypower := 1,
       Xindex := ''VOLT_C1_INDEX'', Yindex := ''VOLT_C2_INDEX'',
       Xdep0 := 0, Xdep1 := 1, Ydep0 := 0, Ydep1 := 2,
       xGate := Some (const_gate 0 0), yGate := Some (const_gate 1 1)\<rparr>"

text \<open>Parameters of a tau/inf setup with two divisions over \<open>[0, 1]\<close>, and the
  parameters of the m gate of the squid sodium channel.\<close>

definition tau_parms :: "real list" where
  "tau_parms = [1, 0, 1, 0, 1, 1, 0, 1, 0, 1, 2, 0, 1]"

definition squid_parms :: "real list" where
  "squid_parms =
     [2500, - 100, - 1, - (25 / 1000), - (10 / 1000), 4000, 0, 0, 0, 18 / 1000,
      3000, - (110 / 1000), 50 / 1000]"

section \<open>Properties of the lookup\<close>

text \<open>On a gate without parameters whose tables are not direct, \<^verbatim>\<open>setDivs\<close> resizes the
  tables and stores \<open>invDx\<close>, and \<^verbatim>\<open>setMax\<close> stores the new end of the range and leaves
  \<open>invDx\<close> as it was: the branch of \<^verbatim>\<open>setMax\<close> for direct tables and both branches of
  \<^verbatim>\<open>setDivs\<close> assign \<^verbatim>\<open>invDx_\<close>, the other branch of \<^verbatim>\<open>setMax\<close> relies on
  \<^verbatim>\<open>updateTables\<close>, which returns at once on a gate without parameters.\<close>

lemma stale_gate_reached:
  "HHGate_setDivs (HHGate_new 1 2) 2 4
     = Inr ((HHGate_new 1 2)\<lparr>tableA := [0, 0, 0, 0, 0], tableB := [0, 0, 0, 0, 0],
              invDx := 4\<rparr>, [])"
  "HHGate_setMax ((HHGate_new 1 2)\<lparr>tableA := [0, 0, 0, 0, 0], tableB := [0, 0, 0, 0, 0],
              invDx := 4\<rparr>) 2 2
     = Inr ((HHGate_new 1 2)\<lparr>tableA := [0, 0, 0, 0, 0], tableB := [0, 0, 0, 0, 0],
              invDx := 4, xmax := 2\<rparr>, [])"
  "HHGate_setTableB ((HHGate_new 1 2)\<lparr>tableA := [0, 0, 0, 0, 0], tableB := [0, 0, 0, 0, 0],
              invDx := 4, xmax := 2\<rparr>) 2 [1, 2, 3, 4, 5]
     = (stale_gate, [])"
proof -
  have s: "uint_succ 4 = 5"
    by (simp add: uint_succ_def)
  have "replicate 4 (0 :: real) = [0, 0, 0, 0]"
    by (simp add: eval_nat_numeral)
  then have r: "resize 5 [0] = [0, 0, 0, 0, 0]"
    by (simp add: resize_def)
  show "HHGate_setDivs (HHGate_new 1 2) 2 4
     = Inr ((HHGate_new 1 2)\<lparr>tableA := [0, 0, 0, 0, 0], tableB := [0, 0, 0, 0, 0],
              invDx := 4\<rparr>, [])"
    by (simp add: HHGate_setDivs_def checkOriginal_def HHGate_new_def HHGate_updateTables_def
        s r)
  show "HHGate_setMax ((HHGate_new 1 2)\<lparr>tableA := [0, 0, 0, 0, 0], tableB := [0, 0, 0, 0, 0],
              invDx := 4\<rparr>) 2 2
     = Inr ((HHGate_new 1 2)\<lparr>tableA := [0, 0, 0, 0, 0], tableB := [0, 0, 0, 0, 0],
              invDx := 4, xmax := 2\<rparr>, [])"
    by (simp add: HHGate_setMax_def checkOriginal_def HHGate_new_def HHGate_updateTables_def
        size_minus_1_def)
  show "HHGate_setTableB ((HHGate_new 1 2)\<lparr>tableA := [0, 0, 0, 0, 0],
              tableB := [0, 0, 0, 0, 0], invDx := 4, xmax := 2\<rparr>) 2 [1, 2, 3, 4, 5]
     = (stale_gate, [])"
    by (simp add: HHGate_setTableB_def checkOriginal_def HHGate_new_def stale_gate_def)
qed

text \<open>
  \<^bold>\<open>C1.\<close> The specification has the lookup of a table-backed gate with valid tables
  (both of \<open>divs + 1\<close> entries, \<open>divs \<ge> 1\<close>, \<open>min < max\<close>) return the entries at
  \<open>i = floor ((v - min) * invDx)\<close>, or their interpolation with the entries at \<open>i + 1\<close>,
  for every \<open>v\<close> between \<open>min\<close> and \<open>max\<close>. On the code it does not. A new gate whose
  original sets \<open>divs\<close> to \<open>4\<close>, \<open>max\<close> to \<open>2\<close> and table B to five entries has valid tables
  over \<open>[0, 2]\<close> and the stored \<open>invDx = 4\<close> of the range \<open>[0, 1]\<close>. Its lookup at \<open>v = 3/2\<close>
  computes the index \<open>6\<close> and fails the assertion on the index, where the rule has
  \<open>i = 3\<close> and the entries \<open>(0, 4)\<close>. With interpolation switched on, its lookup at
  \<open>v = 1\<close> computes the index \<open>4\<close>, passes the assertion and reads the entries at \<open>5\<close>,
  past the end of the tables, where the rule has \<open>i = 2\<close> and the entries \<open>(0, 3)\<close>. All
  numbers of this run are exact in \<^verbatim>\<open>double\<close>.
\<close>

theorem lookup_fails_on_stale_invDx:
  "HHGate_setTableB
     (fst (projr (HHGate_setMax (fst (projr (HHGate_setDivs (HHGate_new 1 2) 2 4))) 2 2)))
     2 [1, 2, 3, 4, 5] = (stale_gate, [])
   \<and> length (tableA stale_gate) = HHGate_getDivs stale_gate + 1
   \<and> length (tableB stale_gate) = HHGate_getDivs stale_gate + 1
   \<and> 1 \<le> HHGate_getDivs stale_gate
   \<and> xmin stale_gate < xmax stale_gate
   \<and> HHGate_lookupBoth stale_gate (3 / 2) = Inl AssertionFailed
   \<and> spec_lookup stale_gate (3 / 2) = (0, 4)
   \<and> HHGate_lookupBoth (fst (HHGate_setUseInterpolation stale_gate 2 True)) 1
       = Inl OutOfBounds
   \<and> spec_lookup (fst (HHGate_setUseInterpolation stale_gate 2 True)) 1 = (0, 3)"
proof -
  have reached: "HHGate_setTableB
     (fst (projr (HHGate_setMax (fst (projr (HHGate_setDivs (HHGate_new 1 2) 2 4))) 2 2)))
     2 [1, 2, 3, 4, 5] = (stale_gate, [])"
    by (simp only: stale_gate_reached sum.sel fst_conv)
  have sizes: "length (tableA stale_gate) = HHGate_getDivs stale_gate + 1"
    "length (tableB stale_gate) = HHGate_getDivs stale_gate + 1"
    "1 \<le> HHGate_getDivs stale_gate" "xmin stale_gate < xmax stale_gate"
    by (simp_all add: stale_gate_def HHGate_new_def HHGate_getDivs_def size_minus_1_def)
  have inv: "spec_invDx stale_gate = 2"
    "spec_invDx (stale_gate\<lparr>lookupByInterpolation := True\<rparr>) = 2"
    by (simp_all add: spec_invDx_def stale_gate_def HHGate_new_def HHGate_getDivs_def
        size_minus_1_def)
  have code1: "HHGate_lookupBoth stale_gate (3 / 2) = Inl AssertionFailed"
    by (simp add: stale_gate_def HHGate_new_def HHGate_lookupBoth_def to_uint_def)
  have spec1: "spec_lookup stale_gate (3 / 2) = (0, 4)"
    unfolding spec_lookup_def inv by (simp add: stale_gate_def HHGate_new_def)
  have on: "fst (HHGate_setUseInterpolation stale_gate 2 True)
      = stale_gate\<lparr>lookupByInterpolation := True\<rparr>"
    by (simp add: HHGate_setUseInterpolation_def checkOriginal_def stale_gate_def
        HHGate_new_def)
  have code2: "HHGate_lookupBoth (stale_gate\<lparr>lookupByInterpolation := True\<rparr>) 1
      = Inl OutOfBounds"
    by (simp add: stale_gate_def HHGate_new_def HHGate_lookupBoth_def to_uint_def vec_at_def)
  have spec2: "spec_lookup (stale_gate\<lparr>lookupByInterpolation := True\<rparr>) 1 = (0, 3)"
    unfolding spec_lookup_def inv by (simp add: stale_gate_def HHGate_new_def)
  from reached sizes code1 spec1 code2 spec2 show ?thesis
    unfolding on by simp
qed

section \<open>Properties of the two-dimensional gate\<close>

text \<open>A lookup of B with two or more inputs evaluates the expressions at the inputs the
  gate has stored, which are those of the last lookup of A, and stores nothing.\<close>

lemma lookupB_reads_stored_inputs:
  "2 \<le> length v \<Longrightarrow>
     fst (HHGateF2D_lookupB g v) = spec_B g (gate_v g) (gate_conc g)
     \<and> fst (snd (HHGateF2D_lookupB g v)) = g"
  by (simp add: HHGateF2D_lookupB_def spec_B_def alpha_value_def beta_value_def Let_def)

text \<open>
  \<^bold>\<open>C4.\<close> The specification has a lookup of B return \<open>alpha (v, c) + beta (v, c)\<close> (or
  \<open>1 / tau (v, c)\<close>) at the inputs of that call, whatever an earlier lookup used. On the
  code it does not: \<^verbatim>\<open>lookupB\<close> never assigns \<^verbatim>\<open>v_\<close> and \<^verbatim>\<open>conc_\<close>, as \<^verbatim>\<open>lookupA\<close> does. With
  \<open>alpha = v\<close> and \<open>beta = c\<close>, after a lookup of A at \<open>(1, 2)\<close> the lookup of B at
  \<open>(3, 4)\<close> returns \<open>3\<close>, the value at \<open>(1, 2)\<close>, where the specification has \<open>7\<close>.
\<close>

theorem lookupB_stale_inputs:
  "fst (HHGateF2D_lookupB (fst (snd (HHGateF2D_lookupA example_gate2D [1, 2]))) [3, 4]) = 3
   \<and> spec_B example_gate2D 3 4 = 7"
  by (simp add: HHGateF2D_lookupA_def HHGateF2D_lookupB_def example_gate2D_def spec_B_def
      alpha_value_def beta_value_def)

text \<open>With fewer than two inputs both lookups return \<open>0.0\<close> and leave the gate, its
  stored inputs included, as it was, whatever its expressions are. With two or more
  inputs \<^verbatim>\<open>lookupA\<close> stores the first two and returns the value of its expression at
  them.\<close>

lemma lookup_short_input:
  "length v < 2 \<Longrightarrow>
     (\<exists>w. HHGateF2D_lookupA g v = (0, g, w)) \<and> (\<exists>w. HHGateF2D_lookupB g v = (0, g, w))"
  by (simp add: HHGateF2D_lookupA_def HHGateF2D_lookupB_def)

lemma lookupA_first_two:
  "2 \<le> length v \<Longrightarrow>
     fst (HHGateF2D_lookupA g v)
       = (if tauInf g then beta_expr g (v ! 0) (v ! 1) / alpha_expr g (v ! 0) (v ! 1)
          else alpha_expr g (v ! 0) (v ! 1))
     \<and> fst (snd (HHGateF2D_lookupA g v)) = g\<lparr>gate_v := v ! 0, gate_conc := v ! 1\<rparr>"
  by (simp add: HHGateF2D_lookupA_def alpha_value_def beta_value_def Let_def)

text \<open>
  \<^bold>\<open>C10.\<close> The claim has both lookups, called with more than two inputs, use the first
  two. \<^verbatim>\<open>lookupA\<close> does. \<^verbatim>\<open>lookupB\<close> prints that it uses the first two and uses none: it
  never assigns \<^verbatim>\<open>v_\<close> and \<^verbatim>\<open>conc_\<close>, so it evaluates the expressions at the inputs that
  the gate has stored. With \<open>alpha = v\<close> and \<open>beta = c\<close>, after a lookup of A at \<open>(1, 2)\<close>
  the lookup of B with the inputs \<open>[30, 40, 50]\<close> returns \<open>3\<close>, the value at \<open>(1, 2)\<close>, where
  the first two inputs give \<open>70\<close>; the lookup of A with the same inputs returns \<open>30\<close>, the
  value at the first two.
\<close>

theorem lookupB_ignores_first_two:
  "fst (HHGateF2D_lookupB (fst (snd (HHGateF2D_lookupA example_gate2D [1, 2]))) [30, 40, 50])
     = 3
   \<and> spec_B example_gate2D 30 40 = 70
   \<and> fst (HHGateF2D_lookupA (fst (snd (HHGateF2D_lookupA example_gate2D [1, 2])))
        [30, 40, 50]) = 30"
  by (simp add: HHGateF2D_lookupA_def HHGateF2D_lookupB_def example_gate2D_def spec_B_def
      alpha_value_def beta_value_def)

section \<open>Properties of the input routing\<close>

text \<open>\<^verbatim>\<open>dependency\<close> returns the code of the policy table for a recognised string and
  \<open>-1\<close> in both positions for any other.\<close>

lemma dependency_stored_binding:
  "dependency s 0 = Inr (fst (stored_binding s))"
  "dependency s (Suc 0) = Inr (snd (stored_binding s))"
  by (simp_all add: dependency_def dep_def stored_binding_def policy_def input_code_def)

lemma stored_binding_recognised:
  "policy s = Some (d0, d1) \<Longrightarrow> stored_binding s = (input_code d0, input_code d1) \<and> 0 \<le> input_code d0"
  by (auto simp add: stored_binding_def policy_def input_code_def split: if_splits)

lemma stored_binding_unrecognised:
  "policy s = None \<Longrightarrow> stored_binding s = (- 1, - 1)"
  by (simp add: stored_binding_def)

lemma setXindex_eq:
  "HHChannelF2D_setXindex ch s =
     (if s = Xindex ch then (ch, None)
      else (ch\<lparr>Xindex := s, Xdep0 := fst (stored_binding s), Xdep1 := snd (stored_binding s)\<rparr>,
            if 0 \<le> fst (stored_binding s) then None else Some AssertionFailed))"
  by (simp add: HHChannelF2D_setXindex_def dependency_stored_binding Let_def)

lemma setYindex_eq:
  "HHChannelF2D_setYindex ch s =
     (if s = Yindex ch then (ch, None)
      else (ch\<lparr>Yindex := s, Ydep0 := fst (stored_binding s), Ydep1 := snd (stored_binding s)\<rparr>,
            if 0 \<le> fst (stored_binding s) then None else Some AssertionFailed))"
  by (simp add: HHChannelF2D_setYindex_def dependency_stored_binding Let_def)

lemma setZindex_eq:
  "HHChannelF2D_setZindex ch s =
     (if s = Zindex ch then (ch, None)
      else (ch\<lparr>Zindex := s, Zdep0 := fst (stored_binding s), Zdep1 := snd (stored_binding s)\<rparr>,
            if 0 \<le> fst (stored_binding s) then None else Some AssertionFailed))"
  by (simp add: HHChannelF2D_setZindex_def dependency_stored_binding Let_def)


lemma setXindex_recognised:
  assumes "routing_consistent ch" and "policy s = Some (d0, d1)"
  shows "(case HHChannelF2D_setXindex ch s of
            (ch', err) \<Rightarrow> err = None \<and> Xindex ch' = s \<and> routing_consistent ch'
              \<and> Xdep0 ch' = input_code d0 \<and> Xdep1 ch' = input_code d1)"
proof (cases "s = Xindex ch")
  case True
  with assms stored_binding_recognised [OF assms(2)] show ?thesis
    by (auto simp add: setXindex_eq routing_consistent_def)
next
  case False
  with assms stored_binding_recognised [OF assms(2)] show ?thesis
    by (simp add: setXindex_eq routing_consistent_def)
qed

lemma setYindex_recognised:
  assumes "routing_consistent ch" and "policy s = Some (d0, d1)"
  shows "(case HHChannelF2D_setYindex ch s of
            (ch', err) \<Rightarrow> err = None \<and> Yindex ch' = s \<and> routing_consistent ch'
              \<and> Ydep0 ch' = input_code d0 \<and> Ydep1 ch' = input_code d1)"
proof (cases "s = Yindex ch")
  case True
  with assms stored_binding_recognised [OF assms(2)] show ?thesis
    by (auto simp add: setYindex_eq routing_consistent_def)
next
  case False
  with assms stored_binding_recognised [OF assms(2)] show ?thesis
    by (simp add: setYindex_eq routing_consistent_def)
qed

lemma setZindex_recognised:
  assumes "routing_consistent ch" and "policy s = Some (d0, d1)"
  shows "(case HHChannelF2D_setZindex ch s of
            (ch', err) \<Rightarrow> err = None \<and> Zindex ch' = s \<and> routing_consistent ch'
              \<and> Zdep0 ch' = input_code d0 \<and> Zdep1 ch' = input_code d1)"
proof (cases "s = Zindex ch")
  case True
  with assms stored_binding_recognised [OF assms(2)] show ?thesis
    by (auto simp add: setZindex_eq routing_consistent_def)
next
  case False
  with assms stored_binding_recognised [OF assms(2)] show ?thesis
    by (simp add: setZindex_eq routing_consistent_def)
qed

lemma example_channel_eq:
  "example_channel = HHChannelF2D_new\<lparr>Xindex := ''VOLT_C1_INDEX'', Xdep0 := 0, Xdep1 := 1\<rparr>"
  by (simp add: example_channel_def setXindex_eq HHChannelF2D_new_def stored_binding_def
      policy_def input_code_def)

text \<open>
  That an unrecognised string leaves the routing state unchanged does not hold: on a
  channel whose X gate is bound by \<open>VOLT_C1_INDEX\<close>, setting \<open>Xindex\<close> to \<open>FOO\<close> stores
  the string and overwrites both bindings with \<open>-1\<close> before the assertion is reached.
\<close>

theorem setXindex_unrecognised_counterexample:
  "policy ''FOO'' = None
   \<and> (Xindex example_channel, Xdep0 example_channel, Xdep1 example_channel)
       = (''VOLT_C1_INDEX'', 0, 1)
   \<and> HHChannelF2D_setXindex example_channel ''FOO''
       = (example_channel\<lparr>Xindex := ''FOO'', Xdep0 := - 1, Xdep1 := - 1\<rparr>,
          Some AssertionFailed)
   \<and> example_channel\<lparr>Xindex := ''FOO'', Xdep0 := - 1, Xdep1 := - 1\<rparr> \<noteq> example_channel"
proof -
  have p: "policy ''FOO'' = None"
    by (simp add: policy_def)
  have ne: "example_channel\<lparr>Xindex := ''FOO'', Xdep0 := - 1, Xdep1 := - 1\<rparr> \<noteq> example_channel"
  proof
    assume "example_channel\<lparr>Xindex := ''FOO'', Xdep0 := - 1, Xdep1 := - 1\<rparr> = example_channel"
    then have "Xdep0 (example_channel\<lparr>Xindex := ''FOO'', Xdep0 := - 1, Xdep1 := - 1\<rparr>)
                 = Xdep0 example_channel"
      by (rule arg_cong)
    then show False by (simp add: example_channel_eq)
  qed
  have f: "(Xindex example_channel, Xdep0 example_channel, Xdep1 example_channel)
       = (''VOLT_C1_INDEX'', 0, 1)"
    by (simp add: example_channel_eq)
  have s: "HHChannelF2D_setXindex example_channel ''FOO''
       = (example_channel\<lparr>Xindex := ''FOO'', Xdep0 := - 1, Xdep1 := - 1\<rparr>,
          Some AssertionFailed)"
    using f by (simp add: setXindex_eq stored_binding_def p)
  show ?thesis
    using p ne f s by blast
qed

text \<open>
  \<^bold>\<open>C8\<close> (amended). On a channel whose routing state is consistent, setting the index of
  a gate to one of the six recognised strings installs the pair of the policy table,
  fails no assertion and keeps the routing state consistent. Setting it to an
  unrecognised string other than the stored one stores the string, sets both bindings to
  \<open>-1\<close> and then fails the assertion \<^verbatim>\<open>dep0 >= 0\<close>. Setting it to the stored string
  returns at once.
\<close>

theorem setindex_policy:
  assumes "routing_consistent ch"
  shows "(policy s = Some (d0, d1) \<longrightarrow>
            (case HHChannelF2D_setXindex ch s of
               (ch', err) \<Rightarrow> err = None \<and> Xindex ch' = s \<and> routing_consistent ch'
                 \<and> Xdep0 ch' = input_code d0 \<and> Xdep1 ch' = input_code d1) \<and>
            (case HHChannelF2D_setYindex ch s of
               (ch', err) \<Rightarrow> err = None \<and> Yindex ch' = s \<and> routing_consistent ch'
                 \<and> Ydep0 ch' = input_code d0 \<and> Ydep1 ch' = input_code d1) \<and>
            (case HHChannelF2D_setZindex ch s of
               (ch', err) \<Rightarrow> err = None \<and> Zindex ch' = s \<and> routing_consistent ch'
                 \<and> Zdep0 ch' = input_code d0 \<and> Zdep1 ch' = input_code d1))
       \<and> (policy s = None \<and> s \<noteq> Xindex ch \<longrightarrow>
            HHChannelF2D_setXindex ch s
              = (ch\<lparr>Xindex := s, Xdep0 := - 1, Xdep1 := - 1\<rparr>, Some AssertionFailed))
       \<and> (policy s = None \<and> s \<noteq> Yindex ch \<longrightarrow>
            HHChannelF2D_setYindex ch s
              = (ch\<lparr>Yindex := s, Ydep0 := - 1, Ydep1 := - 1\<rparr>, Some AssertionFailed))
       \<and> (policy s = None \<and> s \<noteq> Zindex ch \<longrightarrow>
            HHChannelF2D_setZindex ch s
              = (ch\<lparr>Zindex := s, Zdep0 := - 1, Zdep1 := - 1\<rparr>, Some AssertionFailed))
       \<and> (s = Xindex ch \<longrightarrow> HHChannelF2D_setXindex ch s = (ch, None))
       \<and> (s = Yindex ch \<longrightarrow> HHChannelF2D_setYindex ch s = (ch, None))
       \<and> (s = Zindex ch \<longrightarrow> HHChannelF2D_setZindex ch s = (ch, None))"
proof (intro conjI impI)
  assume p: "policy s = Some (d0, d1)"
  show "(case HHChannelF2D_setXindex ch s of
               (ch', err) \<Rightarrow> err = None \<and> Xindex ch' = s \<and> routing_consistent ch'
                 \<and> Xdep0 ch' = input_code d0 \<and> Xdep1 ch' = input_code d1)"
    by (rule setXindex_recognised [OF assms p])
  show "(case HHChannelF2D_setYindex ch s of
               (ch', err) \<Rightarrow> err = None \<and> Yindex ch' = s \<and> routing_consistent ch'
                 \<and> Ydep0 ch' = input_code d0 \<and> Ydep1 ch' = input_code d1)"
    by (rule setYindex_recognised [OF assms p])
  show "(case HHChannelF2D_setZindex ch s of
               (ch', err) \<Rightarrow> err = None \<and> Zindex ch' = s \<and> routing_consistent ch'
                 \<and> Zdep0 ch' = input_code d0 \<and> Zdep1 ch' = input_code d1)"
    by (rule setZindex_recognised [OF assms p])
next
  assume "policy s = None \<and> s \<noteq> Xindex ch"
  then show "HHChannelF2D_setXindex ch s
              = (ch\<lparr>Xindex := s, Xdep0 := - 1, Xdep1 := - 1\<rparr>, Some AssertionFailed)"
    by (simp add: setXindex_eq stored_binding_unrecognised)
next
  assume "policy s = None \<and> s \<noteq> Yindex ch"
  then show "HHChannelF2D_setYindex ch s
              = (ch\<lparr>Yindex := s, Ydep0 := - 1, Ydep1 := - 1\<rparr>, Some AssertionFailed)"
    by (simp add: setYindex_eq stored_binding_unrecognised)
next
  assume "policy s = None \<and> s \<noteq> Zindex ch"
  then show "HHChannelF2D_setZindex ch s
              = (ch\<lparr>Zindex := s, Zdep0 := - 1, Zdep1 := - 1\<rparr>, Some AssertionFailed)"
    by (simp add: setZindex_eq stored_binding_unrecognised)
next
  assume "s = Xindex ch"
  then show "HHChannelF2D_setXindex ch s = (ch, None)" by (simp add: setXindex_eq)
next
  assume "s = Yindex ch"
  then show "HHChannelF2D_setYindex ch s = (ch, None)" by (simp add: setYindex_eq)
next
  assume "s = Zindex ch"
  then show "HHChannelF2D_setZindex ch s = (ch, None)" by (simp add: setZindex_eq)
qed

text \<open>A new channel is consistent: no index string, no binding.\<close>

lemma new_consistent: "routing_consistent HHChannelF2D_new"
  by (simp add: routing_consistent_def HHChannelF2D_new_def stored_binding_def policy_def)

theorem setindex_policy_witness:
  "routing_consistent HHChannelF2D_new
   \<and> policy ''VOLT_C1_INDEX'' = Some (VOLT, C1)
   \<and> (case HHChannelF2D_setXindex HHChannelF2D_new ''VOLT_C1_INDEX'' of
         (ch', err) \<Rightarrow> err = None \<and> Xdep0 ch' = 0 \<and> Xdep1 ch' = 1)
   \<and> policy ''C1_C2_INDEX'' = Some (C1, C2)
   \<and> (case HHChannelF2D_setYindex HHChannelF2D_new ''C1_C2_INDEX'' of
         (ch', err) \<Rightarrow> err = None \<and> Ydep0 ch' = 1 \<and> Ydep1 ch' = 2)
   \<and> policy ''FOO'' = None \<and> ''FOO'' \<noteq> Xindex HHChannelF2D_new
   \<and> snd (HHChannelF2D_setXindex HHChannelF2D_new ''FOO'') = Some AssertionFailed
   \<and> snd (HHChannelF2D_setZindex HHChannelF2D_new ''FOO'') = Some AssertionFailed
   \<and> [] = Xindex HHChannelF2D_new
   \<and> HHChannelF2D_setXindex HHChannelF2D_new [] = (HHChannelF2D_new, None)"
proof -
  have c: "routing_consistent HHChannelF2D_new" by (rule new_consistent)
  have p1: "policy ''VOLT_C1_INDEX'' = Some (VOLT, C1)" by (simp add: policy_def)
  have p2: "policy ''C1_C2_INDEX'' = Some (C1, C2)" by (simp add: policy_def)
  have p3: "policy ''FOO'' = None" by (simp add: policy_def)
  have n: "Xindex HHChannelF2D_new = []" "Yindex HHChannelF2D_new = []"
    "Zindex HHChannelF2D_new = []"
    by (simp_all add: HHChannelF2D_new_def)
  show ?thesis
    using c p1 p2 p3 n
      setindex_policy [OF c, of "''VOLT_C1_INDEX''" VOLT C1]
      setindex_policy [OF c, of "''C1_C2_INDEX''" C1 C2]
      setindex_policy [OF c, of "''FOO''" VOLT VOLT]
      setindex_policy [OF c, of "[]" VOLT VOLT]
    by (auto simp add: input_code_def)
qed

section \<open>Properties of the channel\<close>

text \<open>Inside a channel the two lookups of \<^verbatim>\<open>lookupBoth\<close> see the same inputs, since the
  lookup of A stores them first.\<close>

lemma lookupBoth_eq:
  "HHGateF2D_lookupBoth gt v c =
     ((if tauInf gt then beta_expr gt v c / alpha_expr gt v c else alpha_expr gt v c, spec_B gt v c),
      gt\<lparr>gate_v := v, gate_conc := c\<rparr>, [])"
  by (simp add: HHGateF2D_lookupBoth_def HHGateF2D_lookupA_def HHGateF2D_lookupB_def spec_B_def
      alpha_value_def beta_value_def Let_def)

lemma gate_query_ready:
  assumes "gate_ready p gate d0 d1" and "p > 0"
  shows "\<exists>gt. gate_query ch gate d0 d1 = Inr (rates ch gate d0 d1, gt, [])"
proof -
  from assms obtain g0 where g: "gate = Some g0" and d: "d0 \<in> {0, 1, 2}" "d1 \<in> {0, 1, 2}"
    by (auto simp add: gate_ready_def)
  from d obtain x0 x1 where x: "depValue ch d0 = Inr x0" "depValue ch d1 = Inr x1"
    by (auto simp add: depValue_def)
  show ?thesis
    by (simp add: rates_def gate_query_def g x lookupBoth_eq)
qed

lemma vProcess_X_ready:
  assumes "gate_ready (Xpower ch) (xGate ch) (Xdep0 ch) (Xdep1 ch)"
  shows "\<exists>gt ga. vProcess_X dt ch =
           Inr (ch\<lparr>xGate := gt,
                   stateX := (if Xpower ch > 0
                              then spec_step (instant_bit ch INSTANT_X) dt (stateX ch)
                                     (rates ch (xGate ch) (Xdep0 ch) (Xdep1 ch))
                              else stateX ch),
                   g_acc := ga\<rparr>, [])"
proof (cases "Xpower ch > 0")
  case True
  from gate_query_ready [OF assms True] obtain gt where
    q: "gate_query ch (xGate ch) (Xdep0 ch) (Xdep1 ch)
          = Inr (rates ch (xGate ch) (Xdep0 ch) (Xdep1 ch), gt, [])" ..
  obtain A B where ab: "rates ch (xGate ch) (Xdep0 ch) (Xdep1 ch) = (A, B)"
    by (cases "rates ch (xGate ch) (Xdep0 ch) (Xdep1 ch)")
  show ?thesis
    using True
    by (cases "instant_bit ch INSTANT_X")
      (auto simp add: vProcess_X_def q ab spec_step_def integrate_def Let_def)
next
  case False
  have "vProcess_X dt ch = Inr (ch\<lparr>xGate := xGate ch, stateX := stateX ch, g_acc := g_acc ch\<rparr>, [])"
    using False by (simp add: vProcess_X_def)
  with False show ?thesis by (simp only: if_False) blast
qed

lemma vProcess_Y_ready:
  assumes "gate_ready (Ypower ch) (yGate ch) (Ydep0 ch) (Ydep1 ch)"
  shows "\<exists>gt ga. vProcess_Y dt ch =
           Inr (ch\<lparr>yGate := gt,
                   stateY := (if Ypower ch > 0
                              then spec_step (instant_bit ch INSTANT_Y) dt (stateY ch)
                                     (rates ch (yGate ch) (Ydep0 ch) (Ydep1 ch))
                              else stateY ch),
                   g_acc := ga\<rparr>, [])"
proof (cases "Ypower ch > 0")
  case True
  from gate_query_ready [OF assms True] obtain gt where
    q: "gate_query ch (yGate ch) (Ydep0 ch) (Ydep1 ch)
          = Inr (rates ch (yGate ch) (Ydep0 ch) (Ydep1 ch), gt, [])" ..
  obtain A B where ab: "rates ch (yGate ch) (Ydep0 ch) (Ydep1 ch) = (A, B)"
    by (cases "rates ch (yGate ch) (Ydep0 ch) (Ydep1 ch)")
  show ?thesis
    using True
    by (cases "instant_bit ch INSTANT_Y")
      (auto simp add: vProcess_Y_def q ab spec_step_def integrate_def Let_def)
next
  case False
  have "vProcess_Y dt ch = Inr (ch\<lparr>yGate := yGate ch, stateY := stateY ch, g_acc := g_acc ch\<rparr>, [])"
    using False by (simp add: vProcess_Y_def)
  with False show ?thesis by (simp only: if_False) blast
qed

lemma vProcess_Z_ready:
  assumes "gate_ready (Zpower ch) (zGate ch) (Zdep0 ch) (Zdep1 ch)"
  shows "\<exists>gt ga. vProcess_Z dt ch =
           Inr (ch\<lparr>zGate := gt,
                   stateZ := (if Zpower ch > 0
                              then spec_step (instant_bit ch INSTANT_Z) dt (stateZ ch)
                                     (rates ch (zGate ch) (Zdep0 ch) (Zdep1 ch))
                              else stateZ ch),
                   g_acc := ga\<rparr>, [])"
proof (cases "Zpower ch > 0")
  case True
  from gate_query_ready [OF assms True] obtain gt where
    q: "gate_query ch (zGate ch) (Zdep0 ch) (Zdep1 ch)
          = Inr (rates ch (zGate ch) (Zdep0 ch) (Zdep1 ch), gt, [])" ..
  obtain A B where ab: "rates ch (zGate ch) (Zdep0 ch) (Zdep1 ch) = (A, B)"
    by (cases "rates ch (zGate ch) (Zdep0 ch) (Zdep1 ch)")
  show ?thesis
    using True
    by (cases "instant_bit ch INSTANT_Z")
      (auto simp add: vProcess_Z_def q ab spec_step_def integrate_def Let_def)
next
  case False
  have "vProcess_Z dt ch = Inr (ch\<lparr>zGate := zGate ch, stateZ := stateZ ch, g_acc := g_acc ch\<rparr>, [])"
    using False by (simp add: vProcess_Z_def)
  with False show ?thesis by (simp only: if_False) blast
qed

lemma rates_frame:
  "rates (ch\<lparr>xGate := gx\<rparr>) gate d0 d1 = rates ch gate d0 d1"
  "rates (ch\<lparr>yGate := gx\<rparr>) gate d0 d1 = rates ch gate d0 d1"
  "rates (ch\<lparr>zGate := gx\<rparr>) gate d0 d1 = rates ch gate d0 d1"
  "rates (ch\<lparr>stateX := sx\<rparr>) gate d0 d1 = rates ch gate d0 d1"
  "rates (ch\<lparr>stateY := sx\<rparr>) gate d0 d1 = rates ch gate d0 d1"
  "rates (ch\<lparr>stateZ := sx\<rparr>) gate d0 d1 = rates ch gate d0 d1"
  "rates (ch\<lparr>g_acc := ga\<rparr>) gate d0 d1 = rates ch gate d0 d1"
  by (simp_all add: rates_def gate_query_def depValue_def)

lemma instant_bit_frame:
  "instant_bit (ch\<lparr>xGate := gx\<rparr>) m = instant_bit ch m"
  "instant_bit (ch\<lparr>yGate := gx\<rparr>) m = instant_bit ch m"
  "instant_bit (ch\<lparr>zGate := gx\<rparr>) m = instant_bit ch m"
  "instant_bit (ch\<lparr>stateX := sx\<rparr>) m = instant_bit ch m"
  "instant_bit (ch\<lparr>stateY := sx\<rparr>) m = instant_bit ch m"
  "instant_bit (ch\<lparr>stateZ := sx\<rparr>) m = instant_bit ch m"
  "instant_bit (ch\<lparr>g_acc := ga\<rparr>) m = instant_bit ch m"
  by (simp_all add: instant_bit_def)

text \<open>A process step of a channel whose active gates are ready runs to its end.\<close>

lemma vProcess_ready_runs:
  assumes "channel_ready ch"
  shows "\<exists>ch' w. HHChannelF2D_vProcess ch dt = Inr (ch', w)
     \<and> stateX ch' = (if Xpower ch > 0
                     then spec_step (instant_bit ch INSTANT_X) dt (stateX ch)
                            (rates ch (xGate ch) (Xdep0 ch) (Xdep1 ch))
                     else stateX ch)
     \<and> stateY ch' = (if Ypower ch > 0
                     then spec_step (instant_bit ch INSTANT_Y) dt (stateY ch)
                            (rates ch (yGate ch) (Ydep0 ch) (Ydep1 ch))
                     else stateY ch)
     \<and> stateZ ch' = (if Zpower ch > 0
                     then spec_step (instant_bit ch INSTANT_Z) dt (stateZ ch)
                            (rates ch (zGate ch) (Zdep0 ch) (Zdep1 ch))
                     else stateZ ch)"
proof -
  let ?c0 = "ch\<lparr>g_acc := g_acc ch + Gbar ch\<rparr>"
  from assms have rx: "gate_ready (Xpower ?c0) (xGate ?c0) (Xdep0 ?c0) (Xdep1 ?c0)"
    by (simp add: channel_ready_def)
  from vProcess_X_ready [OF rx, of dt] obtain c1 gx sx ga1 where
    x: "vProcess_X dt ?c0 = Inr (c1, [])"
    and c1: "c1 = ?c0\<lparr>xGate := gx, stateX := sx, g_acc := ga1\<rparr>"
    and sx: "sx = (if Xpower ?c0 > 0
                   then spec_step (instant_bit ?c0 INSTANT_X) dt (stateX ?c0)
                          (rates ?c0 (xGate ?c0) (Xdep0 ?c0) (Xdep1 ?c0))
                   else stateX ?c0)"
    by blast
  from assms have ry: "gate_ready (Ypower c1) (yGate c1) (Ydep0 c1) (Ydep1 c1)"
    by (simp add: channel_ready_def c1)
  from vProcess_Y_ready [OF ry, of dt] obtain c2 gy sy ga2 where
    y: "vProcess_Y dt c1 = Inr (c2, [])"
    and c2: "c2 = c1\<lparr>yGate := gy, stateY := sy, g_acc := ga2\<rparr>"
    and sy: "sy = (if Ypower c1 > 0
                   then spec_step (instant_bit c1 INSTANT_Y) dt (stateY c1)
                          (rates c1 (yGate c1) (Ydep0 c1) (Ydep1 c1))
                   else stateY c1)"
    by blast
  from assms have rz: "gate_ready (Zpower c2) (zGate c2) (Zdep0 c2) (Zdep1 c2)"
    by (simp add: channel_ready_def c1 c2)
  from vProcess_Z_ready [OF rz, of dt] obtain c3 gz sz ga3 where
    z: "vProcess_Z dt c2 = Inr (c3, [])"
    and c3: "c3 = c2\<lparr>zGate := gz, stateZ := sz, g_acc := ga3\<rparr>"
    and sz: "sz = (if Zpower c2 > 0
                   then spec_step (instant_bit c2 INSTANT_Z) dt (stateZ c2)
                          (rates c2 (zGate c2) (Zdep0 c2) (Zdep1 c2))
                   else stateZ c2)"
    by blast
  have fx: "stateX c3 = (if Xpower ch > 0
                     then spec_step (instant_bit ch INSTANT_X) dt (stateX ch)
                            (rates ch (xGate ch) (Xdep0 ch) (Xdep1 ch))
                     else stateX ch)"
    by (simp add: c3 c2 c1 sx rates_frame instant_bit_frame)
  have fy: "stateY c3 = (if Ypower ch > 0
                     then spec_step (instant_bit ch INSTANT_Y) dt (stateY ch)
                            (rates ch (yGate ch) (Ydep0 ch) (Ydep1 ch))
                     else stateY ch)"
    by (simp add: c3 c2 sy) (simp add: c1 rates_frame instant_bit_frame)
  have fz: "stateZ c3 = (if Zpower ch > 0
                     then spec_step (instant_bit ch INSTANT_Z) dt (stateZ ch)
                            (rates ch (zGate ch) (Zdep0 ch) (Zdep1 ch))
                     else stateZ ch)"
    by (simp add: c3 sz) (simp add: c2 c1 rates_frame instant_bit_frame)
  have run: "HHChannelF2D_vProcess ch dt =
          Inr ((updateIk (setGk c3 (g_acc c3 * modulation c3)))\<lparr>g_acc := 0\<rparr>,
               sendMsgs (updateIk (setGk c3 (g_acc c3 * modulation c3))))"
    by (simp add: HHChannelF2D_vProcess_def x y z Let_def)
  show ?thesis
    unfolding run using fx fy fz
    by (simp add: updateIk_def setGk_def)
qed


lemma process_channel_rates:
  "rates process_channel (xGate process_channel) (Xdep0 process_channel) (Xdep1 process_channel) = (1, 2)"
  "rates process_channel (yGate process_channel) (Ydep0 process_channel) (Ydep1 process_channel) = (1, 4)"
  by (simp_all add: rates_def gate_query_def depValue_def process_channel_def HHChannelF2D_new_def
      lookupBoth_eq const_gate_def spec_B_def)

lemma process_channel_bits:
  "\<not> instant_bit process_channel INSTANT_X" "instant_bit process_channel INSTANT_Y"
  by (simp_all add: instant_bit_def process_channel_def HHChannelF2D_new_def INSTANT_X_def
      INSTANT_Y_def)

lemma vReinit_X_ready:
  assumes "gate_ready (Xpower ch) (xGate ch) (Xdep0 ch) (Xdep1 ch)"
  shows "\<exists>gt ga. vReinit_X ch =
           (if small_B ch (Xpower ch) (xGate ch) (Xdep0 ch) (Xdep1 ch)
            then Inr (True, ch\<lparr>xGate := gt\<rparr>, [Warning ''B_ value is ~0. Check X table''])
            else Inr (False,
                   ch\<lparr>xGate := gt,
                      stateX := (if Xpower ch > 0
                                 then spec_init (xInited ch) (stateX ch)
                                        (rates ch (xGate ch) (Xdep0 ch) (Xdep1 ch))
                                 else stateX ch),
                      g_acc := ga\<rparr>, []))"
proof (cases "Xpower ch > 0")
  case True
  from gate_query_ready [OF assms True] obtain gt where
    q: "gate_query ch (xGate ch) (Xdep0 ch) (Xdep1 ch)
          = Inr (rates ch (xGate ch) (Xdep0 ch) (Xdep1 ch), gt, [])" ..
  obtain A B where ab: "rates ch (xGate ch) (Xdep0 ch) (Xdep1 ch) = (A, B)"
    by (cases "rates ch (xGate ch) (Xdep0 ch) (Xdep1 ch)")
  show ?thesis
    using True
    by (cases "xInited ch")
      (auto simp add: vReinit_X_def q ab spec_init_def small_B_def Let_def)
next
  case False
  have "vReinit_X ch = Inr (False, ch\<lparr>xGate := xGate ch, stateX := stateX ch, g_acc := g_acc ch\<rparr>, [])"
    using False by (simp add: vReinit_X_def)
  moreover have "\<not> small_B ch (Xpower ch) (xGate ch) (Xdep0 ch) (Xdep1 ch)"
    using False by (simp add: small_B_def)
  ultimately show ?thesis using False by (simp only: if_False) blast
qed

lemma vReinit_Y_ready:
  assumes "gate_ready (Ypower ch) (yGate ch) (Ydep0 ch) (Ydep1 ch)"
  shows "\<exists>gt ga. vReinit_Y ch =
           (if small_B ch (Ypower ch) (yGate ch) (Ydep0 ch) (Ydep1 ch)
            then Inr (True, ch\<lparr>yGate := gt\<rparr>, [Warning ''B value is ~0. Check Y table''])
            else Inr (False,
                   ch\<lparr>yGate := gt,
                      stateY := (if Ypower ch > 0
                                 then spec_init (yInited ch) (stateY ch)
                                        (rates ch (yGate ch) (Ydep0 ch) (Ydep1 ch))
                                 else stateY ch),
                      g_acc := ga\<rparr>, []))"
proof (cases "Ypower ch > 0")
  case True
  from gate_query_ready [OF assms True] obtain gt where
    q: "gate_query ch (yGate ch) (Ydep0 ch) (Ydep1 ch)
          = Inr (rates ch (yGate ch) (Ydep0 ch) (Ydep1 ch), gt, [])" ..
  obtain A B where ab: "rates ch (yGate ch) (Ydep0 ch) (Ydep1 ch) = (A, B)"
    by (cases "rates ch (yGate ch) (Ydep0 ch) (Ydep1 ch)")
  show ?thesis
    using True
    by (cases "yInited ch")
      (auto simp add: vReinit_Y_def q ab spec_init_def small_B_def Let_def)
next
  case False
  have "vReinit_Y ch = Inr (False, ch\<lparr>yGate := yGate ch, stateY := stateY ch, g_acc := g_acc ch\<rparr>, [])"
    using False by (simp add: vReinit_Y_def)
  moreover have "\<not> small_B ch (Ypower ch) (yGate ch) (Ydep0 ch) (Ydep1 ch)"
    using False by (simp add: small_B_def)
  ultimately show ?thesis using False by (simp only: if_False) blast
qed

lemma vReinit_Z_ready:
  assumes "gate_ready (Zpower ch) (zGate ch) (Zdep0 ch) (Zdep1 ch)"
  shows "\<exists>gt ga. vReinit_Z ch =
           (if small_B ch (Zpower ch) (zGate ch) (Zdep0 ch) (Zdep1 ch)
            then Inr (True, ch\<lparr>zGate := gt\<rparr>, [Warning ''B value is ~0. Check Z table''])
            else Inr (False,
                   ch\<lparr>zGate := gt,
                      stateZ := (if Zpower ch > 0
                                 then spec_init (zInited ch) (stateZ ch)
                                        (rates ch (zGate ch) (Zdep0 ch) (Zdep1 ch))
                                 else stateZ ch),
                      g_acc := ga\<rparr>, []))"
proof (cases "Zpower ch > 0")
  case True
  from gate_query_ready [OF assms True] obtain gt where
    q: "gate_query ch (zGate ch) (Zdep0 ch) (Zdep1 ch)
          = Inr (rates ch (zGate ch) (Zdep0 ch) (Zdep1 ch), gt, [])" ..
  obtain A B where ab: "rates ch (zGate ch) (Zdep0 ch) (Zdep1 ch) = (A, B)"
    by (cases "rates ch (zGate ch) (Zdep0 ch) (Zdep1 ch)")
  show ?thesis
    using True
    by (cases "zInited ch")
      (auto simp add: vReinit_Z_def q ab spec_init_def small_B_def Let_def)
next
  case False
  have "vReinit_Z ch = Inr (False, ch\<lparr>zGate := zGate ch, stateZ := stateZ ch, g_acc := g_acc ch\<rparr>, [])"
    using False by (simp add: vReinit_Z_def)
  moreover have "\<not> small_B ch (Zpower ch) (zGate ch) (Zdep0 ch) (Zdep1 ch)"
    using False by (simp add: small_B_def)
  ultimately show ?thesis using False by (simp only: if_False) blast
qed


lemma small_B_frame:
  "small_B (ch\<lparr>xGate := gx\<rparr>) p gate d0 d1 = small_B ch p gate d0 d1"
  "small_B (ch\<lparr>yGate := gx\<rparr>) p gate d0 d1 = small_B ch p gate d0 d1"
  "small_B (ch\<lparr>zGate := gx\<rparr>) p gate d0 d1 = small_B ch p gate d0 d1"
  "small_B (ch\<lparr>stateX := sx\<rparr>) p gate d0 d1 = small_B ch p gate d0 d1"
  "small_B (ch\<lparr>stateY := sx\<rparr>) p gate d0 d1 = small_B ch p gate d0 d1"
  "small_B (ch\<lparr>stateZ := sx\<rparr>) p gate d0 d1 = small_B ch p gate d0 d1"
  "small_B (ch\<lparr>g_acc := ga\<rparr>) p gate d0 d1 = small_B ch p gate d0 d1"
  by (simp_all add: small_B_def rates_frame)

text \<open>So does a reinit.\<close>

lemma vReinit_ready_runs:
  assumes "channel_ready ch"
  shows "\<exists>ch' w. HHChannelF2D_vReinit ch = Inr (ch', w)
     \<and> stateX ch' = (if Xpower ch > 0 \<and> \<not> bad_X ch
                     then spec_init (xInited ch) (stateX ch)
                            (rates ch (xGate ch) (Xdep0 ch) (Xdep1 ch))
                     else stateX ch)
     \<and> stateY ch' = (if Ypower ch > 0 \<and> \<not> bad_X ch \<and> \<not> bad_Y ch
                     then spec_init (yInited ch) (stateY ch)
                            (rates ch (yGate ch) (Ydep0 ch) (Ydep1 ch))
                     else stateY ch)
     \<and> stateZ ch' = (if Zpower ch > 0 \<and> \<not> bad_X ch \<and> \<not> bad_Y ch \<and> \<not> bad_Z ch
                     then spec_init (zInited ch) (stateZ ch)
                            (rates ch (zGate ch) (Zdep0 ch) (Zdep1 ch))
                     else stateZ ch)
     \<and> (if bad_X ch \<or> bad_Y ch \<or> bad_Z ch
         then (\<exists>s. w = [Warning s])
         else w = [ChannelOut (Gk ch') (Ek ch'), IkOut (Ik ch')])"
proof -
  let ?c0 = "ch\<lparr>g_acc := Gbar ch\<rparr>"
  from assms have rx: "gate_ready (Xpower ?c0) (xGate ?c0) (Xdep0 ?c0) (Xdep1 ?c0)"
    by (simp add: channel_ready_def)
  have bx: "small_B ?c0 (Xpower ?c0) (xGate ?c0) (Xdep0 ?c0) (Xdep1 ?c0) = bad_X ch"
    by (simp add: bad_X_def small_B_frame)
  from vReinit_X_ready [OF rx] obtain gx ga1 sx c1 where
    x: "vReinit_X ?c0 =
          (if bad_X ch
           then Inr (True, ?c0\<lparr>xGate := gx\<rparr>, [Warning ''B_ value is ~0. Check X table''])
           else Inr (False, c1, []))"
    and c1: "c1 = ?c0\<lparr>xGate := gx, stateX := sx, g_acc := ga1\<rparr>"
    and sx: "sx = (if Xpower ?c0 > 0
                   then spec_init (xInited ?c0) (stateX ?c0)
                          (rates ?c0 (xGate ?c0) (Xdep0 ?c0) (Xdep1 ?c0))
                   else stateX ?c0)"
    unfolding bx by blast
  show ?thesis
  proof (cases "bad_X ch")
    case True
    have run: "HHChannelF2D_vReinit ch =
                 Inr (?c0\<lparr>xGate := gx\<rparr>, [Warning ''B_ value is ~0. Check X table''])"
      using True by (simp add: HHChannelF2D_vReinit_def x)
    show ?thesis
      unfolding run using True by simp
  next
    case nbx: False
    from assms have ry: "gate_ready (Ypower c1) (yGate c1) (Ydep0 c1) (Ydep1 c1)"
      by (simp add: channel_ready_def c1)
    have by': "small_B c1 (Ypower c1) (yGate c1) (Ydep0 c1) (Ydep1 c1) = bad_Y ch"
      by (simp add: bad_Y_def c1 small_B_frame)
    from vReinit_Y_ready [OF ry] obtain gy ga2 sy c2 where
      y: "vReinit_Y c1 =
            (if bad_Y ch
             then Inr (True, c1\<lparr>yGate := gy\<rparr>, [Warning ''B value is ~0. Check Y table''])
             else Inr (False, c2, []))"
      and c2: "c2 = c1\<lparr>yGate := gy, stateY := sy, g_acc := ga2\<rparr>"
      and sy: "sy = (if Ypower c1 > 0
                     then spec_init (yInited c1) (stateY c1)
                            (rates c1 (yGate c1) (Ydep0 c1) (Ydep1 c1))
                     else stateY c1)"
      unfolding by' by blast
    have fx: "stateX c1 = (if Xpower ch > 0
                     then spec_init (xInited ch) (stateX ch)
                            (rates ch (xGate ch) (Xdep0 ch) (Xdep1 ch))
                     else stateX ch)"
      by (simp add: c1 sx rates_frame)
    show ?thesis
    proof (cases "bad_Y ch")
      case True
      have run: "HHChannelF2D_vReinit ch =
                   Inr (c1\<lparr>yGate := gy\<rparr>, [Warning ''B value is ~0. Check Y table''])"
        using True nbx by (simp add: HHChannelF2D_vReinit_def x y)
      have "stateY (c1\<lparr>yGate := gy\<rparr>) = stateY ch" "stateZ (c1\<lparr>yGate := gy\<rparr>) = stateZ ch"
        "stateX (c1\<lparr>yGate := gy\<rparr>) = stateX c1"
        by (simp_all add: c1)
      then show ?thesis
        unfolding run using True nbx fx by simp
    next
      case nby: False
      from assms have rz: "gate_ready (Zpower c2) (zGate c2) (Zdep0 c2) (Zdep1 c2)"
        by (simp add: channel_ready_def c1 c2)
      have bz: "small_B c2 (Zpower c2) (zGate c2) (Zdep0 c2) (Zdep1 c2) = bad_Z ch"
        by (simp add: bad_Z_def c1 c2 small_B_frame)
      from vReinit_Z_ready [OF rz] obtain gz ga3 sz c3 where
        z: "vReinit_Z c2 =
              (if bad_Z ch
               then Inr (True, c2\<lparr>zGate := gz\<rparr>, [Warning ''B value is ~0. Check Z table''])
               else Inr (False, c3, []))"
        and c3: "c3 = c2\<lparr>zGate := gz, stateZ := sz, g_acc := ga3\<rparr>"
        and sz: "sz = (if Zpower c2 > 0
                       then spec_init (zInited c2) (stateZ c2)
                              (rates c2 (zGate c2) (Zdep0 c2) (Zdep1 c2))
                       else stateZ c2)"
        unfolding bz by blast
      have fy: "stateY c2 = (if Ypower ch > 0
                     then spec_init (yInited ch) (stateY ch)
                            (rates ch (yGate ch) (Ydep0 ch) (Ydep1 ch))
                     else stateY ch)"
        by (simp add: c2 sy) (simp add: c1 rates_frame)
      have fx2: "stateX c2 = stateX c1"
        by (simp add: c2)
      show ?thesis
      proof (cases "bad_Z ch")
        case True
        have run: "HHChannelF2D_vReinit ch =
                     Inr (c2\<lparr>zGate := gz\<rparr>, [Warning ''B value is ~0. Check Z table''])"
          using True nbx nby by (simp add: HHChannelF2D_vReinit_def x y z)
        have "stateZ (c2\<lparr>zGate := gz\<rparr>) = stateZ ch"
          "stateY (c2\<lparr>zGate := gz\<rparr>) = stateY c2" "stateX (c2\<lparr>zGate := gz\<rparr>) = stateX c1"
          by (simp_all add: c1 c2)
        then show ?thesis
          unfolding run using True nbx nby fx fy by simp
      next
        case nbz: False
        have run: "HHChannelF2D_vReinit ch =
            Inr ((updateIk (setGk c3 (g_acc c3 * modulation c3)))\<lparr>g_acc := 0\<rparr>,
                 sendMsgs (updateIk (setGk c3 (g_acc c3 * modulation c3))))"
          using nbx nby nbz by (simp add: HHChannelF2D_vReinit_def x y z Let_def)
        have fz: "stateZ c3 = (if Zpower ch > 0
                     then spec_init (zInited ch) (stateZ ch)
                            (rates ch (zGate ch) (Zdep0 ch) (Zdep1 ch))
                     else stateZ ch)"
          by (simp add: c3 sz) (simp add: c2 c1 rates_frame)
        have "stateX c3 = stateX c1" "stateY c3 = stateY c2"
          by (simp_all add: c3 c2)
        then show ?thesis
          unfolding run using nbx nby nbz fx fy fz
          by (simp add: updateIk_def setGk_def sendMsgs_def)
      qed
    qed
  qed
qed


lemma reinit_channel_rates:
  "rates reinit_channel (xGate reinit_channel) (Xdep0 reinit_channel) (Xdep1 reinit_channel) = (0, 0)"
  "rates reinit_channel (yGate reinit_channel) (Ydep0 reinit_channel) (Ydep1 reinit_channel) = (1, 2)"
  by (simp_all add: rates_def gate_query_def depValue_def reinit_channel_def HHChannelF2D_new_def
      lookupBoth_eq const_gate_def spec_B_def)

text \<open>
  That the refusal affects only the gate with the small \<open>B\<close> does not hold: with
  \<open>B = 0\<close> on the X gate, the Y gate (active, not pre-initialised, \<open>A / B = 1 / 2\<close>) keeps
  its state \<open>0\<close>, the only event is the warning, and the accumulator is left at \<open>Gbar\<close>.
\<close>

theorem vReinit_early_return_counterexample:
  "Ypower reinit_channel = 1 \<and> \<not> yInited reinit_channel
   \<and> rates reinit_channel (yGate reinit_channel) (Ydep0 reinit_channel) (Ydep1 reinit_channel)
       = (1, 2)
   \<and> HHChannelF2D_vReinit reinit_channel
       = Inr (reinit_channel\<lparr>g_acc := 1\<rparr>, [Warning ''B_ value is ~0. Check X table''])
   \<and> stateY (reinit_channel\<lparr>g_acc := 1\<rparr>) = 0"
proof -
  have q: "gate_query (reinit_channel\<lparr>g_acc := 1\<rparr>) (Some (const_gate 0 0)) 0 1
             = Inr ((0, 0), const_gate 0 0, [])"
    by (simp add: gate_query_def depValue_def reinit_channel_def HHChannelF2D_new_def
        lookupBoth_eq const_gate_def spec_B_def)
  have f: "Xpower (reinit_channel\<lparr>g_acc := 1\<rparr>) = 1"
    "xGate (reinit_channel\<lparr>g_acc := 1\<rparr>) = Some (const_gate 0 0)"
    "Xdep0 (reinit_channel\<lparr>g_acc := 1\<rparr>) = 0" "Xdep1 (reinit_channel\<lparr>g_acc := 1\<rparr>) = 1"
    "Gbar reinit_channel = 1"
    by (simp_all add: reinit_channel_def HHChannelF2D_new_def)
  have x: "vReinit_X (reinit_channel\<lparr>g_acc := 1\<rparr>)
        = Inr (True, reinit_channel\<lparr>g_acc := 1\<rparr>, [Warning ''B_ value is ~0. Check X table''])"
    unfolding vReinit_X_def f q
    by (simp add: EPSILON_def) (simp add: reinit_channel_def HHChannelF2D_new_def)
  have run: "HHChannelF2D_vReinit reinit_channel
       = Inr (reinit_channel\<lparr>g_acc := 1\<rparr>, [Warning ''B_ value is ~0. Check X table''])"
    by (simp add: HHChannelF2D_vReinit_def f x)
  show ?thesis
    using run reinit_channel_rates(2)
    by (simp add: reinit_channel_def HHChannelF2D_new_def)
qed

text \<open>What a gate block has done when it did not fail.\<close>

lemma gate_query_Inr:
  assumes "gate_query ch gate d0 d1 = Inr (ab, gt, w)"
  shows "w = []" and "rates ch gate d0 d1 = ab"
  using assms
  by (auto simp add: gate_query_def rates_def lookupBoth_eq split: sum.splits option.splits)

lemma vProcess_X_result:
  assumes "vProcess_X dt ch = Inr (c1, w)"
  shows "\<exists>gt ga. c1 = ch\<lparr>xGate := gt,
                   stateX := (if Xpower ch > 0
                              then spec_step (instant_bit ch INSTANT_X) dt (stateX ch)
                                     (rates ch (xGate ch) (Xdep0 ch) (Xdep1 ch))
                              else stateX ch),
                   g_acc := ga\<rparr>"
proof (cases "Xpower ch > 0")
  case True
  with assms obtain A B gt w' where
    q: "gate_query ch (xGate ch) (Xdep0 ch) (Xdep1 ch) = Inr ((A, B), gt, w')"
    by (auto simp add: vProcess_X_def split: sum.splits)
  have ab: "rates ch (xGate ch) (Xdep0 ch) (Xdep1 ch) = (A, B)"
    by (rule gate_query_Inr(2) [OF q])
  show ?thesis
    using True assms
    by (cases "instant_bit ch INSTANT_X")
      (auto simp add: vProcess_X_def q ab spec_step_def integrate_def Let_def)
next
  case False
  with assms have "c1 = ch\<lparr>xGate := xGate ch, stateX := stateX ch, g_acc := g_acc ch\<rparr>"
    by (simp add: vProcess_X_def)
  with False show ?thesis by (simp only: if_False) blast
qed

lemma vProcess_Y_result:
  assumes "vProcess_Y dt ch = Inr (c1, w)"
  shows "\<exists>gt ga. c1 = ch\<lparr>yGate := gt,
                   stateY := (if Ypower ch > 0
                              then spec_step (instant_bit ch INSTANT_Y) dt (stateY ch)
                                     (rates ch (yGate ch) (Ydep0 ch) (Ydep1 ch))
                              else stateY ch),
                   g_acc := ga\<rparr>"
proof (cases "Ypower ch > 0")
  case True
  with assms obtain A B gt w' where
    q: "gate_query ch (yGate ch) (Ydep0 ch) (Ydep1 ch) = Inr ((A, B), gt, w')"
    by (auto simp add: vProcess_Y_def split: sum.splits)
  have ab: "rates ch (yGate ch) (Ydep0 ch) (Ydep1 ch) = (A, B)"
    by (rule gate_query_Inr(2) [OF q])
  show ?thesis
    using True assms
    by (cases "instant_bit ch INSTANT_Y")
      (auto simp add: vProcess_Y_def q ab spec_step_def integrate_def Let_def)
next
  case False
  with assms have "c1 = ch\<lparr>yGate := yGate ch, stateY := stateY ch, g_acc := g_acc ch\<rparr>"
    by (simp add: vProcess_Y_def)
  with False show ?thesis by (simp only: if_False) blast
qed

lemma vProcess_Z_result:
  assumes "vProcess_Z dt ch = Inr (c1, w)"
  shows "\<exists>gt ga. c1 = ch\<lparr>zGate := gt,
                   stateZ := (if Zpower ch > 0
                              then spec_step (instant_bit ch INSTANT_Z) dt (stateZ ch)
                                     (rates ch (zGate ch) (Zdep0 ch) (Zdep1 ch))
                              else stateZ ch),
                   g_acc := ga\<rparr>"
proof (cases "Zpower ch > 0")
  case True
  with assms obtain A B gt w' where
    q: "gate_query ch (zGate ch) (Zdep0 ch) (Zdep1 ch) = Inr ((A, B), gt, w')"
    by (auto simp add: vProcess_Z_def split: sum.splits)
  have ab: "rates ch (zGate ch) (Zdep0 ch) (Zdep1 ch) = (A, B)"
    by (rule gate_query_Inr(2) [OF q])
  show ?thesis
    using True assms
    by (cases "instant_bit ch INSTANT_Z")
      (auto simp add: vProcess_Z_def q ab spec_step_def integrate_def Let_def)
next
  case False
  with assms have "c1 = ch\<lparr>zGate := zGate ch, stateZ := stateZ ch, g_acc := g_acc ch\<rparr>"
    by (simp add: vProcess_Z_def)
  with False show ?thesis by (simp only: if_False) blast
qed

lemma vReinit_X_result:
  assumes "vReinit_X ch = Inr (stop, c1, w)"
  shows "stop = small_B ch (Xpower ch) (xGate ch) (Xdep0 ch) (Xdep1 ch)"
    and "stop \<Longrightarrow> (\<exists>s. w = [Warning s]) \<and> (\<exists>gt. c1 = ch\<lparr>xGate := gt\<rparr>)"
    and "\<not> stop \<Longrightarrow> w = [] \<and>
           (\<exists>gt ga. c1 = ch\<lparr>xGate := gt,
                      stateX := (if Xpower ch > 0
                                 then spec_init (xInited ch) (stateX ch)
                                        (rates ch (xGate ch) (Xdep0 ch) (Xdep1 ch))
                                 else stateX ch),
                      g_acc := ga\<rparr>)"
proof -
  have "stop = small_B ch (Xpower ch) (xGate ch) (Xdep0 ch) (Xdep1 ch)
      \<and> (stop \<longrightarrow> (\<exists>s. w = [Warning s]) \<and> (\<exists>gt. c1 = ch\<lparr>xGate := gt\<rparr>))
      \<and> (\<not> stop \<longrightarrow> w = [] \<and>
           (\<exists>gt ga. c1 = ch\<lparr>xGate := gt,
                      stateX := (if Xpower ch > 0
                                 then spec_init (xInited ch) (stateX ch)
                                        (rates ch (xGate ch) (Xdep0 ch) (Xdep1 ch))
                                 else stateX ch),
                      g_acc := ga\<rparr>))"
  proof (cases "Xpower ch > 0")
    case True
    with assms obtain A B gt w' where
      q: "gate_query ch (xGate ch) (Xdep0 ch) (Xdep1 ch) = Inr ((A, B), gt, w')"
      by (auto simp add: vReinit_X_def split: sum.splits)
    have ab: "rates ch (xGate ch) (Xdep0 ch) (Xdep1 ch) = (A, B)" and w': "w' = []"
      by (rule gate_query_Inr(2) [OF q], rule gate_query_Inr(1) [OF q])
    show ?thesis
      using True assms
      by (cases "xInited ch")
        (auto simp add: vReinit_X_def q ab w' spec_init_def small_B_def Let_def
          split: if_splits)
  next
    case False
    with assms have "c1 = ch\<lparr>xGate := xGate ch, stateX := stateX ch, g_acc := g_acc ch\<rparr>"
      and "\<not> stop" and "w = []"
      by (simp_all add: vReinit_X_def)
    with False show ?thesis by (simp only: if_False small_B_def) blast
  qed
  then show "stop = small_B ch (Xpower ch) (xGate ch) (Xdep0 ch) (Xdep1 ch)"
    and "stop \<Longrightarrow> (\<exists>s. w = [Warning s]) \<and> (\<exists>gt. c1 = ch\<lparr>xGate := gt\<rparr>)"
    and "\<not> stop \<Longrightarrow> w = [] \<and>
           (\<exists>gt ga. c1 = ch\<lparr>xGate := gt,
                      stateX := (if Xpower ch > 0
                                 then spec_init (xInited ch) (stateX ch)
                                        (rates ch (xGate ch) (Xdep0 ch) (Xdep1 ch))
                                 else stateX ch),
                      g_acc := ga\<rparr>)"
    by blast+
qed

lemma vReinit_Y_result:
  assumes "vReinit_Y ch = Inr (stop, c1, w)"
  shows "stop = small_B ch (Ypower ch) (yGate ch) (Ydep0 ch) (Ydep1 ch)"
    and "stop \<Longrightarrow> (\<exists>s. w = [Warning s]) \<and> (\<exists>gt. c1 = ch\<lparr>yGate := gt\<rparr>)"
    and "\<not> stop \<Longrightarrow> w = [] \<and>
           (\<exists>gt ga. c1 = ch\<lparr>yGate := gt,
                      stateY := (if Ypower ch > 0
                                 then spec_init (yInited ch) (stateY ch)
                                        (rates ch (yGate ch) (Ydep0 ch) (Ydep1 ch))
                                 else stateY ch),
                      g_acc := ga\<rparr>)"
proof -
  have "stop = small_B ch (Ypower ch) (yGate ch) (Ydep0 ch) (Ydep1 ch)
      \<and> (stop \<longrightarrow> (\<exists>s. w = [Warning s]) \<and> (\<exists>gt. c1 = ch\<lparr>yGate := gt\<rparr>))
      \<and> (\<not> stop \<longrightarrow> w = [] \<and>
           (\<exists>gt ga. c1 = ch\<lparr>yGate := gt,
                      stateY := (if Ypower ch > 0
                                 then spec_init (yInited ch) (stateY ch)
                                        (rates ch (yGate ch) (Ydep0 ch) (Ydep1 ch))
                                 else stateY ch),
                      g_acc := ga\<rparr>))"
  proof (cases "Ypower ch > 0")
    case True
    with assms obtain A B gt w' where
      q: "gate_query ch (yGate ch) (Ydep0 ch) (Ydep1 ch) = Inr ((A, B), gt, w')"
      by (auto simp add: vReinit_Y_def split: sum.splits)
    have ab: "rates ch (yGate ch) (Ydep0 ch) (Ydep1 ch) = (A, B)" and w': "w' = []"
      by (rule gate_query_Inr(2) [OF q], rule gate_query_Inr(1) [OF q])
    show ?thesis
      using True assms
      by (cases "yInited ch")
        (auto simp add: vReinit_Y_def q ab w' spec_init_def small_B_def Let_def
          split: if_splits)
  next
    case False
    with assms have "c1 = ch\<lparr>yGate := yGate ch, stateY := stateY ch, g_acc := g_acc ch\<rparr>"
      and "\<not> stop" and "w = []"
      by (simp_all add: vReinit_Y_def)
    with False show ?thesis by (simp only: if_False small_B_def) blast
  qed
  then show "stop = small_B ch (Ypower ch) (yGate ch) (Ydep0 ch) (Ydep1 ch)"
    and "stop \<Longrightarrow> (\<exists>s. w = [Warning s]) \<and> (\<exists>gt. c1 = ch\<lparr>yGate := gt\<rparr>)"
    and "\<not> stop \<Longrightarrow> w = [] \<and>
           (\<exists>gt ga. c1 = ch\<lparr>yGate := gt,
                      stateY := (if Ypower ch > 0
                                 then spec_init (yInited ch) (stateY ch)
                                        (rates ch (yGate ch) (Ydep0 ch) (Ydep1 ch))
                                 else stateY ch),
                      g_acc := ga\<rparr>)"
    by blast+
qed

lemma vReinit_Z_result:
  assumes "vReinit_Z ch = Inr (stop, c1, w)"
  shows "stop = small_B ch (Zpower ch) (zGate ch) (Zdep0 ch) (Zdep1 ch)"
    and "stop \<Longrightarrow> (\<exists>s. w = [Warning s]) \<and> (\<exists>gt. c1 = ch\<lparr>zGate := gt\<rparr>)"
    and "\<not> stop \<Longrightarrow> w = [] \<and>
           (\<exists>gt ga. c1 = ch\<lparr>zGate := gt,
                      stateZ := (if Zpower ch > 0
                                 then spec_init (zInited ch) (stateZ ch)
                                        (rates ch (zGate ch) (Zdep0 ch) (Zdep1 ch))
                                 else stateZ ch),
                      g_acc := ga\<rparr>)"
proof -
  have "stop = small_B ch (Zpower ch) (zGate ch) (Zdep0 ch) (Zdep1 ch)
      \<and> (stop \<longrightarrow> (\<exists>s. w = [Warning s]) \<and> (\<exists>gt. c1 = ch\<lparr>zGate := gt\<rparr>))
      \<and> (\<not> stop \<longrightarrow> w = [] \<and>
           (\<exists>gt ga. c1 = ch\<lparr>zGate := gt,
                      stateZ := (if Zpower ch > 0
                                 then spec_init (zInited ch) (stateZ ch)
                                        (rates ch (zGate ch) (Zdep0 ch) (Zdep1 ch))
                                 else stateZ ch),
                      g_acc := ga\<rparr>))"
  proof (cases "Zpower ch > 0")
    case True
    with assms obtain A B gt w' where
      q: "gate_query ch (zGate ch) (Zdep0 ch) (Zdep1 ch) = Inr ((A, B), gt, w')"
      by (auto simp add: vReinit_Z_def split: sum.splits)
    have ab: "rates ch (zGate ch) (Zdep0 ch) (Zdep1 ch) = (A, B)" and w': "w' = []"
      by (rule gate_query_Inr(2) [OF q], rule gate_query_Inr(1) [OF q])
    show ?thesis
      using True assms
      by (cases "zInited ch")
        (auto simp add: vReinit_Z_def q ab w' spec_init_def small_B_def Let_def
          split: if_splits)
  next
    case False
    with assms have "c1 = ch\<lparr>zGate := zGate ch, stateZ := stateZ ch, g_acc := g_acc ch\<rparr>"
      and "\<not> stop" and "w = []"
      by (simp_all add: vReinit_Z_def)
    with False show ?thesis by (simp only: if_False small_B_def) blast
  qed
  then show "stop = small_B ch (Zpower ch) (zGate ch) (Zdep0 ch) (Zdep1 ch)"
    and "stop \<Longrightarrow> (\<exists>s. w = [Warning s]) \<and> (\<exists>gt. c1 = ch\<lparr>zGate := gt\<rparr>)"
    and "\<not> stop \<Longrightarrow> w = [] \<and>
           (\<exists>gt ga. c1 = ch\<lparr>zGate := gt,
                      stateZ := (if Zpower ch > 0
                                 then spec_init (zInited ch) (stateZ ch)
                                        (rates ch (zGate ch) (Zdep0 ch) (Zdep1 ch))
                                 else stateZ ch),
                      g_acc := ga\<rparr>)"
    by blast+
qed


text \<open>
  \<^bold>\<open>C2.\<close> A process step of a channel whose active gates are ready runs to its end.
  Whenever a process step runs to its end, for each gate with power \<open>> 0\<close> the new state
  is \<open>A / B\<close> of the current lookup when the instant bit of the gate is set, and
  \<open>(g * (2/dt - B) + 2 * A) / (2/dt + B)\<close> otherwise; the state of a gate with power \<open>0\<close>
  stays.
\<close>

theorem vProcess_gate_update:
  "(channel_ready ch \<longrightarrow> (\<exists>ch' w. HHChannelF2D_vProcess ch dt = Inr (ch', w)))
   \<and> (\<forall>ch' w. HHChannelF2D_vProcess ch dt = Inr (ch', w) \<longrightarrow>
         stateX ch' = (if Xpower ch > 0
                       then spec_step (instant_bit ch INSTANT_X) dt (stateX ch)
                              (rates ch (xGate ch) (Xdep0 ch) (Xdep1 ch))
                       else stateX ch)
       \<and> stateY ch' = (if Ypower ch > 0
                       then spec_step (instant_bit ch INSTANT_Y) dt (stateY ch)
                              (rates ch (yGate ch) (Ydep0 ch) (Ydep1 ch))
                       else stateY ch)
       \<and> stateZ ch' = (if Zpower ch > 0
                       then spec_step (instant_bit ch INSTANT_Z) dt (stateZ ch)
                              (rates ch (zGate ch) (Zdep0 ch) (Zdep1 ch))
                       else stateZ ch))"
proof (intro conjI impI allI)
  assume "channel_ready ch"
  from vProcess_ready_runs [OF this, of dt]
  show "\<exists>ch' w. HHChannelF2D_vProcess ch dt = Inr (ch', w)" by blast
next
  fix ch' w
  assume r: "HHChannelF2D_vProcess ch dt = Inr (ch', w)"
  let ?c0 = "ch\<lparr>g_acc := g_acc ch + Gbar ch\<rparr>"
  from r obtain c1 w1 where x: "vProcess_X dt ?c0 = Inr (c1, w1)"
    by (cases "vProcess_X dt ?c0") (auto simp add: HHChannelF2D_vProcess_def)
  from r x obtain c2 w2 where y: "vProcess_Y dt c1 = Inr (c2, w2)"
    by (cases "vProcess_Y dt c1") (auto simp add: HHChannelF2D_vProcess_def)
  from r x y obtain c3 w3 where z: "vProcess_Z dt c2 = Inr (c3, w3)"
    by (cases "vProcess_Z dt c2") (auto simp add: HHChannelF2D_vProcess_def)
  from r x y z have ch': "ch' = (updateIk (setGk c3 (g_acc c3 * modulation c3)))\<lparr>g_acc := 0\<rparr>"
    by (simp add: HHChannelF2D_vProcess_def Let_def)
  from vProcess_X_result [OF x] obtain gx ga1 sx where
    c1: "c1 = ?c0\<lparr>xGate := gx, stateX := sx, g_acc := ga1\<rparr>"
    and sx: "sx = (if Xpower ?c0 > 0
                   then spec_step (instant_bit ?c0 INSTANT_X) dt (stateX ?c0)
                          (rates ?c0 (xGate ?c0) (Xdep0 ?c0) (Xdep1 ?c0))
                   else stateX ?c0)"
    by blast
  from vProcess_Y_result [OF y] obtain gy ga2 sy where
    c2: "c2 = c1\<lparr>yGate := gy, stateY := sy, g_acc := ga2\<rparr>"
    and sy: "sy = (if Ypower c1 > 0
                   then spec_step (instant_bit c1 INSTANT_Y) dt (stateY c1)
                          (rates c1 (yGate c1) (Ydep0 c1) (Ydep1 c1))
                   else stateY c1)"
    by blast
  from vProcess_Z_result [OF z] obtain gz ga3 sz where
    c3: "c3 = c2\<lparr>zGate := gz, stateZ := sz, g_acc := ga3\<rparr>"
    and sz: "sz = (if Zpower c2 > 0
                   then spec_step (instant_bit c2 INSTANT_Z) dt (stateZ c2)
                          (rates c2 (zGate c2) (Zdep0 c2) (Zdep1 c2))
                   else stateZ c2)"
    by blast
  have fx: "stateX c3 = (if Xpower ch > 0
                     then spec_step (instant_bit ch INSTANT_X) dt (stateX ch)
                            (rates ch (xGate ch) (Xdep0 ch) (Xdep1 ch))
                     else stateX ch)"
    by (simp add: c3 c2 c1 sx rates_frame instant_bit_frame)
  have fy: "stateY c3 = (if Ypower ch > 0
                     then spec_step (instant_bit ch INSTANT_Y) dt (stateY ch)
                            (rates ch (yGate ch) (Ydep0 ch) (Ydep1 ch))
                     else stateY ch)"
    by (simp add: c3 c2 sy) (simp add: c1 rates_frame instant_bit_frame)
  have fz: "stateZ c3 = (if Zpower ch > 0
                     then spec_step (instant_bit ch INSTANT_Z) dt (stateZ ch)
                            (rates ch (zGate ch) (Zdep0 ch) (Zdep1 ch))
                     else stateZ ch)"
    by (simp add: c3 sz) (simp add: c2 c1 rates_frame instant_bit_frame)
  show "stateX ch' = (if Xpower ch > 0
                       then spec_step (instant_bit ch INSTANT_X) dt (stateX ch)
                              (rates ch (xGate ch) (Xdep0 ch) (Xdep1 ch))
                       else stateX ch)"
    unfolding ch' using fx by (simp add: updateIk_def setGk_def)
  show "stateY ch' = (if Ypower ch > 0
                       then spec_step (instant_bit ch INSTANT_Y) dt (stateY ch)
                              (rates ch (yGate ch) (Ydep0 ch) (Ydep1 ch))
                       else stateY ch)"
    unfolding ch' using fy by (simp add: updateIk_def setGk_def)
  show "stateZ ch' = (if Zpower ch > 0
                       then spec_step (instant_bit ch INSTANT_Z) dt (stateZ ch)
                              (rates ch (zGate ch) (Zdep0 ch) (Zdep1 ch))
                       else stateZ ch)"
    unfolding ch' using fz by (simp add: updateIk_def setGk_def)
qed

theorem vProcess_gate_update_witness:
  "channel_ready process_channel
   \<and> (\<exists>ch' w. HHChannelF2D_vProcess process_channel 1 = Inr (ch', w)
        \<and> stateX ch' = 1 / 2 \<and> stateY ch' = 1 / 4 \<and> stateZ ch' = 0)"
proof -
  have r: "channel_ready process_channel"
    by (simp add: channel_ready_def gate_ready_def process_channel_def HHChannelF2D_new_def)
  have p: "Xpower process_channel = 1" "Ypower process_channel = 1" "Zpower process_channel = 0"
    "stateX process_channel = 0" "stateZ process_channel = 0"
    by (simp_all add: process_channel_def HHChannelF2D_new_def)
  note t = vProcess_gate_update [of process_channel 1]
  from t r obtain ch' w where run: "HHChannelF2D_vProcess process_channel 1 = Inr (ch', w)"
    by blast
  with t have "stateX ch' = 1 / 2 \<and> stateY ch' = 1 / 4 \<and> stateZ ch' = 0"
    by (simp add: p process_channel_rates process_channel_bits spec_step_def)
  with r run show ?thesis by blast
qed


text \<open>
  \<^bold>\<open>C3\<close> (amended). A reinit of a channel whose active gates are ready runs to its end.
  Whenever a reinit runs to its end, it has taken the gates X, Y, Z in this order and
  queried each gate with power \<open>> 0\<close> at the current inputs. At the first such gate whose
  \<open>B\<close> is below \<open>1e-15\<close> it has emitted one warning and returned: the state of that gate
  and of the gates after it is left as it was, and no \<open>Gk\<close>/\<open>Ik\<close> is emitted. A gate
  reached before that is set to \<open>A / B\<close> unless it is pre-initialised; when no gate stops
  the reinit, \<open>Gk\<close> and \<open>Ik\<close> are emitted.
\<close>

theorem vReinit_stops_at_small_B:
  "(channel_ready ch \<longrightarrow> (\<exists>ch' w. HHChannelF2D_vReinit ch = Inr (ch', w)))
   \<and> (\<forall>ch' w. HHChannelF2D_vReinit ch = Inr (ch', w) \<longrightarrow>
         stateX ch' = (if Xpower ch > 0 \<and> \<not> bad_X ch
                       then spec_init (xInited ch) (stateX ch)
                              (rates ch (xGate ch) (Xdep0 ch) (Xdep1 ch))
                       else stateX ch)
       \<and> stateY ch' = (if Ypower ch > 0 \<and> \<not> bad_X ch \<and> \<not> bad_Y ch
                       then spec_init (yInited ch) (stateY ch)
                              (rates ch (yGate ch) (Ydep0 ch) (Ydep1 ch))
                       else stateY ch)
       \<and> stateZ ch' = (if Zpower ch > 0 \<and> \<not> bad_X ch \<and> \<not> bad_Y ch \<and> \<not> bad_Z ch
                       then spec_init (zInited ch) (stateZ ch)
                              (rates ch (zGate ch) (Zdep0 ch) (Zdep1 ch))
                       else stateZ ch)
       \<and> (if bad_X ch \<or> bad_Y ch \<or> bad_Z ch
           then (\<exists>s. w = [Warning s])
           else w = [ChannelOut (Gk ch') (Ek ch'), IkOut (Ik ch')]))"
proof (rule conjI, rule impI)
  assume "channel_ready ch"
  from vReinit_ready_runs [OF this]
  show "\<exists>ch' w. HHChannelF2D_vReinit ch = Inr (ch', w)" by blast
next
  show "(\<forall>ch' w. HHChannelF2D_vReinit ch = Inr (ch', w) \<longrightarrow>
         stateX ch' = (if Xpower ch > 0 \<and> \<not> bad_X ch
                       then spec_init (xInited ch) (stateX ch)
                              (rates ch (xGate ch) (Xdep0 ch) (Xdep1 ch))
                       else stateX ch)
       \<and> stateY ch' = (if Ypower ch > 0 \<and> \<not> bad_X ch \<and> \<not> bad_Y ch
                       then spec_init (yInited ch) (stateY ch)
                              (rates ch (yGate ch) (Ydep0 ch) (Ydep1 ch))
                       else stateY ch)
       \<and> stateZ ch' = (if Zpower ch > 0 \<and> \<not> bad_X ch \<and> \<not> bad_Y ch \<and> \<not> bad_Z ch
                       then spec_init (zInited ch) (stateZ ch)
                              (rates ch (zGate ch) (Zdep0 ch) (Zdep1 ch))
                       else stateZ ch)
       \<and> (if bad_X ch \<or> bad_Y ch \<or> bad_Z ch
           then (\<exists>s. w = [Warning s])
           else w = [ChannelOut (Gk ch') (Ek ch'), IkOut (Ik ch')]))"
  proof (intro allI impI)
  fix ch' w
  assume r: "HHChannelF2D_vReinit ch = Inr (ch', w)"
  let ?c0 = "ch\<lparr>g_acc := Gbar ch\<rparr>"
  from r obtain stop1 c1 w1 where x: "vReinit_X ?c0 = Inr (stop1, c1, w1)"
    by (cases "vReinit_X ?c0") (auto simp add: HHChannelF2D_vReinit_def)
  note X = vReinit_X_result [OF x]
  have bx: "stop1 = bad_X ch"
    using X(1) by (simp add: bad_X_def small_B_frame)
  show "stateX ch' = (if Xpower ch > 0 \<and> \<not> bad_X ch
                       then spec_init (xInited ch) (stateX ch)
                              (rates ch (xGate ch) (Xdep0 ch) (Xdep1 ch))
                       else stateX ch)
       \<and> stateY ch' = (if Ypower ch > 0 \<and> \<not> bad_X ch \<and> \<not> bad_Y ch
                       then spec_init (yInited ch) (stateY ch)
                              (rates ch (yGate ch) (Ydep0 ch) (Ydep1 ch))
                       else stateY ch)
       \<and> stateZ ch' = (if Zpower ch > 0 \<and> \<not> bad_X ch \<and> \<not> bad_Y ch \<and> \<not> bad_Z ch
                       then spec_init (zInited ch) (stateZ ch)
                              (rates ch (zGate ch) (Zdep0 ch) (Zdep1 ch))
                       else stateZ ch)
       \<and> (if bad_X ch \<or> bad_Y ch \<or> bad_Z ch
           then (\<exists>s. w = [Warning s])
           else w = [ChannelOut (Gk ch') (Ek ch'), IkOut (Ik ch')])"
  proof (cases "bad_X ch")
    case True
    with bx have s1: "stop1" by simp
    from X(2) [OF s1] obtain s gx where w1: "w1 = [Warning s]" and c1: "c1 = ?c0\<lparr>xGate := gx\<rparr>"
      by blast
    from r x s1 have "ch' = c1" "w = w1"
      by (simp_all add: HHChannelF2D_vReinit_def)
    then show ?thesis
      using True by (simp add: w1 c1)
  next
    case nbx: False
    with bx have s1: "\<not> stop1" by simp
    from X(3) [OF s1] obtain gx ga1 sx where w1: "w1 = []"
      and c1: "c1 = ?c0\<lparr>xGate := gx, stateX := sx, g_acc := ga1\<rparr>"
      and sx: "sx = (if Xpower ?c0 > 0
                     then spec_init (xInited ?c0) (stateX ?c0)
                            (rates ?c0 (xGate ?c0) (Xdep0 ?c0) (Xdep1 ?c0))
                     else stateX ?c0)"
      by blast
    have fx: "stateX c1 = (if Xpower ch > 0
                     then spec_init (xInited ch) (stateX ch)
                            (rates ch (xGate ch) (Xdep0 ch) (Xdep1 ch))
                     else stateX ch)"
      by (simp add: c1 sx rates_frame)
    from r x s1 obtain stop2 c2 w2 where y: "vReinit_Y c1 = Inr (stop2, c2, w2)"
      by (cases "vReinit_Y c1") (auto simp add: HHChannelF2D_vReinit_def)
    note Y = vReinit_Y_result [OF y]
    have by': "stop2 = bad_Y ch"
      using Y(1) by (simp add: bad_Y_def c1 small_B_frame)
    show ?thesis
    proof (cases "bad_Y ch")
      case True
      with by' have s2: "stop2" by simp
      from Y(2) [OF s2] obtain s gy where w2: "w2 = [Warning s]" and c2: "c2 = c1\<lparr>yGate := gy\<rparr>"
        by blast
      from r x y s1 s2 have "ch' = c2" "w = w1 @ w2"
        by (simp_all add: HHChannelF2D_vReinit_def)
      moreover have "stateY c2 = stateY ch" "stateZ c2 = stateZ ch" "stateX c2 = stateX c1"
        by (simp_all add: c2 c1)
      ultimately show ?thesis
        using True nbx fx by (simp add: w1 w2)
    next
      case nby: False
      with by' have s2: "\<not> stop2" by simp
      from Y(3) [OF s2] obtain gy ga2 sy where w2: "w2 = []"
        and c2: "c2 = c1\<lparr>yGate := gy, stateY := sy, g_acc := ga2\<rparr>"
        and sy: "sy = (if Ypower c1 > 0
                       then spec_init (yInited c1) (stateY c1)
                              (rates c1 (yGate c1) (Ydep0 c1) (Ydep1 c1))
                       else stateY c1)"
        by blast
      have fy: "stateY c2 = (if Ypower ch > 0
                     then spec_init (yInited ch) (stateY ch)
                            (rates ch (yGate ch) (Ydep0 ch) (Ydep1 ch))
                     else stateY ch)"
        by (simp add: c2 sy) (simp add: c1 rates_frame)
      have fx2: "stateX c2 = stateX c1"
        by (simp add: c2)
      from r x y s1 s2 obtain stop3 c3 w3 where z: "vReinit_Z c2 = Inr (stop3, c3, w3)"
        by (cases "vReinit_Z c2") (auto simp add: HHChannelF2D_vReinit_def)
      note Z = vReinit_Z_result [OF z]
      have bz: "stop3 = bad_Z ch"
        using Z(1) by (simp add: bad_Z_def c1 c2 small_B_frame)
      show ?thesis
      proof (cases "bad_Z ch")
        case True
        with bz have s3: "stop3" by simp
        from Z(2) [OF s3] obtain s gz where w3: "w3 = [Warning s]"
          and c3: "c3 = c2\<lparr>zGate := gz\<rparr>"
          by blast
        from r x y z s1 s2 s3 have "ch' = c3" "w = w1 @ w2 @ w3"
          by (simp_all add: HHChannelF2D_vReinit_def)
        moreover have "stateZ c3 = stateZ ch" "stateY c3 = stateY c2" "stateX c3 = stateX c1"
          by (simp_all add: c3 c2 c1)
        ultimately show ?thesis
          using True nbx nby fx fy by (simp add: w1 w2 w3)
      next
        case nbz: False
        with bz have s3: "\<not> stop3" by simp
        from Z(3) [OF s3] obtain gz ga3 sz where w3: "w3 = []"
          and c3: "c3 = c2\<lparr>zGate := gz, stateZ := sz, g_acc := ga3\<rparr>"
          and sz: "sz = (if Zpower c2 > 0
                         then spec_init (zInited c2) (stateZ c2)
                                (rates c2 (zGate c2) (Zdep0 c2) (Zdep1 c2))
                         else stateZ c2)"
          by blast
        from r x y z s1 s2 s3
        have run: "ch' = (updateIk (setGk c3 (g_acc c3 * modulation c3)))\<lparr>g_acc := 0\<rparr>"
          "w = w1 @ w2 @ w3 @ sendMsgs (updateIk (setGk c3 (g_acc c3 * modulation c3)))"
          by (simp_all add: HHChannelF2D_vReinit_def Let_def)
        have fz: "stateZ c3 = (if Zpower ch > 0
                     then spec_init (zInited ch) (stateZ ch)
                            (rates ch (zGate ch) (Zdep0 ch) (Zdep1 ch))
                     else stateZ ch)"
          by (simp add: c3 sz) (simp add: c2 c1 rates_frame)
        have "stateX c3 = stateX c1" "stateY c3 = stateY c2"
          by (simp_all add: c3 c2)
        then show ?thesis
          unfolding run using nbx nby nbz fx fy fz
          by (simp add: updateIk_def setGk_def sendMsgs_def w1 w2 w3)
      qed
    qed
  qed
qed
qed

theorem vReinit_stops_at_small_B_witness:
  "channel_ready reinit_channel \<and> bad_X reinit_channel
   \<and> (\<exists>ch' w s. HHChannelF2D_vReinit reinit_channel = Inr (ch', w)
         \<and> stateX ch' = 0 \<and> stateY ch' = 0 \<and> w = [Warning s])
   \<and> channel_ready process_channel
   \<and> (\<exists>ch' w. HHChannelF2D_vReinit process_channel = Inr (ch', w)
         \<and> stateX ch' = 1 / 2 \<and> stateY ch' = 1 / 4
         \<and> w = [ChannelOut (Gk ch') (Ek ch'), IkOut (Ik ch')])"
proof -
  have r1: "channel_ready reinit_channel"
    by (simp add: channel_ready_def gate_ready_def reinit_channel_def HHChannelF2D_new_def)
  have r2: "channel_ready process_channel"
    by (simp add: channel_ready_def gate_ready_def process_channel_def HHChannelF2D_new_def)
  have p1: "Xpower reinit_channel = 1" "Ypower reinit_channel = 1" "Zpower reinit_channel = 0"
    "stateX reinit_channel = 0" "stateY reinit_channel = 0"
    by (simp_all add: reinit_channel_def HHChannelF2D_new_def)
  have p2: "Xpower process_channel = 1" "Ypower process_channel = 1" "Zpower process_channel = 0"
    "\<not> xInited process_channel" "\<not> yInited process_channel"
    by (simp_all add: process_channel_def HHChannelF2D_new_def)
  have b1: "bad_X reinit_channel"
    by (simp add: bad_X_def small_B_def p1 reinit_channel_rates EPSILON_def)
  have b2: "\<not> bad_X process_channel" "\<not> bad_Y process_channel" "\<not> bad_Z process_channel"
    by (simp_all add: bad_X_def bad_Y_def bad_Z_def small_B_def p2 process_channel_rates
        EPSILON_def)
  note t1 = vReinit_stops_at_small_B [of reinit_channel]
  note t2 = vReinit_stops_at_small_B [of process_channel]
  from t1 r1 obtain c1 w1 where run1: "HHChannelF2D_vReinit reinit_channel = Inr (c1, w1)"
    by blast
  with t1 b1 p1 have "stateX c1 = 0 \<and> stateY c1 = 0 \<and> (\<exists>s. w1 = [Warning s])"
    by simp
  with run1 have w1: "\<exists>ch' w s. HHChannelF2D_vReinit reinit_channel = Inr (ch', w)
         \<and> stateX ch' = 0 \<and> stateY ch' = 0 \<and> w = [Warning s]"
    by blast
  from t2 r2 obtain c2 w2 where run2: "HHChannelF2D_vReinit process_channel = Inr (c2, w2)"
    by blast
  with t2 b2 p2 have "stateX c2 = 1 / 2 \<and> stateY c2 = 1 / 4
         \<and> w2 = [ChannelOut (Gk c2) (Ek c2), IkOut (Ik c2)]"
    by (simp add: process_channel_rates spec_init_def)
  with run2 have w2: "\<exists>ch' w. HHChannelF2D_vReinit process_channel = Inr (ch', w)
         \<and> stateX ch' = 1 / 2 \<and> stateY ch' = 1 / 4
         \<and> w = [ChannelOut (Gk ch') (Ek ch'), IkOut (Ik ch')]"
    by blast
  show ?thesis
    using r1 r2 b1 w1 w2 by blast
qed

section \<open>Properties of the parametric setup\<close>

text \<open>Neither loop changes the length of a table.\<close>

lemma entryA_frame:
  "length (loopA (setupTables_entryA parms dx i s)) = length (loopA s)"
  "loopB (setupTables_entryA parms dx i s) = loopB s"
  by (simp_all add: setupTables_entryA_def Let_def)

lemma entryB_frame:
  "length (loopB (setupTables_entryB parms dx i s)) = length (loopB s)"
  "loopA (setupTables_entryB parms dx i s) = loopA s"
  by (simp_all add: setupTables_entryB_def Let_def)

lemma step_length:
  "length (loopA (setupTables_step parms doTau dx i s)) = length (loopA s)"
  "length (loopB (setupTables_step parms doTau dx i s)) = length (loopB s)"
  by (simp_all add: setupTables_step_def Let_def entryA_frame entryB_frame)

lemma fill_length:
  "length (loopA (setupTables_fill parms doTau dx n i s)) = length (loopA s)
   \<and> length (loopB (setupTables_fill parms doTau dx n i s)) = length (loopB s)"
  by (induction n arbitrary: i s) (simp_all add: step_length)

lemma resize_length: "length (resize n tab) = n"
  by (simp add: resize_def)

lemma filled_length:
  "length (loopA (setupTables_filled (setupTables_resized g parms xdivs) parms doTau xdivs)) = xdivs + 1"
  "length (loopB (setupTables_filled (setupTables_resized g parms xdivs) parms doTau xdivs)) = xdivs + 1"
  by (simp_all add: setupTables_filled_def fill_length setupTables_init_def
      setupTables_resized_def resize_length del: setupTables_fill.simps)

lemma filled_invDx:
  "setupTables_filled (g1\<lparr>invDx := d\<rparr>) parms doTau xdivs = setupTables_filled g1 parms doTau xdivs"
  by (simp add: setupTables_filled_def setupTables_init_def)

lemma tauStep_facts:
  assumes "i < length (loopA s)" and "i < length (loopB s)"
  shows "length (loopA (setupTables_tauStep i s)) = length (loopA s)"
    and "length (loopB (setupTables_tauStep i s)) = length (loopB s)"
    and "j \<noteq> i \<Longrightarrow> loopA (setupTables_tauStep i s) ! j = loopA s ! j"
    and "j \<noteq> i \<Longrightarrow> loopB (setupTables_tauStep i s) ! j = loopB s ! j"
    and "prevAentry (setupTables_tauStep i s) = loopA (setupTables_tauStep i s) ! i"
    and "prevBentry (setupTables_tauStep i s) = loopB (setupTables_tauStep i s) ! i"
    and "loopA (setupTables_tauStep i s) ! i =
           (if \<bar>loopA s ! i\<bar> < SINGULARITY then prevAentry s else loopB s ! i / loopA s ! i)"
    and "loopB (setupTables_tauStep i s) ! i =
           (if \<bar>loopA s ! i\<bar> < SINGULARITY then prevBentry s else 1 / loopA s ! i)"
  using assms by (simp_all add: setupTables_tauStep_def Let_def)

text \<open>The second loop, started at index \<open>i\<close> with \<open>n\<close> iterations to go on tables of
  \<open>i + n\<close> entries, leaves the entries below \<open>i\<close> alone and establishes the invariant
  at every entry from \<open>i\<close> on.\<close>

lemma tau_loop:
  assumes "length (loopA s) = N" and "length (loopB s) = N" and "i + n = N"
  shows "length (loopA (setupTables_tau n i s)) = N
       \<and> length (loopB (setupTables_tau n i s)) = N
       \<and> (\<forall>j < i. loopA (setupTables_tau n i s) ! j = loopA s ! j
                  \<and> loopB (setupTables_tau n i s) ! j = loopB s ! j)
       \<and> (\<forall>j. i \<le> j \<and> j < N \<longrightarrow>
             tau_entry_ok (loopA s) (loopB s) (loopA (setupTables_tau n i s))
               (loopB (setupTables_tau n i s)) (prevAentry s) (prevBentry s) i j)"
  using assms
proof (induction n arbitrary: i s)
  case 0
  then show ?case by auto
next
  case (Suc n)
  let ?s1 = "setupTables_tauStep i s"
  let ?s' = "setupTables_tau n (Suc i) ?s1"
  from Suc.prems have iA: "i < length (loopA s)" and iB: "i < length (loopB s)" by simp_all
  note st = tauStep_facts [OF iA iB]
  have l1: "length (loopA ?s1) = N" "length (loopB ?s1) = N"
    using st(1,2) Suc.prems by simp_all
  have n1: "Suc i + n = N" using Suc.prems by simp
  from Suc.IH [OF l1 n1]
  have lenA: "length (loopA ?s') = N" and lenB: "length (loopB ?s') = N"
    and keep: "\<And>j. j < Suc i \<Longrightarrow> loopA ?s' ! j = loopA ?s1 ! j \<and> loopB ?s' ! j = loopB ?s1 ! j"
    and rest: "\<And>j. Suc i \<le> j \<Longrightarrow> j < N \<Longrightarrow>
             tau_entry_ok (loopA ?s1) (loopB ?s1) (loopA ?s') (loopB ?s')
               (prevAentry ?s1) (prevBentry ?s1) (Suc i) j"
    by blast+
  have at_i: "loopA ?s' ! i = loopA ?s1 ! i" "loopB ?s' ! i = loopB ?s1 ! i"
    using keep [of i] by simp_all
  have below: "\<forall>j < i. loopA ?s' ! j = loopA s ! j \<and> loopB ?s' ! j = loopB s ! j"
  proof (intro allI impI)
    fix j assume j: "j < i"
    then have "loopA ?s' ! j = loopA ?s1 ! j \<and> loopB ?s' ! j = loopB ?s1 ! j"
      using keep [of j] by simp
    moreover have "loopA ?s1 ! j = loopA s ! j" "loopB ?s1 ! j = loopB s ! j"
      using j st(3) [of j] st(4) [of j] by simp_all
    ultimately show "loopA ?s' ! j = loopA s ! j \<and> loopB ?s' ! j = loopB s ! j" by simp
  qed
  have above: "\<forall>j. i \<le> j \<and> j < N \<longrightarrow>
             tau_entry_ok (loopA s) (loopB s) (loopA ?s') (loopB ?s')
               (prevAentry s) (prevBentry s) i j"
  proof (intro allI impI)
    fix j assume j: "i \<le> j \<and> j < N"
    show "tau_entry_ok (loopA s) (loopB s) (loopA ?s') (loopB ?s')
               (prevAentry s) (prevBentry s) i j"
    proof (cases "j = i")
      case True
      then show ?thesis
        using at_i st(7,8) by (simp add: tau_entry_ok_def)
    next
      case False
      with j have j1: "Suc i \<le> j" "j < N" by simp_all
      have same: "loopA ?s1 ! j = loopA s ! j" "loopB ?s1 ! j = loopB s ! j"
        using False st(3) [of j] st(4) [of j] by simp_all
      have prev: "j = Suc i \<Longrightarrow> prevAentry ?s1 = loopA ?s' ! (j - 1)"
        "j = Suc i \<Longrightarrow> prevBentry ?s1 = loopB ?s' ! (j - 1)"
        using at_i st(5,6) by simp_all
      from rest [OF j1] show ?thesis
        using False same prev by (auto simp add: tau_entry_ok_def)
    qed
  qed
  show ?case
    using lenA lenB below above by simp
qed


text \<open>On a valid setup no assertion fails and no conversion is undefined.\<close>

lemma valid_parms_cast:
  assumes "valid_parms parms"
  shows "to_uint (parms ! 10) = Inr (nat \<lfloor>parms ! 10\<rfloor>)"
    and "uint_succ (nat \<lfloor>parms ! 10\<rfloor>) \<noteq> 0"
    and "1 \<le> nat \<lfloor>parms ! 10\<rfloor>"
proof -
  let ?x = "parms ! 10"
  from assms have x1: "1 \<le> ?x" and x2: "?x < 2 ^ 32 - 1"
    by (simp_all add: valid_parms_def)
  then show "to_uint ?x = Inr (nat \<lfloor>?x\<rfloor>)"
    by (simp add: to_uint_def)
  have f1: "1 \<le> \<lfloor>?x\<rfloor>" using x1 by (simp add: le_floor_iff)
  have "real_of_int \<lfloor>?x\<rfloor> \<le> ?x" by (rule of_int_floor_le)
  with x2 have "real_of_int \<lfloor>?x\<rfloor> < real_of_int (2 ^ 32 - 1)" by simp
  then have f2: "\<lfloor>?x\<rfloor> < 2 ^ 32 - 1" by (simp only: of_int_less_iff)
  from f1 show "1 \<le> nat \<lfloor>?x\<rfloor>" by linarith
  from f2 have "\<lfloor>?x\<rfloor> < 4294967295" by simp
  with f1 have "nat \<lfloor>?x\<rfloor> + 1 < 4294967296" by linarith
  then have "nat \<lfloor>?x\<rfloor> + 1 < 2 ^ 32" by simp
  then show "uint_succ (nat \<lfloor>?x\<rfloor>) \<noteq> 0"
    by (simp add: uint_succ_def)
qed

lemma setupTables_runs:
  assumes "valid_parms parms"
  shows "HHGate_setupTables g parms doTau = Inr (setupTables_result g parms doTau)"
proof -
  from assms have l: "length parms = 13" and x1: "\<not> parms ! 10 < 1"
    and r: "parms ! 11 < parms ! 12"
    by (simp_all add: valid_parms_def)
  note c = valid_parms_cast [OF assms]
  have rg: "xmin (setupTables_resized g parms n) = parms ! 11"
    "xmax (setupTables_resized g parms n) = parms ! 12" for n
    by (simp_all add: setupTables_resized_def)
  show ?thesis
    unfolding HHGate_setupTables_def setupTables_result_def
    using l x1 r c(1,2)
    by (simp add: Let_def rg filled_invDx del: setupTables_tau.simps)
qed

lemma setupTables_result_length:
  "length (tableA (setupTables_result g parms False)) = nat \<lfloor>parms ! 10\<rfloor> + 1"
  by (simp add: setupTables_result_def Let_def filled_length)

lemma setupTables_result_fields:
  "xmin (setupTables_result g parms doTau) = parms ! 11"
  "xmax (setupTables_result g parms doTau) = parms ! 12"
  "alpha (setupTables_result g parms doTau) = alpha g"
  "beta (setupTables_result g parms doTau) = beta g"
  by (simp_all add: setupTables_result_def Let_def filled_length setupTables_resized_def)

text \<open>
  \<^bold>\<open>C7.\<close> A valid 13-scalar fill in tau/inf mode runs through and leaves tables of
  \<open>divs + 1\<close> entries in which, for every sample index \<open>i\<close>, \<open>A[i] = inf[i] / tau[i]\<close> and
  \<open>B[i] = 1 / tau[i]\<close>, except that where \<open>|tau[i]| < 1e-6\<close> both entries equal the
  transformed entries at \<open>i - 1\<close> (\<open>0\<close> at index \<open>0\<close>); \<open>tau\<close> and \<open>inf\<close> are the curves the
  first loop wrote.
\<close>

theorem setupTables_tau_inf:
  assumes "valid_parms parms"
  shows "\<exists>g'. HHGate_setupTables g parms True = Inr g'
          \<and> length (tableA g') = nat \<lfloor>parms ! 10\<rfloor> + 1
          \<and> length (tableB g') = nat \<lfloor>parms ! 10\<rfloor> + 1
          \<and> (\<forall>i \<le> nat \<lfloor>parms ! 10\<rfloor>.
                tau_inf_entry (filled_tau g parms) (filled_inf g parms)
                  (tableA g') (tableB g') i)"
proof -
  let ?n = "nat \<lfloor>parms ! 10\<rfloor>"
  let ?s1 = "setupTables_filled (setupTables_resized g parms ?n) parms True ?n"
  let ?s0 = "?s1\<lparr>prevAentry := 0, prevBentry := 0\<rparr>"
  let ?s2 = "setupTables_tau (?n + 1) 0 ?s0"
  have l0: "length (loopA ?s0) = ?n + 1" "length (loopB ?s0) = ?n + 1"
    by (simp_all add: filled_length)
  from tau_loop [OF l0, of 0 "?n + 1"]
  have lenA: "length (loopA ?s2) = ?n + 1" and lenB: "length (loopB ?s2) = ?n + 1"
    and ent: "\<And>j. j < ?n + 1 \<Longrightarrow>
                tau_entry_ok (loopA ?s0) (loopB ?s0) (loopA ?s2) (loopB ?s2)
                  (prevAentry ?s0) (prevBentry ?s0) 0 j"
    by simp_all
  have tabs: "tableA (setupTables_result g parms True) = loopA ?s2"
    "tableB (setupTables_result g parms True) = loopB ?s2"
    by (simp_all add: setupTables_result_def Let_def del: setupTables_tau.simps)
  have "tau_inf_entry (filled_tau g parms) (filled_inf g parms) (loopA ?s2) (loopB ?s2) i"
    if "i \<le> ?n" for i
  proof -
    from that have "i < ?n + 1" by simp
    from ent [OF this] show ?thesis
      by (simp add: tau_entry_ok_def tau_inf_entry_def filled_tau_def filled_inf_def
          del: setupTables_tau.simps)
  qed
  then show ?thesis
    using setupTables_runs [OF assms, of g True] lenA lenB tabs
    by (simp del: setupTables_tau.simps)
qed


theorem setupTables_tau_inf_witness:
  "valid_parms tau_parms
   \<and> (\<exists>g'. HHGate_setupTables (HHGate_new 1 2) tau_parms True = Inr g'
          \<and> length (tableA g') = 3 \<and> length (tableB g') = 3
          \<and> tau_inf_entry (filled_tau (HHGate_new 1 2) tau_parms)
               (filled_inf (HHGate_new 1 2) tau_parms) (tableA g') (tableB g') 2)"
proof -
  have v: "valid_parms tau_parms"
    by (simp add: valid_parms_def tau_parms_def)
  have n: "nat \<lfloor>tau_parms ! 10\<rfloor> = 2"
    by (simp add: tau_parms_def)
  from setupTables_tau_inf [OF v, of "HHGate_new 1 2"] show ?thesis
    unfolding n using v by auto
qed

text \<open>A valid parametric setup through the original runs through: it fills the tables
  and stores the ten coefficients.\<close>

lemma setupAlpha_runs:
  assumes "valid_parms parms"
  shows "HHGate_setupAlpha g (originalGateId g) parms =
           Inr ((setupTables_result g parms False)
                  \<lparr>alpha := [parms ! 0, parms ! 1, parms ! 2, parms ! 3, parms ! 4],
                   beta := [parms ! 5, parms ! 6, parms ! 7, parms ! 8, parms ! 9],
                   form := 0\<rparr>, [])"
proof -
  from assms have l: "length parms = 13" by (simp add: valid_parms_def)
  show ?thesis
    using l
    by (simp add: HHGate_setupAlpha_def checkOriginal_def setupTables_runs [OF assms])
qed

text \<open>What a read of \<^verbatim>\<open>alphaParms\<close> returns after it: the ten coefficients and the range
  as they were given, and the number of table entries, \<open>divs + 1\<close>, in the eleventh
  position. A read of \<^verbatim>\<open>divs\<close> returns \<open>divs\<close>.\<close>

lemma setup_then_read_eq:
  assumes "valid_parms parms"
  shows "setup_then_read g (originalGateId g) parms =
           Inr ([parms ! 0, parms ! 1, parms ! 2, parms ! 3, parms ! 4,
                 parms ! 5, parms ! 6, parms ! 7, parms ! 8, parms ! 9,
                 real (nat \<lfloor>parms ! 10\<rfloor> + 1), parms ! 11, parms ! 12])"
  by (simp add: setup_then_read_def setupAlpha_runs [OF assms] HHGate_getAlphaParms_def
      setupTables_result_length setupTables_result_fields)

lemma setup_then_getDivs_eq:
  assumes "valid_parms parms"
  shows "setup_then_getDivs g (originalGateId g) parms = Inr (nat \<lfloor>parms ! 10\<rfloor>)"
proof -
  have "length (tableA (setupTables_result g parms False)) = nat \<lfloor>parms ! 10\<rfloor> + 1"
    by (rule setupTables_result_length)
  then have "size_minus_1 (tableA (setupTables_result g parms False)) = nat \<lfloor>parms ! 10\<rfloor>"
    by (auto simp add: size_minus_1_def)
  then show ?thesis
    by (simp add: setup_then_getDivs_def setupAlpha_runs [OF assms] HHGate_getDivs_def)
qed

text \<open>
  \<^bold>\<open>C5.\<close> The specification has the 13 scalars of a valid parametric setup read back
  unchanged, \<open>divs\<close> in the eleventh position. On the code the eleventh scalar read back is
  \<^verbatim>\<open>A_.size()\<close>, one more than the \<open>divs\<close> that was set: for the squid m gate with
  \<open>divs = 3000\<close> it is \<open>3001\<close>, while \<^verbatim>\<open>getDivs\<close> after the same setup returns \<open>3000\<close>.
\<close>

theorem alphaParms_readback_off_by_one:
  "squid_parms ! 10 = 3000
   \<and> setup_then_read (HHGate_new 1 2) 2 squid_parms
       = Inr (take 10 squid_parms @ [3001, squid_parms ! 11, squid_parms ! 12])
   \<and> setup_then_getDivs (HHGate_new 1 2) 2 squid_parms = Inr 3000"
proof -
  have v: "valid_parms squid_parms"
    by (simp add: valid_parms_def squid_parms_def)
  have o: "originalGateId (HHGate_new 1 2) = 2"
    by (simp add: HHGate_new_def)
  have n: "nat \<lfloor>squid_parms ! 10\<rfloor> = 3000"
    by (simp add: squid_parms_def)
  from setup_then_read_eq [OF v, of "HHGate_new 1 2"]
    setup_then_getDivs_eq [OF v, of "HHGate_new 1 2"]
  show ?thesis
    unfolding o n by (simp add: squid_parms_def)
qed

section \<open>Properties of the mutation guard\<close>

text \<open>The setters of the tables, the expressions, the range fields and the interpolation
  flag, and the two parametric setups, call \<^verbatim>\<open>checkOriginal\<close> before they change the gate:
  through an element that is not the original of the gate they return the gate as it
  was, with a warning.\<close>

lemma guarded_setters_refuse:
  assumes "eid \<noteq> originalGateId g"
  shows "2 \<le> length v \<Longrightarrow> HHGate_setTableA g eid v = (g, [Warning ''tableA''])"
    and "HHGate_setTableB g eid v = (g, [Warning ''tableB''])"
    and "HHGate_setAlphaExpr g eid e = (g, [Warning ''alphaExpr''])"
    and "HHGate_setBetaExpr g eid e = (g, [Warning ''betaExpr''])"
    and "HHGate_setTauExpr g eid e = (g, [Warning ''tauExpr''])"
    and "HHGate_setInfExpr g eid e = (g, [Warning ''infExpr''])"
    and "HHGate_setMin g eid x = Inr (g, [Warning ''min''])"
    and "HHGate_setMax g eid x = Inr (g, [Warning ''max''])"
    and "HHGate_setDivs g eid n = Inr (g, [Warning ''divs''])"
    and "HHGate_setUseInterpolation g eid b = (g, [Warning ''useInterpolation''])"
    and "HHGate_setupAlpha g eid parms = Inr (g, [Warning ''setupAlpha''])"
    and "HHGate_setupTau g eid parms = Inr (g, [Warning ''setupTau''])"
  using assms
  by (simp_all add: HHGate_setTableA_def HHGate_setTableB_def HHGate_setAlphaExpr_def
      HHGate_setBetaExpr_def HHGate_setTauExpr_def HHGate_setInfExpr_def HHGate_setMin_def
      HHGate_setMax_def HHGate_setDivs_def HHGate_setUseInterpolation_def
      HHGate_setupAlpha_def HHGate_setupTau_def checkOriginal_def)

text \<open>A table without singular entries passes \<^verbatim>\<open>fixSingularities\<close> as it is.\<close>

lemma fixSingularities_loop_regular:
  "\<forall>x \<in> set tab. \<not> singular x \<Longrightarrow> fixSingularities_loop tab ii = Inr tab"
proof (induction "length tab - ii" arbitrary: ii)
  case 0
  then have "\<not> ii < length tab" by simp
  then show ?case
    by (subst fixSingularities_loop.simps) simp
next
  case (Suc n)
  from Suc.hyps(2) have lt: "ii < length tab" by simp
  with Suc.prems have nb: "\<not> singular (tab ! ii)" by simp
  from Suc.hyps(2) have "n = length tab - (ii + 1)" by simp
  from Suc.hyps(1) [OF this Suc.prems] have "fixSingularities_loop tab (ii + 1) = Inr tab" .
  with lt nb show ?case
    by (subst fixSingularities_loop.simps) simp
qed

lemma fixSingularities_regular:
  "\<forall>x \<in> set tab. \<not> singular x \<Longrightarrow> fixSingularities tab = Inr tab"
  by (simp add: fixSingularities_def fixSingularities_loop_regular)

text \<open>The gate of the example is reached through the original of the gate.\<close>

lemma expr_gate_reached:
  "HHGate_setBetaExpr (fst (HHGate_setAlphaExpr
      (fst (projr (HHGate_setMax (fst (projr (HHGate_setDivs (HHGate_new 1 2) 2 4))) 2 2)))
      2 ''v + 1'')) 2 ''1'' = (expr_gate, [])"
  unfolding stale_gate_reached(1,2) sum.sel fst_conv
  by (simp add: HHGate_setAlphaExpr_def HHGate_setBetaExpr_def checkOriginal_def
      HHGate_new_def expr_gate_def)

lemma expr_gate_fill:
  "tabFillExpr_loop (\<lambda>v. v + 1) (\<lambda>v. 1) 1 0 (1 / 2) 5 0
     ([0, 0, 0, 0, 0], [0, 0, 0, 0, 0])
   = ([1, 3 / 2, 2, 5 / 2, 3], [2, 5 / 2, 3, 7 / 2, 4])"
  by (simp add: eval_nat_numeral)

text \<open>
  \<^bold>\<open>C9.\<close> The claim has every mutating operation that is invoked through an element
  other than the original of the gate leave the tables, the range, \<open>divs\<close>, the form and
  the expressions as they were and emit a warning. \<^verbatim>\<open>tabFillExpr\<close> does not: it is the one
  entry point that changes the gate without a call of \<^verbatim>\<open>checkOriginal\<close>. On the gate of
  the example (four divisions over \<open>[0, 2]\<close>, zero tables, \<open>alpha = v + 1\<close>, \<open>beta = 1\<close>,
  original \<open>2\<close>), with any parser that compiles the two expressions to what they say,
  \<^verbatim>\<open>tabFillExpr\<close> through any element \<open>eid\<close> fills table A with \<open>v + 1\<close> and table B with
  \<open>v + 2\<close> over the grid, overwrites \<open>invDx\<close> and emits nothing. All numbers of this run
  are exact in \<^verbatim>\<open>double\<close>.
\<close>

theorem tabFillExpr_not_guarded:
  assumes "trim ''v + 1'' \<noteq> []"
    and "compile ''v + 1'' = Some (\<lambda>v. v + 1)"
    and "compile ''1'' = Some (\<lambda>v. 1)"
  shows "HHGate_tabFillExpr trim compile expr_gate eid
     = Inr (expr_gate\<lparr>invDx := 2, tableA := [1, 3 / 2, 2, 5 / 2, 3],
               tableB := [2, 5 / 2, 3, 7 / 2, 4]\<rparr>, [])"
proof -
  have sz: "size_minus_1 [0, 0, 0, 0, 0 :: real] = 4"
    by (simp add: size_minus_1_def)
  have fa: "fixSingularities [1, 3 / 2, 2, 5 / 2, 3] = Inr [1, 3 / 2, 2, 5 / 2, 3]"
    by (rule fixSingularities_regular) (simp add: singular_def SINGULARITY_def)
  have fb: "fixSingularities [2, 5 / 2, 3, 7 / 2, 4] = Inr [2, 5 / 2, 3, 7 / 2, 4]"
    by (rule fixSingularities_regular) (simp add: singular_def SINGULARITY_def)
  show ?thesis
    using assms
    by (simp add: HHGate_tabFillExpr_def expr_gate_def HHGate_new_def sz expr_gate_fill fa fb)
qed

theorem tabFillExpr_not_guarded_witness:
  "(7 :: nat) \<noteq> originalGateId expr_gate
   \<and> tableA expr_gate = [0, 0, 0, 0, 0] \<and> tableB expr_gate = [0, 0, 0, 0, 0]
   \<and> invDx expr_gate = 4
   \<and> HHGate_tabFillExpr example_trim example_compile expr_gate 7
     = Inr (expr_gate\<lparr>invDx := 2, tableA := [1, 3 / 2, 2, 5 / 2, 3],
               tableB := [2, 5 / 2, 3, 7 / 2, 4]\<rparr>, [])"
  using tabFillExpr_not_guarded [of example_trim example_compile 7]
  by (simp add: example_trim_def example_compile_def expr_gate_def HHGate_new_def)

section \<open>Properties of the range fields\<close>

text \<open>The setters store the new range and the new \<open>invDx\<close> before they call
  \<^verbatim>\<open>tabFill\<close>, so the lookup inside \<^verbatim>\<open>tabFill\<close> works on the new grid: at the \<open>i\<close>-th point
  of the new grid it returns entry \<open>i\<close> of the table it is given.\<close>

lemma lookup_grid_point:
  assumes gc: "grid_consistent g n" and interp: "lookupByInterpolation g"
    and len: "length t = n + 1" and i: "i \<le> n"
  shows "HHGate_lookupTable g t (xmin g + real i * ((xmax g - xmin g) / real n)) = Inr (t ! i)"
proof -
  let ?w = "xmax g - xmin g"
  let ?v = "xmin g + real i * (?w / real n)"
  from gc have w: "0 < ?w" and n: "0 < real n" and n32: "n < 2 ^ 32"
    and inv: "invDx g = real n / ?w"
    by (simp_all add: grid_consistent_def)
  have dxpos: "0 < ?w / real n" using w n by simp
  consider (first) "i = 0" | (last) "i = n" | (mid) "0 < i" "i < n" using i by linarith
  then show ?thesis
  proof cases
    case first
    then show ?thesis using len by (simp add: HHGate_lookupTable_def vec_at_def)
  next
    case last
    have v: "?v = xmax g" using last n by simp
    have ne: "t \<noteq> []" using len by auto
    have "last t = t ! n" using len ne by (simp add: last_conv_nth)
    then show ?thesis
      unfolding v using w ne last by (simp add: HHGate_lookupTable_def vec_back_def)
  next
    case mid
    have ipos: "0 < real i" using mid by simp
    have iltn: "real i < real n" using mid by simp
    have off: "?v - xmin g = real i * (?w / real n)" by simp
    have "0 < real i * (?w / real n)" by (rule mult_pos_pos [OF ipos dxpos])
    then have gt: "xmin g < ?v" by (simp only: less_add_same_cancel1)
    have "real i * (?w / real n) < real n * (?w / real n)"
      using iltn dxpos by (rule mult_strict_right_mono)
    also have "real n * (?w / real n) = ?w" using n by simp
    finally have lt: "?v < xmax g" by simp
    have idx: "(?v - xmin g) * invDx g = real i"
      unfolding off inv using w n by simp
    have "real i < real n" by (rule iltn)
    also have "real n < 2 ^ 32"
    proof -
      have "real n < real (2 ^ 32)" using n32 by (rule iffD2 [OF of_nat_less_iff])
      then show ?thesis by simp
    qed
    finally have i32: "real i < 2 ^ 32" .
    have cast: "to_uint (real i) = Inr i"
      using i32 by (simp add: to_uint_def)
    have ibk: "real i / invDx g = real i * (?w / real n)"
      unfolding inv by simp
    have frac: "(?v - xmin g - real i / invDx g) * invDx g = 0"
      unfolding off ibk by simp
    have nle: "\<not> ?v \<le> xmin g" "\<not> xmax g \<le> ?v" using gt lt by simp_all
    have lens: "i < length t" "i + 1 < length t" using mid len by simp_all
    show ?thesis
      unfolding HHGate_lookupTable_def
      using nle interp lens
      by (simp only: if_False if_True idx cast sum.case frac Let_def vec_at_def not_not)
         simp
  qed
qed

text \<open>Hence the loop of \<^verbatim>\<open>tabFill\<close> writes every entry back onto itself, and
  \<^verbatim>\<open>tabFill\<close> returns the table it was given, cut or filled with zeros to the new
  size.\<close>

lemma tabFill_loop_identity:
  assumes gc: "grid_consistent g n" and interp: "lookupByInterpolation g"
    and len: "length t = n + 1" and ik: "i + k = n + 1"
  shows "tabFill_loop g (xmin g) ((xmax g - xmin g) / real n) k i t = Inr t"
  using ik
proof (induction k arbitrary: i)
  case 0
  then show ?case by simp
next
  case (Suc k)
  then have i: "i \<le> n" by simp
  have "HHGate_lookupTable g t (xmin g + real i * ((xmax g - xmin g) / real n)) = Inr (t ! i)"
    by (rule lookup_grid_point [OF gc interp len i])
  moreover have "t[i := t ! i] = t" by simp
  moreover have "tabFill_loop g (xmin g) ((xmax g - xmin g) / real n) k (Suc i) t = Inr t"
    using Suc.IH [of "Suc i"] Suc.prems by simp
  ultimately show ?case by simp
qed

lemma tabFill_identity:
  assumes gc: "grid_consistent g n" and n3: "3 \<le> n" and n32: "n + 1 < 2 ^ 32"
  shows "HHGate_tabFill g table n (xmin g) (xmax g) = Inr (resize (n + 1) table, [])"
proof -
  let ?g = "g\<lparr>lookupByInterpolation := True\<rparr>"
  have gc': "grid_consistent ?g n" using gc by (simp add: grid_consistent_def)
  have len: "length (resize (n + 1) table) = n + 1" by (simp add: resize_def)
  have loop: "tabFill_loop ?g (xmin g) ((xmax g - xmin g) / real n) (n + 1) 0
                (resize (n + 1) table) = Inr (resize (n + 1) table)"
    using tabFill_loop_identity [OF gc' _ len, of 0 "n + 1"] by simp
  have s: "uint_succ n \<noteq> 0" using n32 by (simp add: uint_succ_def)
  show ?thesis
    unfolding HHGate_tabFill_def using n3 s
    by (simp only: Let_def loop) simp
qed


lemma resize_same: "length tab = n \<Longrightarrow> resize n tab = tab"
  by (simp add: resize_def)

lemma tabFill_both_identity:
  assumes gc: "grid_consistent g n" and n3: "3 \<le> n" and n32: "n + 1 < 2 ^ 32"
  shows "tabFill_both g n (xmin g) (xmax g) =
           Inr (g\<lparr>tableA := resize (n + 1) (tableA g), tableB := resize (n + 1) (tableB g)\<rparr>, [])"
proof -
  let ?ta = "resize (n + 1) (tableA g)"
  have gc': "grid_consistent (g\<lparr>tableA := ?ta\<rparr>) n"
    using gc by (simp add: grid_consistent_def)
  have a: "HHGate_tabFill g (tableA g) n (xmin g) (xmax g) = Inr (?ta, [])"
    by (rule tabFill_identity [OF gc n3 n32])
  have b: "HHGate_tabFill (g\<lparr>tableA := ?ta\<rparr>) (tableB g) n (xmin g) (xmax g)
             = Inr (resize (n + 1) (tableB g), [])"
    using tabFill_identity [OF gc' n3 n32, of "tableB g"] by simp
  show ?thesis
    by (simp only: tabFill_both_def a b sum.case prod.case append_Nil)
qed

text \<open>On a direct-table gate with at least three divisions, a change of \<open>max\<close> or
  \<open>min\<close> through the original leaves both tables as they were, and a change of \<open>divs\<close>
  cuts them or fills them with zeros.\<close>

lemma setMax_direct_table:
  assumes dt: "isDirectTable g" and lenA: "length (tableA g) = n + 1"
    and lenB: "length (tableB g) = n + 1" and n3: "3 \<le> n" and n32: "n + 1 < 2 ^ 32"
    and r: "xmin g < val"
  shows "HHGate_setMax g (originalGateId g) val =
           Inr (g\<lparr>xmax := val, invDx := real n / (val - xmin g)\<rparr>, [])"
proof -
  let ?g = "g\<lparr>xmax := val, invDx := real n / (val - xmin g)\<rparr>"
  have gc: "grid_consistent ?g n"
    using r n3 n32 by (simp add: grid_consistent_def)
  have sz: "size_minus_1 (tableA g) = n"
    using lenA by (auto simp add: size_minus_1_def)
  have tf: "tabFill_both ?g n (xmin g) val = Inr (?g, [])"
    using tabFill_both_identity [OF gc n3 n32] lenA lenB by (simp add: resize_same)
  show ?thesis
    using dt n3 by (simp add: HHGate_setMax_def checkOriginal_def sz Let_def tf)
qed

lemma setMin_direct_table:
  assumes dt: "isDirectTable g" and lenA: "length (tableA g) = n + 1"
    and lenB: "length (tableB g) = n + 1" and n3: "3 \<le> n" and n32: "n + 1 < 2 ^ 32"
    and r: "val < xmax g"
  shows "HHGate_setMin g (originalGateId g) val =
           Inr (g\<lparr>xmin := val, invDx := real n / (xmax g - val)\<rparr>, [])"
proof -
  let ?g = "g\<lparr>xmin := val, invDx := real n / (xmax g - val)\<rparr>"
  have gc: "grid_consistent ?g n"
    using r n3 n32 by (simp add: grid_consistent_def)
  have sz: "size_minus_1 (tableA g) = n"
    using lenA by (auto simp add: size_minus_1_def)
  have tf: "tabFill_both ?g n val (xmax g) = Inr (?g, [])"
    using tabFill_both_identity [OF gc n3 n32] lenA lenB by (simp add: resize_same)
  show ?thesis
    using dt n3 by (simp add: HHGate_setMin_def checkOriginal_def sz Let_def tf)
qed

lemma setDivs_direct_table:
  assumes dt: "isDirectTable g" and n3: "3 \<le> n" and n32: "n + 1 < 2 ^ 32"
    and r: "xmin g < xmax g"
  shows "HHGate_setDivs g (originalGateId g) n =
           Inr (g\<lparr>invDx := real n / (xmax g - xmin g),
                   tableA := resize (n + 1) (tableA g),
                   tableB := resize (n + 1) (tableB g)\<rparr>, [])"
proof -
  let ?g = "g\<lparr>invDx := real n / (xmax g - xmin g)\<rparr>"
  have gc: "grid_consistent ?g n"
    using r n3 n32 by (simp add: grid_consistent_def)
  have tf: "tabFill_both ?g n (xmin g) (xmax g) =
              Inr (?g\<lparr>tableA := resize (n + 1) (tableA g),
                        tableB := resize (n + 1) (tableB g)\<rparr>, [])"
    using tabFill_both_identity [OF gc n3 n32] by simp
  show ?thesis
    using dt by (simp add: HHGate_setDivs_def checkOriginal_def tf)
qed

lemma example_gate_fields:
  "isDirectTable example_gate" "originalGateId example_gate = 2"
  "tableA example_gate = [0, 10, 20, 30, 40]"
  "tableB example_gate = [100, 200, 300, 400, 500]"
  "xmin example_gate = 0" "xmax example_gate = 1"
  by (simp_all add: example_gate_def HHGate_new_def)

lemma example_lookups:
  "HHGate_lookupA example_gate 0 = Inr 0"
  "HHGate_lookupA example_gate (1 / 2) = Inr 20"
  "HHGate_lookupA example_gate 1 = Inr 40"
  "HHGate_lookupA example_gate (3 / 2) = Inr 40"
  "HHGate_lookupA example_gate 2 = Inr 40"
  "HHGate_lookupA example_gate (1 / 8) = Inr 5"
  by (simp_all add: HHGate_lookupA_def HHGate_lookupTable_def example_gate_def HHGate_new_def
      vec_at_def vec_back_def to_uint_def)

text \<open>
  \<^bold>\<open>C6.\<close> The specification has a change of \<open>min\<close>, \<open>max\<close> or \<open>divs\<close> on a direct-table gate
  re-sample the stored table into the new grid by linear interpolation. On the code it
  does not. The gate over \<open>[0, 1]\<close> with \<open>A = [0, 10, 20, 30, 40]\<close> keeps exactly these
  entries when \<open>max\<close> is set to \<open>2\<close>, where the old table interpolated at the new grid
  points \<open>0, 1/2, 1, 3/2, 2\<close> is \<open>[0, 20, 40, 40, 40]\<close>; and setting \<open>divs\<close> to \<open>8\<close> appends
  four zeros, where the old table at the new grid point \<open>1/8\<close> is \<open>5\<close>.
\<close>

theorem range_change_keeps_entries:
  "tableA example_gate = [0, 10, 20, 30, 40]
   \<and> HHGate_setMax example_gate 2 2 = Inr (example_gate\<lparr>xmax := 2, invDx := 2\<rparr>, [])
   \<and> tableA (example_gate\<lparr>xmax := 2, invDx := 2\<rparr>) = [0, 10, 20, 30, 40]
   \<and> map (HHGate_lookupA example_gate) [0, 1 / 2, 1, 3 / 2, 2]
       = [Inr 0, Inr 20, Inr 40, Inr 40, Inr 40]
   \<and> HHGate_setDivs example_gate 2 8
       = Inr (example_gate\<lparr>invDx := 8, tableA := [0, 10, 20, 30, 40, 0, 0, 0, 0],
                tableB := [100, 200, 300, 400, 500, 0, 0, 0, 0]\<rparr>, [])
   \<and> HHGate_lookupA example_gate (1 / 8) = Inr 5"
proof -
  have mx: "HHGate_setMax example_gate 2 2 = Inr (example_gate\<lparr>xmax := 2, invDx := 2\<rparr>, [])"
    using setMax_direct_table [of example_gate 4 2] by (simp add: example_gate_fields)
  have dv: "HHGate_setDivs example_gate 2 8
       = Inr (example_gate\<lparr>invDx := 8, tableA := [0, 10, 20, 30, 40, 0, 0, 0, 0],
                tableB := [100, 200, 300, 400, 500, 0, 0, 0, 0]\<rparr>, [])"
  proof -
    have rep: "replicate 4 (0 :: real) = [0, 0, 0, 0]"
      by (simp add: eval_nat_numeral)
    show ?thesis
      using setDivs_direct_table [of example_gate 8]
      by (simp add: example_gate_fields resize_def rep)
  qed
  show ?thesis
    using mx dv by (simp add: example_gate_fields example_lookups)
qed

end
